(* ===== verification/Prelude.thy ===== *)
theory Prelude
  imports Main "HOL-Library.Word"
begin

text \<open>
  The vocabulary every component theory shares: the faults of the C abstract machine, the result
  type \<open>'a res\<close> with its sequencing operator, C's \<^verbatim>\<open>char\<close> as Isabelle's 8-bit \<open>char\<close>, and the
  functions of \<^verbatim>\<open>string.h\<close> the sources call, over byte arrays modelled as lists.  A C array is a list
  whose length is the array's size; an access outside it is a fault, not an unspecified value.
\<close>

unbundle bit_operations_syntax

named_theorems res_simps \<open>rewriting of sequenced computations\<close>
named_theorems char_defs \<open>the character classes of the sources\<close>
named_theorems cstr_simps \<open>laws of the C string functions\<close>

section \<open>Faults and results\<close>

text \<open>
  What stops a C program other than returning: a dereference of a pointer that addresses no live
  object (null, poisoned or freed), an access outside an array, a failed \<^verbatim>\<open>assert\<close> (the Makefile
  never defines \<^verbatim>\<open>NDEBUG\<close>, so assertions are live).  \<open>No_Return\<close> stands for a loop that used up the fuel
  of its model.
\<close>

datatype fault = Bad_Pointer | Out_Of_Bounds | Assert_Failed | No_Return

type_synonym 'a res = "fault + 'a"

definition rbind :: "'a res \<Rightarrow> ('a \<Rightarrow> 'b res) \<Rightarrow> 'b res" where
  "rbind m k = (case m of Inl e \<Rightarrow> Inl e | Inr x \<Rightarrow> k x)"

definition cassert :: "bool \<Rightarrow> unit res" where
  "cassert b = (if b then Inr () else Inl Assert_Failed)"

definition is_ok :: "'a res \<Rightarrow> bool" where
  "is_ok r = (case r of Inl _ \<Rightarrow> False | Inr _ \<Rightarrow> True)"

lemma rbind_Inl [simp, res_simps]: "rbind (Inl e) k = Inl e"
  by (simp add: rbind_def)

lemma rbind_Inr [simp, res_simps]: "rbind (Inr x) k = k x"
  by (simp add: rbind_def)

lemma rbind_assoc [res_simps]: "rbind (rbind m k) l = rbind m (\<lambda>x. rbind (k x) l)"
  by (simp add: rbind_def split: sum.split)

lemma rbind_eq_Inr: "rbind m k = Inr y \<longleftrightarrow> (\<exists>x. m = Inr x \<and> k x = Inr y)"
  by (auto simp: rbind_def split: sum.split)

lemma rbind_eq_Inl: "rbind m k = Inl e \<longleftrightarrow> m = Inl e \<or> (\<exists>x. m = Inr x \<and> k x = Inl e)"
  by (auto simp: rbind_def split: sum.split)

lemma rbind_cong [fundef_cong]:
  "m = m' \<Longrightarrow> (\<And>x. m' = Inr x \<Longrightarrow> k x = k' x) \<Longrightarrow> rbind m k = rbind m' k'"
  by (auto simp: rbind_def split: sum.split)

text \<open>
  \<open>res_all P r\<close>: whatever \<open>r\<close> returns satisfies \<open>P\<close>.  The rules follow a computation from its first step.
\<close>

definition res_all :: "('a \<Rightarrow> bool) \<Rightarrow> 'a res \<Rightarrow> bool" where
  "res_all P r = (case r of Inl _ \<Rightarrow> True | Inr x \<Rightarrow> P x)"

lemma res_allD: "res_all P r \<Longrightarrow> r = Inr x \<Longrightarrow> P x"
  by (simp add: res_all_def)

lemma res_allI: "(\<And>x. r = Inr x \<Longrightarrow> P x) \<Longrightarrow> res_all P r"
  by (simp add: res_all_def split: sum.split)

lemma res_all_pairI: "(\<And>x y. r = Inr (x, y) \<Longrightarrow> P y) \<Longrightarrow> res_all (\<lambda>(x, y). P y) r"
  by (auto intro: res_allI)

lemma res_all_pairD: "res_all (\<lambda>(x, y). P y) r \<Longrightarrow> r = Inr (x, y) \<Longrightarrow> P y"
  by (simp add: res_all_def)

lemma res_all_simps [simp]: "res_all P (Inr x) \<longleftrightarrow> P x" "res_all P (Inl e)"
  by (simp_all add: res_all_def)

lemma res_all_bind: "res_all Q m \<Longrightarrow> (\<And>x. Q x \<Longrightarrow> res_all P (k x)) \<Longrightarrow> res_all P (rbind m k)"
  by (cases m) auto

lemma res_all_bind_pair:
  "res_all (\<lambda>(x, y). Q y) m \<Longrightarrow> (\<And>x y. Q y \<Longrightarrow> res_all P (k x y)) \<Longrightarrow> res_all P (rbind m (\<lambda>(x, y). k x y))"
  by (cases m) auto

lemma res_all_if: "(c \<Longrightarrow> res_all P r) \<Longrightarrow> (\<not> c \<Longrightarrow> res_all P s) \<Longrightarrow> res_all P (if c then r else s)"
  by simp

lemma cassert_simps [simp]: "cassert True = Inr ()" "cassert False = Inl Assert_Failed"
  by (simp_all add: cassert_def)

lemma cassert_eq_Inr [simp]: "cassert b = Inr u \<longleftrightarrow> b"
  by (simp add: cassert_def)

lemma is_ok_simps [simp]: "is_ok (Inr x)" "\<not> is_ok (Inl e)"
  by (simp_all add: is_ok_def)

section \<open>Characters\<close>

text \<open>
  \<^verbatim>\<open>char\<close> is signed on the targets of the Makefile, so a comparison such as \<^verbatim>\<open>ch < '0'\<close> is one of
  signed values (\<open>schar\<close>), while \<^verbatim>\<open>(unsigned char) ch\<close> is \<open>uchar\<close>.
\<close>

definition uchar :: "char \<Rightarrow> int" where
  "uchar c = of_char c"

definition schar :: "char \<Rightarrow> int" where
  "schar c = (if uchar c < 128 then uchar c else uchar c - 256)"

abbreviation NUL :: char where "NUL \<equiv> CHR 0x00"
abbreviation CR :: char where "CR \<equiv> CHR 0x0D"
abbreviation LF :: char where "LF \<equiv> CHR 0x0A"
abbreviation TAB :: char where "TAB \<equiv> CHR 0x09"
abbreviation FF :: char where "FF \<equiv> CHR 0x0C"
abbreviation SP :: char where "SP \<equiv> CHR 0x20"

abbreviation CRLF :: string where "CRLF \<equiv> [CR, LF]"

lemma uchar_range [simp]: "0 \<le> uchar c" "uchar c < 256"
  by (cases c, simp add: uchar_def)+

lemma schar_range: "- 128 \<le> schar c \<and> schar c < 128"
  using uchar_range [of c] by (simp add: schar_def del: uchar_range)

lemma uchar_inject [simp]: "uchar a = uchar b \<longleftrightarrow> a = b"
  by (simp add: uchar_def)

section \<open>Byte arrays and the functions of string.h\<close>

text \<open>
  \<open>c_str buf\<close> is the C string an array holds: its bytes before the first NUL.  \<open>c_strlen\<close> faults on an
  array without a terminator, where \<^verbatim>\<open>strlen\<close> would read past the end.
\<close>

definition c_str :: "char list \<Rightarrow> string" where
  "c_str buf = takeWhile (\<lambda>c. c \<noteq> NUL) buf"

definition c_strlen :: "char list \<Rightarrow> nat res" where
  "c_strlen buf = (if NUL \<in> set buf then Inr (length (c_str buf)) else Inl Out_Of_Bounds)"

definition memcpy_at :: "char list \<Rightarrow> nat \<Rightarrow> char list \<Rightarrow> char list res" where
  "memcpy_at buf off bs =
     (if off + length bs \<le> length buf
      then Inr (take off buf @ bs @ drop (off + length bs) buf) else Inl Out_Of_Bounds)"

text \<open>
  \<^verbatim>\<open>strncpy(dst, src, n)\<close> writes exactly \<open>n\<close> bytes: the source cut at \<open>n\<close>, then NULs.  It adds no
  terminator when the source has \<open>n\<close> bytes or more.  \<^verbatim>\<open>strncat(dst, src, n)\<close> appends at most \<open>n\<close> bytes
  of the source after the destination's own string, and a terminator.
\<close>

definition strncpy :: "char list \<Rightarrow> string \<Rightarrow> nat \<Rightarrow> char list res" where
  "strncpy dst src n = memcpy_at dst 0 (take n (src @ replicate n NUL))"

definition strncat :: "char list \<Rightarrow> string \<Rightarrow> nat \<Rightarrow> char list res" where
  "strncat dst src n = rbind (c_strlen dst) (\<lambda>l. memcpy_at dst l (take n src @ [NUL]))"

definition strcat :: "char list \<Rightarrow> string \<Rightarrow> char list res" where
  "strcat dst src = rbind (c_strlen dst) (\<lambda>l. memcpy_at dst l (src @ [NUL]))"

definition to_lower :: "char \<Rightarrow> char" where
  "to_lower c = (if 65 \<le> uchar c \<and> uchar c \<le> 90 then char_of (uchar c + 32) else c)"

definition strcaseeq :: "string \<Rightarrow> string \<Rightarrow> bool" where
  "strcaseeq s t \<longleftrightarrow> map to_lower s = map to_lower t"

definition no_nul :: "string \<Rightarrow> bool" where
  "no_nul s \<longleftrightarrow> NUL \<notin> set s"

lemma c_str_append_NUL [cstr_simps]: "no_nul s \<Longrightarrow> c_str (s @ NUL # r) = s"
  unfolding c_str_def no_nul_def by (induction s) auto

lemma c_str_no_nul [simp]: "no_nul (c_str buf)"
  unfolding c_str_def no_nul_def using set_takeWhileD by fastforce

lemma c_str_idem [cstr_simps]: "no_nul s \<Longrightarrow> c_str s = s"
  unfolding c_str_def no_nul_def by (simp add: takeWhile_eq_all_conv) metis

lemma no_nul_take [simp]: "no_nul s \<Longrightarrow> no_nul (take n s)"
  unfolding no_nul_def using in_set_takeD by fastforce

lemma no_nul_drop [simp]: "no_nul s \<Longrightarrow> no_nul (drop n s)"
  unfolding no_nul_def using in_set_dropD by fastforce

lemma no_nul_append [simp]: "no_nul (s @ t) \<longleftrightarrow> no_nul s \<and> no_nul t"
  by (auto simp: no_nul_def)

lemma no_nul_Nil [simp]: "no_nul []"
  by (simp add: no_nul_def)

lemma no_nul_Cons [simp]: "no_nul (c # s) \<longleftrightarrow> c \<noteq> NUL \<and> no_nul s"
  by (auto simp: no_nul_def)

lemma take_c_str: "take (length (c_str buf)) buf = c_str buf"
  unfolding c_str_def by (rule takeWhile_eq_take [symmetric])

lemma c_str_length_le: "length (c_str buf) \<le> length buf"
  unfolding c_str_def by (rule length_takeWhile_le)

lemma c_str_length_less: "NUL \<in> set buf \<Longrightarrow> length (c_str buf) < length buf"
  unfolding c_str_def by (induction buf) auto

lemma memcpy_at_length: "memcpy_at buf off bs = Inr buf' \<Longrightarrow> length buf' = length buf"
  by (auto simp: memcpy_at_def split: if_splits)

lemma strncpy_length: "strncpy dst src n = Inr dst' \<Longrightarrow> length dst' = length dst"
  by (auto simp: strncpy_def dest: memcpy_at_length)

text \<open>A copy that fits leaves a terminated copy of the source; one that does not fit leaves a cut one.\<close>

lemma strncpy_fits:
  assumes "no_nul src" and "length src < n" and "n \<le> length dst"
  shows "\<exists>dst'. strncpy dst src n = Inr dst' \<and> c_str dst' = src \<and> NUL \<in> set dst'"
proof -
  from assms(2) obtain k where k: "n - length src = Suc k"
    by (metis Suc_diff_Suc)
  have "take n (src @ replicate n NUL) = src @ NUL # replicate k NUL"
    using assms(2) k by (simp add: take_replicate min_def) linarith
  moreover have "Suc (length src + k) \<le> length dst"
    using assms k by linarith
  ultimately show ?thesis
    using assms(1) by (auto simp: strncpy_def memcpy_at_def cstr_simps)
qed

lemma strncat_c_str:
  assumes "no_nul src" and "NUL \<in> set dst" and "length (c_str dst) + min n (length src) < length dst"
  shows "\<exists>dst'. strncat dst src n = Inr dst' \<and> c_str dst' = c_str dst @ take n src
    \<and> length dst' = length dst \<and> NUL \<in> set dst'"
proof -
  let ?l = "length (c_str dst)" and ?b = "take n src @ [NUL]"
  have fit: "?l + length ?b \<le> length dst"
    using assms(3) by simp
  have eq: "strncat dst src n = Inr (c_str dst @ take n src @ NUL # drop (?l + length ?b) dst)"
    using assms(2) fit by (simp add: strncat_def c_strlen_def memcpy_at_def take_c_str)
  have "c_str ((c_str dst @ take n src) @ NUL # drop (?l + length ?b) dst) = c_str dst @ take n src"
    by (rule c_str_append_NUL) (simp add: assms(1))
  with eq fit show ?thesis by auto
qed

lemma strcat_fits:
  assumes "no_nul src" and "NUL \<in> set dst" and "length (c_str dst) + length src < length dst"
  shows "\<exists>dst'. strcat dst src = Inr dst' \<and> c_str dst' = c_str dst @ src \<and> NUL \<in> set dst'"
proof -
  have "strcat dst src = strncat dst src (length src)" by (simp add: strcat_def strncat_def)
  with strncat_c_str [of src dst "length src"] assms show ?thesis by auto
qed

lemma strcaseeq_refl [simp]: "strcaseeq s s"
  by (simp add: strcaseeq_def)

lemma strcaseeq_sym: "strcaseeq s t = strcaseeq t s"
  by (auto simp: strcaseeq_def)

lemma strcaseeq_trans: "strcaseeq s t \<Longrightarrow> strcaseeq t u \<Longrightarrow> strcaseeq s u"
  by (simp add: strcaseeq_def)

section \<open>Number printing\<close>

text \<open>\<^verbatim>\<open>"%X"\<close> and \<^verbatim>\<open>"%d"\<close> of a non-negative \<^verbatim>\<open>int\<close>: the digits in base 16 (upper case) and base 10.\<close>

definition hex_digit :: "nat \<Rightarrow> char" where
  "hex_digit d = (if d < 10 then char_of (48 + d) else char_of (55 + d))"

fun fmt_X :: "nat \<Rightarrow> string" where
  "fmt_X n = (if n < 16 then [hex_digit n] else fmt_X (n div 16) @ [hex_digit (n mod 16)])"

fun fmt_d :: "nat \<Rightarrow> string" where
  "fmt_d n = (if n < 10 then [hex_digit n] else fmt_d (n div 10) @ [hex_digit (n mod 10)])"

declare fmt_X.simps [simp del] fmt_d.simps [simp del]

text \<open>A chunk of the chunked transfer coding.\<close>

definition chunk :: "char list \<Rightarrow> char list" where
  "chunk d = fmt_X (length d) @ CRLF @ d @ CRLF"

end
