(* ===== verification/Klist.thy ===== *)
theory Klist
  imports Prelude
begin

text \<open>
  The intrusive doubly linked lists of \<^verbatim>\<open>list.h\<close>, on an explicit heap of \<^verbatim>\<open>list_head\<close> nodes, and their
  refinement to Isabelle lists.  Every other component of the program keeps its queues in such lists;
  the theorems here are what lets the component theories hold them as plain lists of node addresses.
\<close>

section \<open>The node heap\<close>

text \<open>
  A heap maps the address of each live \<^verbatim>\<open>list_head\<close> to its two pointers.  An address outside the domain
  is null, poisoned or freed, and reading or writing through it is a fault.
\<close>

type_synonym addr = nat

record list_head =
  lh_next :: addr
  lh_prev :: addr

lemma list_head_update_all [simp]:
  "(n :: list_head)\<lparr>lh_next := a, lh_prev := b\<rparr> = \<lparr>lh_next = a, lh_prev = b\<rparr>"
  by (cases n) simp

type_synonym lheap = "addr \<rightharpoonup> list_head"

definition LIST_POISON1 :: addr where
  "LIST_POISON1 = 0x00100100"

definition LIST_POISON2 :: addr where
  "LIST_POISON2 = 0x00200200"

definition get_next :: "lheap \<Rightarrow> addr \<Rightarrow> addr res" where
  "get_next h a = (case h a of None \<Rightarrow> Inl Bad_Pointer | Some n \<Rightarrow> Inr (lh_next n))"

definition get_prev :: "lheap \<Rightarrow> addr \<Rightarrow> addr res" where
  "get_prev h a = (case h a of None \<Rightarrow> Inl Bad_Pointer | Some n \<Rightarrow> Inr (lh_prev n))"

definition set_next :: "addr \<Rightarrow> addr \<Rightarrow> lheap \<Rightarrow> lheap res" where
  "set_next a v h =
     (case h a of None \<Rightarrow> Inl Bad_Pointer | Some n \<Rightarrow> Inr (h(a \<mapsto> n\<lparr>lh_next := v\<rparr>)))"

definition set_prev :: "addr \<Rightarrow> addr \<Rightarrow> lheap \<Rightarrow> lheap res" where
  "set_prev a v h =
     (case h a of None \<Rightarrow> Inl Bad_Pointer | Some n \<Rightarrow> Inr (h(a \<mapsto> n\<lparr>lh_prev := v\<rparr>)))"

section \<open>The operations of list.h\<close>

definition INIT_LIST_HEAD :: "addr \<Rightarrow> lheap \<Rightarrow> lheap res" where
  "INIT_LIST_HEAD list h = rbind (set_next list list h) (set_prev list list)"

definition raw_list_add :: "addr \<Rightarrow> addr \<Rightarrow> addr \<Rightarrow> lheap \<Rightarrow> lheap res" where
  "raw_list_add new_node prev nxt h =
     rbind (set_prev nxt new_node h) (\<lambda>h.
     rbind (set_next new_node nxt h) (\<lambda>h.
     rbind (set_prev new_node prev h) (\<lambda>h.
     set_next prev new_node h)))"

definition list_add :: "addr \<Rightarrow> addr \<Rightarrow> lheap \<Rightarrow> lheap res" where
  "list_add new_node head h =
     rbind (get_next h head) (\<lambda>nxt. raw_list_add new_node head nxt h)"

definition list_add_tail :: "addr \<Rightarrow> addr \<Rightarrow> lheap \<Rightarrow> lheap res" where
  "list_add_tail new_node head h =
     rbind (get_prev h head) (\<lambda>prev. raw_list_add new_node prev head h)"

definition raw_list_del :: "addr \<Rightarrow> addr \<Rightarrow> lheap \<Rightarrow> lheap res" where
  "raw_list_del prev nxt h =
     rbind (set_prev nxt prev h) (\<lambda>h. set_next prev nxt h)"

definition list_del :: "addr \<Rightarrow> lheap \<Rightarrow> lheap res" where
  "list_del entry h =
     rbind (get_prev h entry) (\<lambda>prev.
     rbind (get_next h entry) (\<lambda>nxt.
     rbind (raw_list_del prev nxt h) (\<lambda>h.
     rbind (set_next entry LIST_POISON1 h) (\<lambda>h.
     set_prev entry LIST_POISON2 h))))"

definition list_replace :: "addr \<Rightarrow> addr \<Rightarrow> lheap \<Rightarrow> lheap res" where
  "list_replace old new_node h =
     rbind (get_next h old) (\<lambda>n.
     rbind (set_next new_node n h) (\<lambda>h.
     rbind (get_next h new_node) (\<lambda>n.
     rbind (set_prev n new_node h) (\<lambda>h.
     rbind (get_prev h old) (\<lambda>p.
     rbind (set_prev new_node p h) (\<lambda>h.
     rbind (get_prev h new_node) (\<lambda>p.
     set_next p new_node h)))))))"

definition list_replace_init :: "addr \<Rightarrow> addr \<Rightarrow> lheap \<Rightarrow> lheap res" where
  "list_replace_init old new_node h =
     rbind (list_replace old new_node h) (INIT_LIST_HEAD old)"

definition list_del_init :: "addr \<Rightarrow> lheap \<Rightarrow> lheap res" where
  "list_del_init entry h =
     rbind (get_prev h entry) (\<lambda>prev.
     rbind (get_next h entry) (\<lambda>nxt.
     rbind (raw_list_del prev nxt h) (INIT_LIST_HEAD entry)))"

definition list_move :: "addr \<Rightarrow> addr \<Rightarrow> lheap \<Rightarrow> lheap res" where
  "list_move list head h =
     rbind (get_prev h list) (\<lambda>prev.
     rbind (get_next h list) (\<lambda>nxt.
     rbind (raw_list_del prev nxt h) (list_add list head)))"

definition list_move_tail :: "addr \<Rightarrow> addr \<Rightarrow> lheap \<Rightarrow> lheap res" where
  "list_move_tail list head h =
     rbind (get_prev h list) (\<lambda>prev.
     rbind (get_next h list) (\<lambda>nxt.
     rbind (raw_list_del prev nxt h) (list_add_tail list head)))"

definition list_is_last :: "addr \<Rightarrow> addr \<Rightarrow> lheap \<Rightarrow> bool res" where
  "list_is_last list head h = rbind (get_next h list) (\<lambda>n. Inr (n = head))"

definition list_empty :: "addr \<Rightarrow> lheap \<Rightarrow> bool res" where
  "list_empty head h = rbind (get_next h head) (\<lambda>n. Inr (n = head))"

definition list_empty_careful :: "addr \<Rightarrow> lheap \<Rightarrow> bool res" where
  "list_empty_careful head h =
     rbind (get_next h head) (\<lambda>n.
     rbind (get_prev h head) (\<lambda>p. Inr (n = head \<and> n = p)))"

definition raw_list_splice :: "addr \<Rightarrow> addr \<Rightarrow> lheap \<Rightarrow> lheap res" where
  "raw_list_splice list head h =
     rbind (get_next h list) (\<lambda>first.
     rbind (get_prev h list) (\<lambda>last.
     rbind (get_next h head) (\<lambda>at.
     rbind (set_prev first head h) (\<lambda>h.
     rbind (set_next head first h) (\<lambda>h.
     rbind (set_next last at h) (\<lambda>h.
     set_prev at last h))))))"

definition list_splice :: "addr \<Rightarrow> addr \<Rightarrow> lheap \<Rightarrow> lheap res" where
  "list_splice list head h =
     rbind (list_empty list h) (\<lambda>e. if \<not> e then raw_list_splice list head h else Inr h)"

definition list_splice_init :: "addr \<Rightarrow> addr \<Rightarrow> lheap \<Rightarrow> lheap res" where
  "list_splice_init list head h =
     rbind (list_empty list h) (\<lambda>e.
     if \<not> e then rbind (raw_list_splice list head h) (INIT_LIST_HEAD list) else Inr h)"

text \<open>
  The iteration macros.  \<open>list_for_each_from\<close> is the loop of \<^verbatim>\<open>list_for_each\<close> (and of
  \<^verbatim>\<open>list_for_each_entry\<close>, which only converts each node to its container) from a cursor: it collects
  the nodes visited.  The loop follows pointers, so it may run forever on a corrupted ring; fuel bounds
  it, and running out is \<open>None\<close>.  \<open>list_for_each_safe_from\<close> is \<^verbatim>\<open>list_for_each_entry_safe\<close> with the
  loop body as a parameter: it reads the successor of \<open>pos\<close> before the body runs, and again from \<open>n\<close>
  after it.
\<close>

fun list_for_each_from :: "nat \<Rightarrow> lheap \<Rightarrow> addr \<Rightarrow> addr \<Rightarrow> addr list res option" where
  "list_for_each_from 0 h head pos = None"
| "list_for_each_from (Suc fuel) h head pos =
     (if pos = head then Some (Inr [])
      else case get_next h pos of
        Inl e \<Rightarrow> Some (Inl e)
      | Inr n \<Rightarrow> map_option (\<lambda>r. rbind r (\<lambda>xs. Inr (pos # xs))) (list_for_each_from fuel h head n))"

definition list_for_each :: "nat \<Rightarrow> lheap \<Rightarrow> addr \<Rightarrow> addr list res option" where
  "list_for_each fuel h head =
     (case get_next h head of Inl e \<Rightarrow> Some (Inl e) | Inr n \<Rightarrow> list_for_each_from fuel h head n)"

fun list_for_each_safe_from ::
    "nat \<Rightarrow> (addr \<Rightarrow> lheap \<times> 's \<Rightarrow> (lheap \<times> 's) res) \<Rightarrow> addr \<Rightarrow> addr \<Rightarrow> addr
      \<Rightarrow> lheap \<times> 's \<Rightarrow> (lheap \<times> 's) res option" where
  "list_for_each_safe_from 0 body head pos n st = None"
| "list_for_each_safe_from (Suc fuel) body head pos n st =
     (if pos = head then Some (Inr st)
      else case body pos st of
        Inl e \<Rightarrow> Some (Inl e)
      | Inr st' \<Rightarrow> (case get_next (fst st') n of
          Inl e \<Rightarrow> Some (Inl e)
        | Inr n' \<Rightarrow> list_for_each_safe_from fuel body head n n' st'))"

definition list_for_each_safe ::
    "nat \<Rightarrow> (addr \<Rightarrow> lheap \<times> 's \<Rightarrow> (lheap \<times> 's) res) \<Rightarrow> addr
      \<Rightarrow> lheap \<times> 's \<Rightarrow> (lheap \<times> 's) res option" where
  "list_for_each_safe fuel body head st =
     (case get_next (fst st) head of
        Inl e \<Rightarrow> Some (Inl e)
      | Inr pos \<Rightarrow> (case get_next (fst st) pos of
          Inl e \<Rightarrow> Some (Inl e)
        | Inr n \<Rightarrow> list_for_each_safe_from fuel body head pos n st))"

text \<open>\<^verbatim>\<open>list_clear\<close>: every node is unlinked and freed; a freed node leaves the heap.\<close>

definition list_clear_body :: "addr \<Rightarrow> lheap \<times> unit \<Rightarrow> (lheap \<times> unit) res" where
  "list_clear_body pos st =
     rbind (list_del pos (fst st)) (\<lambda>h. Inr (h(pos := None), ()))"

definition list_clear :: "nat \<Rightarrow> addr \<Rightarrow> lheap \<Rightarrow> lheap res option" where
  "list_clear fuel head h =
     map_option (\<lambda>r. rbind r (\<lambda>st. Inr (fst st))) (list_for_each_safe fuel list_clear_body head (h, ()))"

section \<open>Rings and the lists they hold\<close>

text \<open>
  \<open>seg h x xs y\<close>: following \<^verbatim>\<open>next\<close> from \<open>x\<close> visits exactly \<open>xs\<close> and then \<open>y\<close>, and every \<^verbatim>\<open>prev\<close>
  points back.  A list head with its elements is a ring: a segment from the head to itself.
\<close>

fun seg :: "lheap \<Rightarrow> addr \<Rightarrow> addr list \<Rightarrow> addr \<Rightarrow> bool" where
  "seg h x [] y \<longleftrightarrow> get_next h x = Inr y \<and> get_prev h y = Inr x"
| "seg h x (z # zs) y \<longleftrightarrow> get_next h x = Inr z \<and> get_prev h z = Inr x \<and> seg h z zs y"

definition ring :: "lheap \<Rightarrow> addr \<Rightarrow> addr list \<Rightarrow> bool" where
  "ring h head xs \<longleftrightarrow> distinct (head # xs) \<and> seg h head xs head"

subsection \<open>Reading after writing\<close>

definition upd_next :: "addr \<Rightarrow> addr \<Rightarrow> lheap \<Rightarrow> lheap" where
  "upd_next a v h = (case h a of None \<Rightarrow> h | Some n \<Rightarrow> h(a \<mapsto> n\<lparr>lh_next := v\<rparr>))"

definition upd_prev :: "addr \<Rightarrow> addr \<Rightarrow> lheap \<Rightarrow> lheap" where
  "upd_prev a v h = (case h a of None \<Rightarrow> h | Some n \<Rightarrow> h(a \<mapsto> n\<lparr>lh_prev := v\<rparr>))"

named_theorems heap_simps \<open>reads after writes on the node heap\<close>

lemma set_next_upd [heap_simps]: "a \<in> dom h \<Longrightarrow> set_next a v h = Inr (upd_next a v h)"
  by (auto simp: set_next_def upd_next_def)

lemma set_prev_upd [heap_simps]: "a \<in> dom h \<Longrightarrow> set_prev a v h = Inr (upd_prev a v h)"
  by (auto simp: set_prev_def upd_prev_def)

lemma dom_upd [simp]: "dom (upd_next a v h) = dom h" "dom (upd_prev a v h) = dom h"
  by (auto simp: upd_next_def upd_prev_def split: option.splits)

lemma get_next_upd [heap_simps]:
  "a \<in> dom h \<Longrightarrow> get_next (upd_next a v h) b = (if b = a then Inr v else get_next h b)"
  "get_next (upd_prev a v h) b = get_next h b"
  by (auto simp: get_next_def upd_next_def upd_prev_def split: option.splits)

lemma get_prev_upd [heap_simps]:
  "a \<in> dom h \<Longrightarrow> get_prev (upd_prev a v h) b = (if b = a then Inr v else get_prev h b)"
  "get_prev (upd_next a v h) b = get_prev h b"
  by (auto simp: get_prev_def upd_next_def upd_prev_def split: option.splits)

lemma get_dom: "get_next h a = Inr v \<Longrightarrow> a \<in> dom h" "get_prev h a = Inr v \<Longrightarrow> a \<in> dom h"
  by (auto simp: get_next_def get_prev_def split: option.splits)

lemma raw_list_add_ok:
  "{n, p, x} \<subseteq> dom h \<Longrightarrow> raw_list_add n p x h =
     Inr (upd_next p n (upd_prev n p (upd_next n x (upd_prev x n h))))"
  by (simp add: raw_list_add_def heap_simps)

lemma raw_list_del_ok:
  "{p, n} \<subseteq> dom h \<Longrightarrow> raw_list_del p n h = Inr (upd_next p n (upd_prev n p h))"
  by (simp add: raw_list_del_def heap_simps)

lemma INIT_LIST_HEAD_ok: "a \<in> dom h \<Longrightarrow> INIT_LIST_HEAD a h = Inr (upd_prev a a (upd_next a a h))"
  by (simp add: INIT_LIST_HEAD_def heap_simps)

subsection \<open>Segments\<close>

lemma seg_append: "seg h x (xs @ z # ys) y \<longleftrightarrow> seg h x xs z \<and> seg h z ys y"
  by (induction xs arbitrary: x) auto

lemma seg_snoc: "seg h x (xs @ [z]) y \<longleftrightarrow> seg h x xs z \<and> get_next h z = Inr y \<and> get_prev h y = Inr z"
  by (simp add: seg_append)

lemma seg_dom: "seg h x xs y \<Longrightarrow> insert x (insert y (set xs)) \<subseteq> dom h"
  by (induction xs arbitrary: x) (auto dest: get_dom)

text \<open>A segment reads \<^verbatim>\<open>next\<close> of everything but its end and \<^verbatim>\<open>prev\<close> of everything but its start.\<close>

lemma seg_frame:
  assumes "\<And>a. a \<in> set (x # xs) \<Longrightarrow> get_next h' a = get_next h a"
    and "\<And>a. a \<in> set (y # xs) \<Longrightarrow> get_prev h' a = get_prev h a"
  shows "seg h' x xs y = seg h x xs y"
  using assms
proof (induction xs arbitrary: x)
  case Nil
  then show ?case by simp
next
  case (Cons z zs)
  have "seg h' z zs y = seg h z zs y"
    by (rule Cons.IH) (use Cons.prems in auto)
  with Cons.prems show ?case by simp
qed

text \<open>Redirecting the end of a segment to another node.\<close>

lemma seg_retarget:
  assumes "seg h x xs y"
    and "\<And>a. a \<in> set (x # xs) \<Longrightarrow> a \<noteq> last (x # xs) \<Longrightarrow> get_next h' a = get_next h a"
    and "\<And>a. a \<in> set xs \<Longrightarrow> get_prev h' a = get_prev h a"
    and "get_next h' (last (x # xs)) = Inr n" and "get_prev h' n = Inr (last (x # xs))"
    and "distinct (x # xs)"
  shows "seg h' x xs n"
  using assms
proof (induction xs arbitrary: x)
  case Nil
  then show ?case by simp
next
  case (Cons z zs)
  have "seg h' z zs n"
    by (rule Cons.IH) (use Cons.prems in auto)
  moreover have "get_next h' x = get_next h x"
    using Cons.prems(2) [of x] Cons.prems(6) last_in_set [of "z # zs"] by auto
  ultimately show ?case using Cons.prems by simp
qed

lemma seg_last_prev: "seg h x xs y \<Longrightarrow> get_prev h y = Inr (last (x # xs))"
  by (induction xs arbitrary: x) auto

lemma seg_last_next: "seg h x xs y \<Longrightarrow> get_next h (last (x # xs)) = Inr y"
  by (induction xs arbitrary: x) auto

lemma ring_dom: "ring h head xs \<Longrightarrow> insert head (set xs) \<subseteq> dom h"
  unfolding ring_def by (blast dest: seg_dom)

text \<open>A ring depends only on the pointers of its own nodes.\<close>

lemma ring_frame:
  assumes "\<And>a. a \<in> insert head (set xs) \<Longrightarrow> h' a = h a"
  shows "ring h' head xs = ring h head xs"
proof -
  have "seg h' head xs head = seg h head xs head"
    by (rule seg_frame) (use assms in \<open>auto simp: get_next_def get_prev_def\<close>)
  then show ?thesis by (simp add: ring_def)
qed

text \<open>The list a ring holds is determined by the heap.\<close>

lemma seg_unique: "seg h x xs y \<Longrightarrow> seg h x ys y \<Longrightarrow> y \<notin> set xs \<Longrightarrow> y \<notin> set ys \<Longrightarrow> xs = ys"
proof (induction xs arbitrary: x ys)
  case Nil
  then show ?case by (cases ys) auto
next
  case (Cons z zs)
  then show ?case by (cases ys) auto
qed

lemma ring_unique: "ring h head xs \<Longrightarrow> ring h head ys \<Longrightarrow> xs = ys"
  by (auto simp: ring_def intro: seg_unique)

section \<open>The operations refine list operations\<close>

lemma INIT_LIST_HEAD_ring:
  "a \<in> dom h \<Longrightarrow> \<exists>h'. INIT_LIST_HEAD a h = Inr h' \<and> ring h' a [] \<and> dom h' = dom h
     \<and> (\<forall>b. b \<noteq> a \<longrightarrow> h' b = h b)"
  by (auto simp: INIT_LIST_HEAD_def set_next_def set_prev_def ring_def get_next_def get_prev_def)

lemma ring_insert_after:
  assumes r: "ring h head (xs @ ys)" and n: "n \<in> dom h" "n \<notin> set (head # xs @ ys)"
  defines "p \<equiv> last (head # xs)" and "x \<equiv> hd (ys @ [head])"
  shows "\<exists>h'. raw_list_add n p x h = Inr h' \<and> ring h' head (xs @ n # ys) \<and> dom h' = dom h
     \<and> (\<forall>b. b \<notin> {n, p, x} \<longrightarrow> h' b = h b)"
proof -
  define g where "g = upd_next p n (upd_prev n p (upd_next n x (upd_prev x n h)))"
  have pin: "p \<in> set (head # xs)" unfolding p_def by (rule last_in_set) simp
  have xin: "x \<in> set (head # ys)" unfolding x_def by (cases ys) auto
  have np: "n \<noteq> p" "n \<noteq> x" using pin xin n(2) by auto
  from r have d: "distinct (head # xs @ ys)" and s: "seg h head (xs @ ys) head"
    by (auto simp: ring_def)
  have dm: "{n, p, x} \<subseteq> dom h" using pin xin n(1) seg_dom [OF s] by auto
  have gn: "get_next g b = (if b = p then Inr n else if b = n then Inr x else get_next h b)" for b
    using dm np by (simp add: g_def heap_simps)
  have gp: "get_prev g b = (if b = n then Inr p else if b = x then Inr n else get_prev h b)" for b
    using dm np by (simp add: g_def heap_simps)
  have s1: "seg g head xs n"
  proof (rule seg_retarget [where h = h and y = x])
    show "seg h head xs x"
      using s by (cases ys) (simp_all add: x_def seg_append)
    show "get_prev g a = get_prev h a" if "a \<in> set xs" for a
      using that d n(2) xin by (auto simp: gp)
    show "get_next g a = get_next h a" if "a \<in> set (head # xs)" "a \<noteq> last (head # xs)" for a
      using that n(2) unfolding p_def [symmetric] by (auto simp: gn)
    show "get_next g (last (head # xs)) = Inr n" "get_prev g n = Inr (last (head # xs))"
      unfolding p_def [symmetric] by (simp_all add: gn gp)
    show "distinct (head # xs)" using d by simp
  qed
  have s2: "seg g n ys head"
  proof (cases ys)
    case Nil
    then have "x = head" by (simp add: x_def)
    with Nil np show ?thesis by (simp add: gn gp)
  next
    case (Cons z zs)
    then have x: "x = z" by (simp add: x_def)
    from s Cons have "seg h z zs head" by (simp add: seg_append)
    moreover have "seg g z zs head = seg h z zs head"
    proof (rule seg_frame)
      show "get_next g a = get_next h a" if "a \<in> set (z # zs)" for a
        using that d n(2) pin Cons by (auto simp: gn)
      show "get_prev g a = get_prev h a" if "a \<in> set (head # zs)" for a
        using that d n(2) Cons x by (auto simp: gp)
    qed
    ultimately show ?thesis using Cons x np by (simp add: gn gp)
  qed
  have "ring g head (xs @ n # ys)"
    using s1 s2 d n(2) by (auto simp: ring_def seg_append)
  moreover have "g b = h b" if "b \<notin> {n, p, x}" for b
    using that by (auto simp: g_def upd_next_def upd_prev_def split: option.splits)
  ultimately show ?thesis
    using raw_list_add_ok [OF dm] dom_upd by (auto simp: g_def)
qed

lemma list_add_ring:
  assumes r: "ring h head xs" and n: "n \<in> dom h" "n \<notin> set (head # xs)"
  shows "\<exists>h'. list_add n head h = Inr h' \<and> ring h' head (n # xs) \<and> dom h' = dom h
     \<and> (\<forall>b. b \<notin> insert n (insert head (set xs)) \<longrightarrow> h' b = h b)"
proof -
  have "get_next h head = Inr (hd (xs @ [head]))"
    using r by (cases xs) (auto simp: ring_def)
  moreover have "hd (xs @ [head]) \<in> set (head # xs)" by (cases xs) auto
  ultimately show ?thesis
    using ring_insert_after [where xs = "[]" and ys = xs, OF _ n(1)] r n(2)
    by (fastforce simp: list_add_def)
qed

lemma list_add_tail_ring:
  assumes r: "ring h head xs" and n: "n \<in> dom h" "n \<notin> set (head # xs)"
  shows "\<exists>h'. list_add_tail n head h = Inr h' \<and> ring h' head (xs @ [n]) \<and> dom h' = dom h
     \<and> (\<forall>b. b \<notin> insert n (insert head (set xs)) \<longrightarrow> h' b = h b)"
proof -
  have "get_prev h head = Inr (last (head # xs))"
    using r by (auto simp: ring_def dest: seg_last_prev)
  moreover have "last (head # xs) \<in> set (head # xs)" by (rule last_in_set) simp
  ultimately show ?thesis
    using ring_insert_after [where xs = xs and ys = "[]", OF _ n(1)] r n(2)
    by (fastforce simp: list_add_tail_def simp del: last.simps)
qed

text \<open>Unlinking a node joins its neighbours.\<close>

lemma ring_unlink:
  assumes r: "ring h head (xs @ e # ys)"
  defines "p \<equiv> last (head # xs)" and "x \<equiv> hd (ys @ [head])"
  shows "get_prev h e = Inr p \<and> get_next h e = Inr x
     \<and> (\<exists>h'. raw_list_del p x h = Inr h' \<and> ring h' head (xs @ ys) \<and> dom h' = dom h
          \<and> h' e = h e \<and> (\<forall>b. b \<notin> {p, x} \<longrightarrow> h' b = h b))"
proof -
  define g where "g = upd_next p x (upd_prev x p h)"
  from r have d: "distinct (head # xs @ e # ys)" and s: "seg h head (xs @ e # ys) head"
    by (auto simp: ring_def)
  then have sx: "seg h head xs e" and sy: "seg h e ys head" by (auto simp: seg_append)
  have pin: "p \<in> set (head # xs)" unfolding p_def by (rule last_in_set) simp
  have xin: "x \<in> set (head # ys)" unfolding x_def by (cases ys) auto
  have gpe: "get_prev h e = Inr p" using seg_last_prev [OF sx] by (simp add: p_def)
  have gne: "get_next h e = Inr x" using sy by (cases ys) (auto simp: x_def)
  have dm: "{p, x} \<subseteq> dom h" using pin xin seg_dom [OF s] by auto
  have gn: "get_next g b = (if b = p then Inr x else get_next h b)" for b
    using dm by (simp add: g_def heap_simps)
  have gp: "get_prev g b = (if b = x then Inr p else get_prev h b)" for b
    using dm by (simp add: g_def heap_simps)
  have s1: "seg g head xs x"
  proof (rule seg_retarget [OF sx])
    show "get_next g a = get_next h a" if "a \<in> set (head # xs)" "a \<noteq> last (head # xs)" for a
      using that unfolding p_def [symmetric] by (auto simp: gn)
    show "get_prev g a = get_prev h a" if "a \<in> set xs" for a
      using that d xin by (auto simp: gp)
    show "get_next g (last (head # xs)) = Inr x" "get_prev g x = Inr (last (head # xs))"
      unfolding p_def [symmetric] by (simp_all add: gn gp)
    show "distinct (head # xs)" using d by simp
  qed
  have "seg g head (xs @ ys) head"
  proof (cases ys)
    case Nil
    with s1 show ?thesis by (simp add: x_def)
  next
    case (Cons z zs)
    have "seg g z zs head = seg h z zs head"
    proof (rule seg_frame)
      show "get_next g a = get_next h a" if "a \<in> set (z # zs)" for a
        using that d pin Cons by (auto simp: gn)
      show "get_prev g a = get_prev h a" if "a \<in> set (head # zs)" for a
        using that d Cons by (auto simp: gp x_def)
    qed
    with s1 sy Cons show ?thesis by (simp add: x_def seg_append)
  qed
  with d have "ring g head (xs @ ys)" by (auto simp: ring_def)
  moreover have "g b = h b" if "b \<notin> {p, x}" for b
    using that by (auto simp: g_def upd_next_def upd_prev_def split: option.splits)
  moreover have "e \<notin> {p, x}" using d pin xin by auto
  ultimately show ?thesis
    using gpe gne raw_list_del_ok [OF dm] by (auto simp: g_def)
qed

lemma list_del_ring:
  assumes r: "ring h head (xs @ e # ys)"
  shows "\<exists>h'. list_del e h = Inr h' \<and> ring h' head (xs @ ys) \<and> dom h' = dom h
     \<and> h' e = Some \<lparr>lh_next = LIST_POISON1, lh_prev = LIST_POISON2\<rparr>
     \<and> (\<forall>b. b \<notin> insert e (insert head (set xs \<union> set ys)) \<longrightarrow> h' b = h b)"
proof -
  let ?p = "last (head # xs)" and ?x = "hd (ys @ [head])"
  obtain h1 where u: "get_prev h e = Inr ?p" "get_next h e = Inr ?x"
    and h1: "raw_list_del ?p ?x h = Inr h1" "ring h1 head (xs @ ys)" "dom h1 = dom h"
      "\<forall>b. b \<notin> {?p, ?x} \<longrightarrow> h1 b = h b"
    using ring_unlink [OF r] by blast
  have e: "e \<in> dom h1" using ring_dom [OF r] h1(3) by auto
  let ?h = "h1(e \<mapsto> \<lparr>lh_next = LIST_POISON1, lh_prev = LIST_POISON2\<rparr>)"
  have "list_del e h = Inr ?h"
    using u h1(1) e by (auto simp: list_del_def set_next_def set_prev_def simp del: last.simps)
  moreover have "ring ?h head (xs @ ys)"
    using r h1(2) by (subst ring_frame [where h = h1]) (auto simp: ring_def)
  moreover have "?h b = h b" if "b \<notin> insert e (insert head (set xs \<union> set ys))" for b
  proof -
    have "?p \<in> set (head # xs)" "?x \<in> set (head # ys)"
      by (rule last_in_set, simp) (cases ys, auto)
    with that have "b \<notin> {?p, ?x}" "b \<noteq> e" by (auto simp del: last.simps)
    with h1(4) show ?thesis by (simp del: last.simps)
  qed
  moreover have "dom ?h = dom h" using h1(3) e by auto
  ultimately show ?thesis by (intro exI [of _ ?h]) auto
qed

lemma list_empty_ring: "ring h head xs \<Longrightarrow> list_empty head h = Inr (xs = [])"
  by (cases xs) (auto simp: ring_def list_empty_def)

lemma list_is_last_ring:
  "ring h head (xs @ [e] @ ys) \<Longrightarrow> list_is_last e head h = Inr (ys = [])"
  by (cases ys) (auto simp: ring_def list_is_last_def seg_append)

subsection \<open>Iteration visits the list, in order, and stops\<close>

lemma list_for_each_from_seg:
  "seg h x xs head \<Longrightarrow> head \<notin> set (x # xs) \<Longrightarrow> length xs + 1 < fuel \<Longrightarrow>
     list_for_each_from fuel h head x = Some (Inr (x # xs))"
proof (induction xs arbitrary: x fuel)
  case Nil
  then obtain k where "fuel = Suc (Suc k)" by (metis Suc_less_eq2 add.commute add_0 less_imp_Suc_add list.size(3) plus_1_eq_Suc)
  with Nil show ?case by auto
next
  case (Cons z zs)
  then obtain k where f: "fuel = Suc k" by (cases fuel) auto
  have "list_for_each_from k h head z = Some (Inr (z # zs))"
    by (rule Cons.IH) (use Cons.prems f in auto)
  with Cons.prems f show ?case by auto
qed

lemma list_for_each_ring:
  assumes "ring h head xs" and "length xs < fuel"
  shows "list_for_each fuel h head = Some (Inr xs)"
proof (cases xs)
  case Nil
  with assms show ?thesis
    by (cases fuel) (auto simp: ring_def list_for_each_def)
next
  case (Cons z zs)
  from assms(1) have "seg h z zs head" "head \<notin> set (z # zs)"
    by (auto simp: ring_def Cons)
  then have "list_for_each_from fuel h head z = Some (Inr (z # zs))"
    using assms(2) Cons by (intro list_for_each_from_seg) auto
  with assms(1) Cons show ?thesis by (auto simp: ring_def list_for_each_def)
qed

lemma list_del_init_ring:
  assumes r: "ring h head (xs @ e # ys)"
  shows "\<exists>h'. list_del_init e h = Inr h' \<and> ring h' head (xs @ ys) \<and> ring h' e []"
proof -
  obtain h1 where u: "get_prev h e = Inr (last (head # xs))" "get_next h e = Inr (hd (ys @ [head]))"
    and h1: "raw_list_del (last (head # xs)) (hd (ys @ [head])) h = Inr h1" "ring h1 head (xs @ ys)"
      "dom h1 = dom h"
    using ring_unlink [OF r] by blast
  have "e \<in> dom h1" using ring_dom [OF r] h1(3) by auto
  then obtain h2 where h2: "INIT_LIST_HEAD e h1 = Inr h2" "ring h2 e []" "\<forall>b. b \<noteq> e \<longrightarrow> h2 b = h1 b"
    using INIT_LIST_HEAD_ring by blast
  have "ring h2 head (xs @ ys)"
    using r h1(2) h2(3) by (subst ring_frame [where h = h1]) (auto simp: ring_def)
  with u h1(1) h2 show ?thesis by (auto simp: list_del_init_def simp del: last.simps)
qed

lemma list_splice_ring:
  assumes l: "ring h l xs" and r: "ring h head ys" and disj: "set (l # xs) \<inter> set (head # ys) = {}"
  shows "\<exists>h'. list_splice l head h = Inr h' \<and> ring h' head (xs @ ys)"
proof (cases xs)
  case Nil
  then show ?thesis using l r by (auto simp: list_splice_def list_empty_ring)
next
  case (Cons z zs)
  define e where "e = last (z # zs)"
  define x where "x = hd (ys @ [head])"
  define g where "g = upd_prev x e (upd_next e x (upd_next head z (upd_prev z head h)))"
  from l Cons have d1: "distinct (l # z # zs)" and s1: "seg h z zs l" by (auto simp: ring_def)
  from r have d2: "distinct (head # ys)" and s2: "seg h head ys head" by (auto simp: ring_def)
  have ein: "e \<in> set (z # zs)" unfolding e_def by (rule last_in_set) simp
  have xin: "x \<in> set (head # ys)" unfolding x_def by (cases ys) auto
  have dm: "{e, x, z, head} \<subseteq> dom h"
    using ein xin ring_dom [OF l] ring_dom [OF r] Cons by auto
  have gn: "get_next g b = (if b = e then Inr x else if b = head then Inr z else get_next h b)" for b
    using dm by (simp add: g_def heap_simps)
  have gp: "get_prev g b = (if b = x then Inr e else if b = z then Inr head else get_prev h b)" for b
    using dm by (simp add: g_def heap_simps)
  have nx: "get_next h l = Inr z" "get_prev h l = Inr e" "get_next h head = Inr x"
    using l r Cons seg_last_prev [OF s1] by (cases ys; auto simp: ring_def x_def e_def)+
  have "list_splice l head h = Inr g"
    using nx dm l Cons by (simp add: list_splice_def list_empty_ring raw_list_splice_def heap_simps g_def)
  moreover have "seg g z zs x"
  proof (rule seg_retarget [OF s1])
    show "get_next g a = get_next h a" if "a \<in> set (z # zs)" "a \<noteq> last (z # zs)" for a
      using that disj Cons unfolding e_def [symmetric] by (auto simp: gn)
    show "get_prev g a = get_prev h a" if "a \<in> set zs" for a
      using that disj Cons xin d1 by (auto simp: gp)
    show "get_next g (last (z # zs)) = Inr x" "get_prev g x = Inr (last (z # zs))"
      unfolding e_def [symmetric] by (simp_all add: gn gp)
    show "distinct (z # zs)" using d1 by simp
  qed
  moreover have "get_next g head = Inr z" "get_prev g z = Inr head"
    using disj Cons ein xin by (auto simp: gn gp)
  moreover have "seg g y ws head" if "ys = y # ws" for y ws
  proof -
    have "seg g y ws head = seg h y ws head"
      by (rule seg_frame) (use that disj d2 ein Cons in \<open>auto simp: gn gp x_def\<close>)
    with s2 that show ?thesis by simp
  qed
  ultimately show ?thesis
    using d1 d2 disj Cons
    by (cases ys) (auto simp: ring_def seg_append x_def)
qed

text \<open>
  \<^verbatim>\<open>list_for_each_entry_safe\<close> with a body that unlinks the node it is given: the saved successor stays
  valid, every node is visited once and in order, the loop ends, and the ring is empty.  This is how
  every queue of the program is drained.
\<close>

lemma list_clear_from_ring:
  "ring h head (pos # rest) \<Longrightarrow> Suc (length rest) < fuel \<Longrightarrow>
     \<exists>h'. list_for_each_safe_from fuel list_clear_body head pos (hd (rest @ [head])) (h, ()) = Some (Inr (h', ()))
       \<and> ring h' head [] \<and> dom h' = dom h - set (pos # rest)"
proof (induction rest arbitrary: h pos fuel)
  case Nil
  obtain h1 where d: "list_del pos h = Inr h1" "ring h1 head []" "dom h1 = dom h"
    using list_del_ring [of h head "[]" pos "[]"] Nil.prems(1) by auto
  let ?h = "h1(pos := None)"
  have ne: "pos \<noteq> head" using Nil.prems(1) by (auto simp: ring_def)
  have r: "ring ?h head []"
    using d(2) ne by (subst ring_frame [where h = h1]) auto
  then have "get_next ?h head = Inr head" by (simp add: ring_def)
  moreover obtain k where "fuel = Suc (Suc k)"
    using Nil.prems(2) by (metis Suc_lessE less_imp_Suc_add list.size(3))
  ultimately show ?case
    using d r ne by (auto simp: list_clear_body_def)
next
  case (Cons z zs)
  obtain h1 where d: "list_del pos h = Inr h1" "ring h1 head (z # zs)" "dom h1 = dom h"
    using list_del_ring [of h head "[]" pos "z # zs"] Cons.prems(1) by auto
  define g where "g = h1(pos := None)"
  have ne: "pos \<noteq> head" "pos \<notin> set (z # zs)" using Cons.prems(1) by (auto simp: ring_def)
  have r: "ring g head (z # zs)"
    using d(2) ne unfolding g_def by (subst ring_frame [where h = h1]) auto
  have nx: "get_next g z = Inr (hd (zs @ [head]))"
    using r by (cases zs) (auto simp: ring_def)
  have dg: "dom g = dom h - {pos}" using d(3) by (auto simp: g_def)
  obtain k where f: "fuel = Suc k" using Cons.prems(2) by (cases fuel) auto
  have "Suc (length zs) < k" using Cons.prems(2) f by simp
  from Cons.IH [OF r this] obtain h2 where
    "list_for_each_safe_from k list_clear_body head z (hd (zs @ [head])) (g, ()) = Some (Inr (h2, ()))"
    "ring h2 head []" "dom h2 = dom g - set (z # zs)" by blast
  moreover have "list_clear_body pos (h, ()) = Inr (g, ())"
    using d(1) by (simp add: list_clear_body_def g_def)
  ultimately show ?case using f ne nx dg by auto
qed

lemma list_clear_ring:
  assumes r: "ring h head xs" and f: "length xs < fuel"
  shows "\<exists>h'. list_clear fuel head h = Some (Inr h') \<and> ring h' head [] \<and> dom h' = dom h - set xs"
proof (cases xs)
  case Nil
  with assms show ?thesis
    by (cases fuel) (auto simp: list_clear_def list_for_each_safe_def ring_def)
next
  case (Cons z zs)
  have nx: "get_next h head = Inr z" "get_next h z = Inr (hd (zs @ [head]))"
    using r Cons by (cases zs; auto simp: ring_def)+
  show ?thesis
    using list_clear_from_ring [of h head z zs fuel] r f Cons nx
    by (auto simp: list_clear_def list_for_each_safe_def)
qed

section \<open>The interface the components rely on\<close>

text \<open>
  What a component needs from its list implementation: a relation between a heap, a list head and the
  sequence it holds; operations that refine the list operations on that sequence and leave every other
  list alone.
\<close>

locale linked_list =
  fixes holds :: "'h \<Rightarrow> 'p \<Rightarrow> 'p list \<Rightarrow> bool"
    and live :: "'h \<Rightarrow> 'p set"
    and init :: "'p \<Rightarrow> 'h \<Rightarrow> 'h res"
    and push_back :: "'p \<Rightarrow> 'p \<Rightarrow> 'h \<Rightarrow> 'h res"
    and unlink :: "'p \<Rightarrow> 'h \<Rightarrow> 'h res"
    and is_empty :: "'p \<Rightarrow> 'h \<Rightarrow> bool res"
  assumes init_law: "a \<in> live h \<Longrightarrow> \<exists>h'. init a h = Inr h' \<and> holds h' a [] \<and> live h' = live h"
    and push_back_law: "holds h q xs \<Longrightarrow> n \<in> live h \<Longrightarrow> n \<notin> set (q # xs) \<Longrightarrow>
      \<exists>h'. push_back n q h = Inr h' \<and> holds h' q (xs @ [n]) \<and> live h' = live h
        \<and> (\<forall>r ys. holds h r ys \<longrightarrow> set (r # ys) \<inter> set (n # q # xs) = {} \<longrightarrow> holds h' r ys)"
    and unlink_law: "holds h q (xs @ e # ys) \<Longrightarrow>
      \<exists>h'. unlink e h = Inr h' \<and> holds h' q (xs @ ys) \<and> live h' = live h
        \<and> (\<forall>r zs. holds h r zs \<longrightarrow> set (r # zs) \<inter> set (q # xs @ e # ys) = {} \<longrightarrow> holds h' r zs)"
    and is_empty_law: "holds h q xs \<Longrightarrow> is_empty q h = Inr (xs = [])"
    and holds_distinct: "holds h q xs \<Longrightarrow> distinct (q # xs)"
begin

fun push_all :: "'p list \<Rightarrow> 'p \<Rightarrow> 'h \<Rightarrow> 'h res" where
  "push_all [] q h = Inr h"
| "push_all (n # ns) q h = rbind (push_back n q h) (push_all ns q)"

fun pop_all :: "'p list \<Rightarrow> 'h \<Rightarrow> 'h res" where
  "pop_all [] h = Inr h"
| "pop_all (n # ns) h = rbind (unlink n h) (pop_all ns)"

lemma push_all_holds:
  "holds h q xs \<Longrightarrow> set ns \<subseteq> live h \<Longrightarrow> distinct ns \<Longrightarrow> set ns \<inter> set (q # xs) = {} \<Longrightarrow>
     \<exists>h'. push_all ns q h = Inr h' \<and> holds h' q (xs @ ns) \<and> live h' = live h"
proof (induction ns arbitrary: h xs)
  case Nil
  then show ?case by simp
next
  case (Cons n ns)
  obtain h1 where h1: "push_back n q h = Inr h1" "holds h1 q (xs @ [n])" "live h1 = live h"
    using push_back_law [of h q xs n] Cons.prems by auto
  obtain h2 where "push_all ns q h1 = Inr h2" "holds h2 q ((xs @ [n]) @ ns)" "live h2 = live h1"
    using Cons.IH [OF h1(2)] Cons.prems h1(3) by auto
  with h1 show ?case by auto
qed

lemma pop_all_holds:
  "holds h q (ns @ ys) \<Longrightarrow> \<exists>h'. pop_all ns h = Inr h' \<and> holds h' q ys \<and> live h' = live h"
proof (induction ns arbitrary: h)
  case Nil
  then show ?case by simp
next
  case (Cons n ns)
  obtain h1 where "unlink n h = Inr h1" "holds h1 q (ns @ ys)" "live h1 = live h"
    using unlink_law [of h q "[]" n "ns @ ys"] Cons.prems by auto
  with Cons.IH show ?case by fastforce
qed

text \<open>A queue is first in, first out: what was pushed comes off the front in the same order.\<close>

lemma fifo:
  assumes "holds h q []" and "set ns \<subseteq> live h" and "distinct ns" and "q \<notin> set ns" and "ns = as @ bs"
  shows "\<exists>h1 h2. push_all ns q h = Inr h1 \<and> pop_all as h1 = Inr h2 \<and> holds h2 q bs
    \<and> is_empty q h2 = Inr (bs = [])"
proof -
  obtain h1 where h1: "push_all ns q h = Inr h1" "holds h1 q (as @ bs)"
    using push_all_holds [of h q "[]" ns] assms by auto
  then obtain h2 where "pop_all as h1 = Inr h2" "holds h2 q bs"
    using pop_all_holds by blast
  with h1 is_empty_law show ?thesis by blast
qed

end

interpretation kl: linked_list ring dom INIT_LIST_HEAD list_add_tail list_del list_empty
proof unfold_locales
  fix h :: lheap and a q n e and xs ys :: "addr list"
  show "\<exists>h'. INIT_LIST_HEAD a h = Inr h' \<and> ring h' a [] \<and> dom h' = dom h" if "a \<in> dom h"
    using INIT_LIST_HEAD_ring [OF that] by blast
  show "\<exists>h'. list_add_tail n q h = Inr h' \<and> ring h' q (xs @ [n]) \<and> dom h' = dom h
        \<and> (\<forall>r ys. ring h r ys \<longrightarrow> set (r # ys) \<inter> set (n # q # xs) = {} \<longrightarrow> ring h' r ys)"
    if ring: "ring h q xs" and n: "n \<in> dom h" "n \<notin> set (q # xs)"
  proof -
    obtain h' where h': "list_add_tail n q h = Inr h'" "ring h' q (xs @ [n])" "dom h' = dom h"
      "\<forall>b. b \<notin> insert n (insert q (set xs)) \<longrightarrow> h' b = h b"
      using list_add_tail_ring [OF ring n] by blast
    have "ring h' r ys" if "ring h r ys" "set (r # ys) \<inter> set (n # q # xs) = {}" for r ys
      using that h'(4) by (subst ring_frame [where h = h]) auto
    with h'(1-3) show ?thesis by blast
  qed
  show "\<exists>h'. list_del e h = Inr h' \<and> ring h' q (xs @ ys) \<and> dom h' = dom h
        \<and> (\<forall>r zs. ring h r zs \<longrightarrow> set (r # zs) \<inter> set (q # xs @ e # ys) = {} \<longrightarrow> ring h' r zs)"
    if ring: "ring h q (xs @ e # ys)"
  proof -
    obtain h' where h': "list_del e h = Inr h'" "ring h' q (xs @ ys)" "dom h' = dom h"
      "\<forall>b. b \<notin> insert e (insert q (set xs \<union> set ys)) \<longrightarrow> h' b = h b"
      using list_del_ring [OF ring] by blast
    have "ring h' r zs" if "ring h r zs" "set (r # zs) \<inter> set (q # xs @ e # ys) = {}" for r zs
      using that h'(4) by (subst ring_frame [where h = h]) auto
    with h'(1-3) show ?thesis by blast
  qed
  show "list_empty q h = Inr (xs = [])" if "ring h q xs"
    using that by (rule list_empty_ring)
  show "distinct (q # xs)" if "ring h q xs"
    using that by (simp add: ring_def)
qed

section \<open>What the components get\<close>

text \<open>
  Claim C18.  A queue kept with \<^verbatim>\<open>list_add_tail\<close> and \<^verbatim>\<open>list_del\<close> is first in, first out: after nodes \<open>ns\<close> are
  appended to an empty list and a first part of them is unlinked, the list holds exactly the rest, in
  order, and \<^verbatim>\<open>list_empty\<close> answers whether any is left.
\<close>

theorem list_queue_fifo:
  assumes "ring h q []" and "set (as @ bs) \<subseteq> dom h" and "distinct (q # as @ bs)"
  shows "\<exists>h1 h2. kl.push_all (as @ bs) q h = Inr h1 \<and> kl.pop_all as h1 = Inr h2 \<and> ring h2 q bs
    \<and> list_empty q h2 = Inr (bs = [])"
  using kl.fifo [OF assms(1,2)] assms(3) by simp

theorem list_queue_fifo_witness:
  "\<exists>h1 h2. kl.push_all [2, 3] 1 [1 \<mapsto> \<lparr>lh_next = 1, lh_prev = 1\<rparr>, 2 \<mapsto> \<lparr>lh_next = 0, lh_prev = 0\<rparr>,
       3 \<mapsto> \<lparr>lh_next = 0, lh_prev = 0\<rparr>] = Inr h1
     \<and> kl.pop_all [2] h1 = Inr h2 \<and> ring h2 1 [3] \<and> list_empty 1 h2 = Inr False"
  using list_queue_fifo [of "[1 \<mapsto> \<lparr>lh_next = 1, lh_prev = 1\<rparr>, 2 \<mapsto> \<lparr>lh_next = 0, lh_prev = 0\<rparr>,
       3 \<mapsto> \<lparr>lh_next = 0, lh_prev = 0\<rparr>]" 1 "[2]" "[3]"]
  by (simp add: ring_def get_next_def get_prev_def)

text \<open>
  Claim C30.  \<^verbatim>\<open>list_clear\<close> ends on every list, frees exactly its nodes, each once, and leaves the list empty,
  although it unlinks and frees the node its loop stands on.
\<close>

theorem list_clear_frees:
  assumes "ring h head xs"
  shows "\<exists>h'. list_clear (Suc (length xs)) head h = Some (Inr h') \<and> ring h' head [] \<and> dom h' = dom h - set xs"
  using list_clear_ring [OF assms] by simp

theorem list_clear_frees_witness:
  "\<exists>h'. list_clear 2 1 [1 \<mapsto> \<lparr>lh_next = 2, lh_prev = 2\<rparr>, 2 \<mapsto> \<lparr>lh_next = 1, lh_prev = 1\<rparr>] = Some (Inr h')
     \<and> ring h' 1 [] \<and> dom h' = {1}"
  using list_clear_frees [of "[1 \<mapsto> \<lparr>lh_next = 2, lh_prev = 2\<rparr>, 2 \<mapsto> \<lparr>lh_next = 1, lh_prev = 1\<rparr>]" 1 "[2]"]
  by (auto simp: ring_def get_next_def get_prev_def numeral_2_eq_2)

text \<open>
  With its arguments exchanged, \<^verbatim>\<open>list_add_tail(head, node)\<close> for a freshly initialised node, as
  \<^verbatim>\<open>client_bodycb\<close> calls it, makes the list hold that node alone: whatever it held before is lost to it.
\<close>

lemma list_add_tail_swapped:
  assumes "ring h head xs" and "ring h n []" and "n \<notin> insert head (set xs)"
  shows "\<exists>h'. list_add_tail head n h = Inr h' \<and> ring h' head [n]"
proof -
  have "head \<in> dom h" using ring_dom [OF assms(1)] by simp
  then obtain h' where "list_add_tail head n h = Inr h'" "ring h' n [head]"
    using list_add_tail_ring [OF assms(2), of head] assms(3) by auto
  then show ?thesis by (auto simp: ring_def)
qed

end
