(* ===== verification/Ep_Buffer.thy ===== *)
theory Ep_Buffer
  imports Klist
begin

text \<open>
  The write buffers of \<^verbatim>\<open>ep_buffer.c\<close>: a copied block of bytes with a count of those already handed on.
  A queue of them, an intrusive list in the sources, is an Isabelle list here, which theory \<open>Klist\<close>
  justifies.  \<open>pending\<close> is what a queue still owes its reader; the locale \<open>byte_queue\<close> states the
  contract of a byte queue (nothing lost, nothing repeated, order kept) for the components that use one.
\<close>

record ep_buffer =
  eb_buf :: "char list"
  eb_len_total :: int
  eb_len_sent :: int

text \<open>The bytes \<^verbatim>\<open>buf[off], ..., buf[off + n - 1]\<close> of an array, as \<^verbatim>\<open>memcpy\<close> reads them.\<close>

definition mem_read :: "char list \<Rightarrow> int \<Rightarrow> int \<Rightarrow> char list res" where
  "mem_read m off n =
     (if 0 \<le> off \<and> 0 \<le> n \<and> off + n \<le> int (length m)
      then Inr (take (nat n) (drop (nat off) m)) else Inl Out_Of_Bounds)"

text \<open>The first assertion, that the source pointer is not null, always holds of a modelled array.\<close>

definition ep_buffer_create :: "char list \<Rightarrow> int \<Rightarrow> ep_buffer res" where
  "ep_buffer_create buf len =
     rbind (cassert (len \<noteq> 0)) (\<lambda>_.
     rbind (mem_read buf 0 len) (\<lambda>bs.
     Inr \<lparr>eb_buf = bs, eb_len_total = len, eb_len_sent = 0\<rparr>))"

text \<open>
  \<^verbatim>\<open>ep_buffer_read\<close>: the loop over the queue, with the bytes copied to the caller's buffer so far as an
  accumulator.  A buffer that fits is unlinked and freed; one that does not is read in part, and the
  code then adds \<^verbatim>\<open>length - cpy_len\<close> to \<^verbatim>\<open>len_sent\<close> after it has already advanced \<^verbatim>\<open>cpy_len\<close>.
\<close>

fun ep_buffer_read_loop ::
    "ep_buffer list \<Rightarrow> int \<Rightarrow> char list \<Rightarrow> (ep_buffer list \<times> char list) res" where
  "ep_buffer_read_loop [] len out = Inr ([], out)"
| "ep_buffer_read_loop (pos # rest) len out =
     (let cpy_len = int (length out); cur_buf_len = eb_len_total pos - eb_len_sent pos
      in if cur_buf_len \<le> len - cpy_len
         then rbind (mem_read (eb_buf pos) (eb_len_sent pos) cur_buf_len) (\<lambda>bs.
              ep_buffer_read_loop rest len (out @ bs))
         else rbind (mem_read (eb_buf pos) (eb_len_sent pos) (len - cpy_len)) (\<lambda>bs.
              let cpy_len' = cpy_len + (len - cpy_len)
              in Inr (pos\<lparr>eb_len_sent := eb_len_sent pos + (len - cpy_len')\<rparr> # rest, out @ bs)))"

definition ep_buffer_read :: "ep_buffer list \<Rightarrow> int \<Rightarrow> (ep_buffer list \<times> char list) res" where
  "ep_buffer_read head len = ep_buffer_read_loop head len []"

section \<open>Well-formed buffers and what they owe\<close>

definition eb_wf :: "ep_buffer \<Rightarrow> bool" where
  "eb_wf b \<longleftrightarrow> eb_len_total b = int (length (eb_buf b)) \<and> 0 \<le> eb_len_sent b \<and> eb_len_sent b \<le> eb_len_total b"

definition remaining :: "ep_buffer \<Rightarrow> char list" where
  "remaining b = drop (nat (eb_len_sent b)) (eb_buf b)"

definition pending :: "ep_buffer list \<Rightarrow> char list" where
  "pending bs = concat (map remaining bs)"

lemma length_remaining:
  "eb_wf b \<Longrightarrow> int (length (remaining b)) = eb_len_total b - eb_len_sent b"
  by (auto simp: eb_wf_def remaining_def)

lemma pending_simps [simp]: "pending [] = []" "pending (b # bs) = remaining b @ pending bs"
  "pending (bs @ cs) = pending bs @ pending cs"
  by (simp_all add: pending_def)

lemma ep_buffer_create_ok:
  "0 < len \<Longrightarrow> len \<le> int (length buf) \<Longrightarrow>
     \<exists>b. ep_buffer_create buf len = Inr b \<and> eb_wf b \<and> remaining b = take (nat len) buf
       \<and> eb_len_total b = len \<and> eb_len_sent b = 0"
  by (auto simp: ep_buffer_create_def mem_read_def eb_wf_def remaining_def)

lemma mem_read_remaining:
  "eb_wf b \<Longrightarrow> 0 \<le> n \<Longrightarrow> n \<le> eb_len_total b - eb_len_sent b \<Longrightarrow>
     mem_read (eb_buf b) (eb_len_sent b) n = Inr (take (nat n) (remaining b))"
  by (auto simp: mem_read_def eb_wf_def remaining_def)

lemma mem_read_remaining_all:
  assumes "eb_wf b"
  shows "mem_read (eb_buf b) (eb_len_sent b) (eb_len_total b - eb_len_sent b) = Inr (remaining b)"
proof -
  have "0 \<le> eb_len_total b - eb_len_sent b" using assms by (simp add: eb_wf_def)
  moreover have "take (nat (eb_len_total b - eb_len_sent b)) (remaining b) = remaining b"
    using length_remaining [OF assms] by simp
  ultimately show ?thesis using mem_read_remaining [OF assms] by simp
qed

section \<open>The contract of a byte queue\<close>

text \<open>
  A queue of bytes between a writer and a reader: writing appends, and whatever a read hands out,
  followed by what is still pending, is what was pending before.
\<close>

locale byte_queue =
  fixes inv :: "'q \<Rightarrow> bool"
    and owed :: "'q \<Rightarrow> char list"
    and put :: "char list \<Rightarrow> 'q \<Rightarrow> 'q"
    and take_out :: "'i \<Rightarrow> 'q \<Rightarrow> char list \<times> 'q"
  assumes put_owed: "inv q \<Longrightarrow> d \<noteq> [] \<Longrightarrow> inv (put d q) \<and> owed (put d q) = owed q @ d"
    and take_owed: "inv q \<Longrightarrow> take_out i q = (out, q') \<Longrightarrow> inv q' \<and> out @ owed q' = owed q"
begin

text \<open>A run of the queue: \<open>Inl d\<close> writes \<open>d\<close>, \<open>Inr i\<close> reads with the outside input \<open>i\<close>.\<close>

fun run :: "(char list + 'i) list \<Rightarrow> 'q \<Rightarrow> char list \<times> 'q" where
  "run [] q = ([], q)"
| "run (Inl d # ops) q = run ops (if d = [] then q else put d q)"
| "run (Inr i # ops) q =
     (let (out, q1) = take_out i q; (outs, q2) = run ops q1 in (out @ outs, q2))"

fun written :: "(char list + 'i) list \<Rightarrow> char list" where
  "written [] = []"
| "written (Inl d # ops) = d @ written ops"
| "written (Inr i # ops) = written ops"

lemma run_conserves:
  "inv q \<Longrightarrow> run ops q = (out, q') \<Longrightarrow> inv q' \<and> out @ owed q' = owed q @ written ops"
proof (induction ops arbitrary: q out q')
  case Nil
  then show ?case by simp
next
  case (Cons op ops)
  show ?case
  proof (cases op)
    case (Inl d)
    with Cons put_owed [of q d] show ?thesis by (cases "d = []") auto
  next
    case (Inr i)
    obtain o1 q1 where t: "take_out i q = (o1, q1)" by fastforce
    obtain o2 q2 where r: "run ops q1 = (o2, q2)" by fastforce
    have "inv q1" "o1 @ owed q1 = owed q" using take_owed [OF Cons.prems(1) t] by auto
    moreover have "inv q2 \<and> o2 @ owed q2 = owed q1 @ written ops"
      using Cons.IH [OF \<open>inv q1\<close> r] .
    ultimately show ?thesis using Cons.prems(2) Inr t r by auto
  qed
qed

end

section \<open>What ep\_buffer\_read delivers\<close>

lemma ep_buffer_read_loop_out:
  assumes "\<forall>b \<in> set bs. eb_wf b" and "int (length out) \<le> len"
  shows "\<exists>q'. ep_buffer_read_loop bs len out = Inr (q', out @ take (nat len - length out) (pending bs))
    \<and> (length out + length (pending bs) \<le> nat len \<longrightarrow> q' = [])"
  using assms
proof (induction bs arbitrary: out)
  case Nil
  then show ?case by simp
next
  case (Cons b bs)
  have wf: "eb_wf b" using Cons.prems by simp
  note lr = length_remaining [OF wf]
  show ?case
  proof (cases "eb_len_total b - eb_len_sent b \<le> len - int (length out)")
    case True
    have "int (length (out @ remaining b)) \<le> len" using True lr by simp
    then obtain q' where q': "ep_buffer_read_loop bs len (out @ remaining b)
        = Inr (q', (out @ remaining b) @ take (nat len - length (out @ remaining b)) (pending bs))"
      "length (out @ remaining b) + length (pending bs) \<le> nat len \<longrightarrow> q' = []"
      using Cons.IH [of "out @ remaining b"] Cons.prems by auto
    have "take (nat len - length out) (remaining b @ pending bs)
        = remaining b @ take (nat len - length (out @ remaining b)) (pending bs)"
      using True lr by (simp add: diff_diff_left)
    then show ?thesis
      using True q' mem_read_remaining_all [OF wf] by (simp add: Let_def)
  next
    case False
    have "mem_read (eb_buf b) (eb_len_sent b) (len - int (length out))
        = Inr (take (nat (len - int (length out))) (remaining b))"
      using False Cons.prems by (intro mem_read_remaining [OF wf]) auto
    moreover have "nat (len - int (length out)) = nat len - length out" by (simp add: nat_diff_distrib)
    moreover have "nat len - length out < length (remaining b)" using False lr Cons.prems(2) by simp
    ultimately show ?thesis using False by (simp add: Let_def)
  qed
qed

text \<open>
  \<^verbatim>\<open>ep_buffer_read\<close> copies out exactly the first \<^verbatim>\<open>length\<close> pending bytes (all of them when fewer
  are pending), in order and across buffer boundaries, and empties the queue when everything fits.
\<close>

lemma ep_buffer_read_out:
  assumes "\<forall>b \<in> set bs. eb_wf b" and "0 \<le> len"
  shows "\<exists>q'. ep_buffer_read bs len = Inr (q', take (nat len) (pending bs))
    \<and> (length (pending bs) \<le> nat len \<longrightarrow> q' = [])"
  using ep_buffer_read_loop_out [of bs "[]" len] assms by (simp add: ep_buffer_read_def)

text \<open>
  A read that stops inside the first buffer leaves the queue unchanged: \<^verbatim>\<open>len_sent\<close> is advanced
  by \<^verbatim>\<open>length - cpy_len\<close> after \<^verbatim>\<open>cpy_len\<close> has reached \<^verbatim>\<open>length\<close>, that is by zero, so the next read returns
  the same bytes again.
\<close>

lemma ep_buffer_read_repeats:
  assumes "eb_wf b" and "0 \<le> len" and "len < int (length (remaining b))"
  shows "ep_buffer_read (b # bs) len = Inr (b # bs, take (nat len) (remaining b))"
  using assms mem_read_remaining [of b len] length_remaining [of b]
  by (simp add: ep_buffer_read_def Let_def)

end
