(* ===== verification/Http_Url.thy ===== *)
theory Http_Url
  imports Http_Types Ep_Buffer
begin

text \<open>
  The URL parser of \<^verbatim>\<open>http_parser.c\<close>: \<^verbatim>\<open>parse_url_char_\<close> (shared with the request-line states of the HTTP
  parser), \<^verbatim>\<open>http_parse_host_char_\<close>, \<^verbatim>\<open>http_parse_host_\<close> and \<^verbatim>\<open>http_parser_parse_url_\<close>.  Offsets and
  lengths keep their width of 16 bits; the bit mask \<^verbatim>\<open>field_set\<close> is the set of the fields whose bit is set.
  The struct is passed in and out, as in the sources, because the parser does not initialise
  \<^verbatim>\<open>field_data\<close> and callers look at the struct even when the parser fails.
\<close>

section \<open>Character-level transitions\<close>

definition url_server_char :: "char \<Rightarrow> state" where
  "url_server_char ch =
     (if ch = CHR ''/'' then s_req_path
      else if ch = CHR ''?'' then s_req_query_string_start
      else if ch = CHR ''@'' then s_req_server_with_at
      else if IS_USERINFO_CHAR ch \<or> ch = CHR ''['' \<or> ch = CHR '']'' then s_req_server
      else s_dead)"

definition parse_url_char :: "state \<Rightarrow> char \<Rightarrow> state" where
  "parse_url_char s ch =
     (if ch = SP \<or> ch = CR \<or> ch = LF then s_dead
      else if ch = TAB \<or> ch = FF then s_dead
      else case s of
        s_req_spaces_before_url \<Rightarrow>
          (if ch = CHR ''/'' \<or> ch = CHR ''*'' then s_req_path
           else if IS_ALPHA ch then s_req_schema else s_dead)
      | s_req_schema \<Rightarrow>
          (if IS_ALPHA ch then s_req_schema
           else if ch = CHR '':'' then s_req_schema_slash else s_dead)
      | s_req_schema_slash \<Rightarrow> (if ch = CHR ''/'' then s_req_schema_slash_slash else s_dead)
      | s_req_schema_slash_slash \<Rightarrow> (if ch = CHR ''/'' then s_req_server_start else s_dead)
      | s_req_server_with_at \<Rightarrow> (if ch = CHR ''@'' then s_dead else url_server_char ch)
      | s_req_server_start \<Rightarrow> url_server_char ch
      | s_req_server \<Rightarrow> url_server_char ch
      | s_req_path \<Rightarrow>
          (if IS_URL_CHAR ch then s_req_path
           else if ch = CHR ''?'' then s_req_query_string_start
           else if ch = CHR ''#'' then s_req_fragment_start else s_dead)
      | s_req_query_string_start \<Rightarrow>
          (if IS_URL_CHAR ch then s_req_query_string
           else if ch = CHR ''?'' then s_req_query_string
           else if ch = CHR ''#'' then s_req_fragment_start else s_dead)
      | s_req_query_string \<Rightarrow>
          (if IS_URL_CHAR ch then s_req_query_string
           else if ch = CHR ''?'' then s_req_query_string
           else if ch = CHR ''#'' then s_req_fragment_start else s_dead)
      | s_req_fragment_start \<Rightarrow>
          (if IS_URL_CHAR ch then s_req_fragment
           else if ch = CHR ''?'' then s_req_fragment
           else if ch = CHR ''#'' then s_req_fragment_start else s_dead)
      | s_req_fragment \<Rightarrow>
          (if IS_URL_CHAR ch then s_req_fragment
           else if ch = CHR ''?'' \<or> ch = CHR ''#'' then s_req_fragment else s_dead)
      | _ \<Rightarrow> s_dead)"

definition http_parse_host_char :: "http_host_state \<Rightarrow> char \<Rightarrow> http_host_state" where
  "http_parse_host_char s ch =
     (let userinfo = (if ch = CHR ''@'' then s_http_host_start
                      else if IS_USERINFO_CHAR ch then s_http_userinfo else s_http_host_dead);
          v6_end = (if ch = CHR '':'' then s_http_host_port_start else s_http_host_dead);
          v6_start = (if IS_HEX ch \<or> ch = CHR '':'' \<or> ch = CHR ''.'' then s_http_host_v6
                      else s_http_host_dead);
          port = (if IS_NUM ch then s_http_host_port else s_http_host_dead)
      in case s of
        s_http_userinfo \<Rightarrow> userinfo
      | s_http_userinfo_start \<Rightarrow> userinfo
      | s_http_host_start \<Rightarrow>
          (if ch = CHR ''['' then s_http_host_v6_start
           else if IS_HOST_CHAR ch then s_http_host else s_http_host_dead)
      | s_http_host \<Rightarrow> (if IS_HOST_CHAR ch then s_http_host else v6_end)
      | s_http_host_v6_end \<Rightarrow> v6_end
      | s_http_host_v6 \<Rightarrow> (if ch = CHR '']'' then s_http_host_v6_end else v6_start)
      | s_http_host_v6_start \<Rightarrow> v6_start
      | s_http_host_port \<Rightarrow> port
      | s_http_host_port_start \<Rightarrow> port
      | s_http_host_dead \<Rightarrow> s_http_host_dead)"

section \<open>The URL structure\<close>

datatype http_parser_url_fields =
    UF_SCHEMA | UF_HOST | UF_PORT | UF_PATH | UF_QUERY | UF_FRAGMENT | UF_USERINFO

text \<open>An array indexed by the fields (\<^verbatim>\<open>field_data[UF_MAX]\<close>), one value per field.\<close>

datatype 'a uf_array = UF_Array 'a 'a 'a 'a 'a 'a 'a

fun uf_get :: "'a uf_array \<Rightarrow> http_parser_url_fields \<Rightarrow> 'a" where
  "uf_get (UF_Array a b c d e f g) UF_SCHEMA = a"
| "uf_get (UF_Array a b c d e f g) UF_HOST = b"
| "uf_get (UF_Array a b c d e f g) UF_PORT = c"
| "uf_get (UF_Array a b c d e f g) UF_PATH = d"
| "uf_get (UF_Array a b c d e f g) UF_QUERY = e"
| "uf_get (UF_Array a b c d e f g) UF_FRAGMENT = f"
| "uf_get (UF_Array a b c d e f g) UF_USERINFO = g"

fun uf_put :: "http_parser_url_fields \<Rightarrow> 'a \<Rightarrow> 'a uf_array \<Rightarrow> 'a uf_array" where
  "uf_put UF_SCHEMA v (UF_Array a b c d e f g) = UF_Array v b c d e f g"
| "uf_put UF_HOST v (UF_Array a b c d e f g) = UF_Array a v c d e f g"
| "uf_put UF_PORT v (UF_Array a b c d e f g) = UF_Array a b v d e f g"
| "uf_put UF_PATH v (UF_Array a b c d e f g) = UF_Array a b c v e f g"
| "uf_put UF_QUERY v (UF_Array a b c d e f g) = UF_Array a b c d v f g"
| "uf_put UF_FRAGMENT v (UF_Array a b c d e f g) = UF_Array a b c d e v g"
| "uf_put UF_USERINFO v (UF_Array a b c d e f g) = UF_Array a b c d e f v"

lemma uf_get_put [simp]: "uf_get (uf_put f v t) g = (if g = f then v else uf_get t g)"
  by (cases t; cases f; cases g) simp_all

record http_parser_url =
  field_set :: "http_parser_url_fields set"
  port :: "16 word"
  fd_off :: "16 word uf_array"
  fd_len :: "16 word uf_array"

text \<open>A struct zeroed by its owner (\<^verbatim>\<open>struct http_parser_url url = {}\<close>).\<close>

definition url_zero :: http_parser_url where
  "url_zero = \<lparr>field_set = {}, port = 0, fd_off = UF_Array 0 0 0 0 0 0 0, fd_len = UF_Array 0 0 0 0 0 0 0\<rparr>"

text \<open>
  The assignments the parser makes: the offset of a field (wrapping at 16 bits), its length, its
  length plus one, its bit in \<^verbatim>\<open>field_set\<close>.
\<close>

definition set_off :: "http_parser_url_fields \<Rightarrow> nat \<Rightarrow> http_parser_url \<Rightarrow> http_parser_url" where
  "set_off f i u = u\<lparr>fd_off := uf_put f (word_of_nat i) (fd_off u)\<rparr>"

definition set_len :: "http_parser_url_fields \<Rightarrow> 16 word \<Rightarrow> http_parser_url \<Rightarrow> http_parser_url" where
  "set_len f n u = u\<lparr>fd_len := uf_put f n (fd_len u)\<rparr>"

definition inc_len :: "http_parser_url_fields \<Rightarrow> http_parser_url \<Rightarrow> http_parser_url" where
  "inc_len f u = set_len f (uf_get (fd_len u) f + 1) u"

definition mark_field :: "http_parser_url_fields \<Rightarrow> http_parser_url \<Rightarrow> http_parser_url" where
  "mark_field f u = u\<lparr>field_set := insert f (field_set u)\<rparr>"

lemmas url_upd_defs = set_off_def set_len_def inc_len_def mark_field_def

section \<open>http\_parse\_host\_\<close>

text \<open>The \<^verbatim>\<open>switch(new_s)\<close> of the loop body, at offset \<open>i\<close>.\<close>

definition host_step :: "http_host_state \<Rightarrow> http_host_state \<Rightarrow> nat \<Rightarrow> http_parser_url \<Rightarrow> http_parser_url" where
  "host_step s new_s i u =
     (case new_s of
        s_http_host \<Rightarrow>
          inc_len UF_HOST (if s \<noteq> s_http_host then set_off UF_HOST i u else u)
      | s_http_host_v6 \<Rightarrow>
          inc_len UF_HOST (if s \<noteq> s_http_host_v6 then set_off UF_HOST i u else u)
      | s_http_host_port \<Rightarrow>
          inc_len UF_PORT (if s \<noteq> s_http_host_port
            then mark_field UF_PORT (set_len UF_PORT 0 (set_off UF_PORT i u)) else u)
      | s_http_userinfo \<Rightarrow>
          inc_len UF_USERINFO (if s \<noteq> s_http_userinfo
            then mark_field UF_USERINFO (set_len UF_USERINFO 0 (set_off UF_USERINFO i u)) else u)
      | _ \<Rightarrow> u)"

fun host_loop :: "char list \<Rightarrow> nat \<Rightarrow> http_host_state \<Rightarrow> http_parser_url \<Rightarrow> http_host_state \<times> http_parser_url" where
  "host_loop [] i s u = (s, u)"
| "host_loop (c # cs) i s u =
     (let new_s = http_parse_host_char s c
      in if new_s = s_http_host_dead then (s_http_host_dead, u)
         else host_loop cs (Suc i) new_s (host_step s new_s i u))"

definition http_parse_host :: "char list \<Rightarrow> http_parser_url \<Rightarrow> bool \<Rightarrow> (int \<times> http_parser_url) res" where
  "http_parse_host buf u found_at =
     (let off = unat (uf_get (fd_off u) UF_HOST);
          buflen = off + unat (uf_get (fd_len u) UF_HOST);
          u1 = set_len UF_HOST 0 u;
          s0 = (if found_at then s_http_userinfo_start else s_http_host_start)
      in if length buf < buflen then Inl Out_Of_Bounds
         else let (s, u2) = host_loop (take (buflen - off) (drop off buf)) off s0 u1
              in Inr (if s \<in> {s_http_host_dead, s_http_host_start, s_http_host_v6_start, s_http_host_v6,
                              s_http_host_port_start, s_http_userinfo, s_http_userinfo_start}
                      then 1 else 0, u2))"

section \<open>http\_parser\_parse\_url\_\<close>

text \<open>
  The loop over the URL.  \<open>None\<close> as the result is the \<^verbatim>\<open>return 1\<close> of the dead state.  In the code \<^verbatim>\<open>uf\<close> is
  assigned before each use, so \<^verbatim>\<open>old_uf\<close> is the only field variable that survives an iteration; its start
  value \<^verbatim>\<open>UF_MAX\<close> is \<open>None\<close>.
\<close>

definition url_uf :: "state \<Rightarrow> http_parser_url_fields option" where
  "url_uf s =
     (case s of
        s_req_schema \<Rightarrow> Some UF_SCHEMA
      | s_req_server_with_at \<Rightarrow> Some UF_HOST
      | s_req_server \<Rightarrow> Some UF_HOST
      | s_req_path \<Rightarrow> Some UF_PATH
      | s_req_query_string \<Rightarrow> Some UF_QUERY
      | s_req_fragment \<Rightarrow> Some UF_FRAGMENT
      | _ \<Rightarrow> None)"

definition url_delimiter :: "state \<Rightarrow> bool" where
  "url_delimiter s \<longleftrightarrow> s \<in> {s_req_schema_slash, s_req_schema_slash_slash, s_req_server_start,
     s_req_query_string_start, s_req_fragment_start}"

fun url_loop :: "char list \<Rightarrow> nat \<Rightarrow> state \<Rightarrow> http_parser_url_fields option \<Rightarrow> bool \<Rightarrow> http_parser_url
    \<Rightarrow> (bool option \<times> http_parser_url) res" where
  "url_loop [] i s old_uf found_at u = Inr (Some found_at, u)"
| "url_loop (c # cs) i s old_uf found_at u =
     (let s' = parse_url_char s c
      in if s' = s_dead then Inr (None, u)
         else if url_delimiter s' then url_loop cs (Suc i) s' old_uf found_at u
         else let found' = (found_at \<or> s' = s_req_server_with_at)
              in case url_uf s' of
                   None \<Rightarrow> Inl Assert_Failed
                 | Some uf \<Rightarrow>
                     if old_uf = Some uf then url_loop cs (Suc i) s' old_uf found' (inc_len uf u)
                     else url_loop cs (Suc i) s' (Some uf) found'
                            (mark_field uf (set_len uf 1 (set_off uf i u))))"

text \<open>\<^verbatim>\<open>strtoul(s, NULL, 10)\<close> of a string that starts with a digit.\<close>

definition strtoul :: "string \<Rightarrow> int" where
  "strtoul s = foldl (\<lambda>v c. v * 10 + int (digit_val c)) 0 (takeWhile IS_NUM s)"

definition parse_url_port :: "char list \<Rightarrow> http_parser_url \<Rightarrow> int \<times> http_parser_url" where
  "parse_url_port buf u =
     (if UF_PORT \<in> field_set u
      then let v = strtoul (drop (unat (uf_get (fd_off u) UF_PORT)) buf)
           in if v > 0xffff then (1, u) else (0, u\<lparr>port := word_of_int v\<rparr>)
      else (0, u))"

definition http_parser_parse_url :: "char list \<Rightarrow> bool \<Rightarrow> http_parser_url \<Rightarrow> (int \<times> http_parser_url) res" where
  "http_parser_parse_url buf is_connect u =
     (let u0 = u\<lparr>port := 0, field_set := {}\<rparr>;
          s0 = (if is_connect then s_req_server_start else s_req_spaces_before_url)
      in rbind (url_loop buf 0 s0 None False u0) (\<lambda>(r, u1).
         case r of
           None \<Rightarrow> Inr (1, u1)
         | Some found_at \<Rightarrow>
             rbind (if field_set u1 \<inter> {UF_SCHEMA, UF_HOST} \<noteq> {}
                    then http_parse_host buf u1 found_at else Inr (0, u1)) (\<lambda>(rc, u2).
             if rc \<noteq> 0 then Inr (1, u2)
             else if is_connect \<and> field_set u2 \<noteq> {UF_HOST, UF_PORT} then Inr (1, u2)
             else Inr (parse_url_port buf u2))))"

text \<open>The bytes of a field.\<close>

definition url_field :: "char list \<Rightarrow> http_parser_url \<Rightarrow> http_parser_url_fields \<Rightarrow> char list" where
  "url_field buf u f = take (unat (uf_get (fd_len u) f)) (drop (unat (uf_get (fd_off u) f)) buf)"

section \<open>Character classes at the characters that matter\<close>

definition url_space :: "char \<Rightarrow> bool" where
  "url_space c \<longleftrightarrow> c \<in> {SP, CR, LF, TAB, FF}"

lemma class_no_space:
  "IS_ALPHA c \<Longrightarrow> \<not> url_space c" "IS_NUM c \<Longrightarrow> \<not> url_space c" "IS_URL_CHAR c \<Longrightarrow> \<not> url_space c"
  "IS_HOST_CHAR c \<Longrightarrow> \<not> url_space c" "IS_USERINFO_CHAR c \<Longrightarrow> \<not> url_space c"
proof -
  have "\<not> IS_ALPHA d \<and> \<not> IS_NUM d \<and> \<not> IS_HOST_CHAR d \<and> \<not> IS_USERINFO_CHAR d" if "url_space d" for d
    using that unfolding url_space_def by (elim insertE emptyE) (simp_all add: char_defs)
  moreover have "\<not> IS_URL_CHAR d" if "url_space d" for d
    using that unfolding url_space_def
    by (elim insertE emptyE)
      (simp_all add: IS_URL_CHAR_def BIT_AT_def normal_url_char_def uchar_def)
  ultimately show "IS_ALPHA c \<Longrightarrow> \<not> url_space c" "IS_NUM c \<Longrightarrow> \<not> url_space c"
    "IS_URL_CHAR c \<Longrightarrow> \<not> url_space c" "IS_HOST_CHAR c \<Longrightarrow> \<not> url_space c"
    "IS_USERINFO_CHAR c \<Longrightarrow> \<not> url_space c"
    by blast+
qed

lemma class_not_punct:
  "IS_HOST_CHAR c \<Longrightarrow> c \<notin> {CHR ''/'', CHR ''?'', CHR ''@'', CHR '':'', CHR ''['', CHR '']''}"
  "IS_NUM c \<Longrightarrow> c \<notin> {CHR ''/'', CHR ''?'', CHR ''@'', CHR '':'', CHR ''['', CHR '']''}"
  "IS_ALPHA c \<Longrightarrow> c \<notin> {CHR ''/'', CHR '':'', CHR ''*''}"
  by (auto simp: char_defs)

lemma host_is_userinfo: "IS_HOST_CHAR c \<Longrightarrow> IS_USERINFO_CHAR c" "IS_NUM c \<Longrightarrow> IS_USERINFO_CHAR c"
  by (auto simp: IS_HOST_CHAR_def IS_USERINFO_CHAR_def IS_MARK_def IS_ALPHANUM_def)

lemma num_is_host: "IS_NUM c \<Longrightarrow> IS_HOST_CHAR c"
  by (simp add: IS_HOST_CHAR_def IS_ALPHANUM_def)

lemma IS_URL_CHAR_slash [simp]: "IS_URL_CHAR (CHR ''/'')"
  by (simp add: IS_URL_CHAR_def BIT_AT_def normal_url_char_def uchar_def)

lemma IS_USERINFO_colon [simp]: "IS_USERINFO_CHAR (CHR '':'')"
  by (simp add: IS_USERINFO_CHAR_def)

lemma parse_url_char_no_space:
  "\<not> url_space c \<Longrightarrow> c \<noteq> SP \<and> c \<noteq> CR \<and> c \<noteq> LF \<and> c \<noteq> TAB \<and> c \<noteq> FF"
  by (simp add: url_space_def)

section \<open>The parser never reads outside the URL\<close>

text \<open>Every live state is a delimiter state or belongs to a field: the assertion in the loop never fails.\<close>

lemma parse_url_char_codomain:
  "parse_url_char s c = s_dead \<or> url_delimiter (parse_url_char s c) \<or> url_uf (parse_url_char s c) \<noteq> None"
  unfolding parse_url_char_def url_server_char_def
  by (cases s) (simp_all add: url_delimiter_def url_uf_def)

definition in_bounds :: "http_parser_url_fields \<Rightarrow> nat \<Rightarrow> http_parser_url \<Rightarrow> bool" where
  "in_bounds f n u \<longleftrightarrow> unat (uf_get (fd_off u) f) + unat (uf_get (fd_len u) f) \<le> n"

lemma unat_inc: "unat (w :: 16 word) < 65535 \<Longrightarrow> unat (w + 1) = Suc (unat w)"
  by (simp add: unat_word_ariths)

lemma unat_of_nat16: "i < 65536 \<Longrightarrow> unat (word_of_nat i :: 16 word) = i"
  by (simp add: unat_of_nat)

lemma in_bounds_inc:
  assumes "i < 65535" and "in_bounds g i u"
  shows "in_bounds g (Suc i) (inc_len f u)"
proof (cases "g = f")
  case True
  have "unat (uf_get (fd_len u) f) < 65535"
    using assms True by (simp add: in_bounds_def)
  then show ?thesis
    using assms True by (simp add: in_bounds_def inc_len_def set_len_def unat_inc)
next
  case False
  with assms show ?thesis by (simp add: in_bounds_def inc_len_def set_len_def)
qed

lemma in_bounds_start:
  "i < 65535 \<Longrightarrow> in_bounds f (Suc i) (mark_field f (set_len f 1 (set_off f i u)))"
  by (simp add: in_bounds_def url_upd_defs unat_of_nat16)

definition url_inv :: "nat \<Rightarrow> http_parser_url_fields option \<Rightarrow> http_parser_url \<Rightarrow> bool" where
  "url_inv i old u \<longleftrightarrow> (\<forall>f \<in> field_set u. in_bounds f i u)
     \<and> (\<forall>f. old = Some f \<longrightarrow> f \<in> field_set u) \<and> field_set u \<inter> {UF_PORT, UF_USERINFO} = {}"

lemma url_inv_Suc: "url_inv i old u \<Longrightarrow> url_inv (Suc i) old u"
  by (auto simp: url_inv_def in_bounds_def)

lemma url_inv_inc:
  assumes "i < 65535" and "url_inv i old u"
  shows "url_inv (Suc i) old (inc_len f u)"
proof -
  have "field_set (inc_len f u) = field_set u" by (simp add: url_upd_defs)
  with assms show ?thesis by (simp add: url_inv_def in_bounds_inc)
qed

lemma url_inv_start:
  assumes "i < 65535" and "url_inv i old u" and "f \<notin> {UF_PORT, UF_USERINFO}"
  shows "url_inv (Suc i) (Some f) (mark_field f (set_len f 1 (set_off f i u)))"
proof -
  have "in_bounds g (Suc i) (mark_field f (set_len f 1 (set_off f i u)))" if "g \<in> field_set u" for g
  proof (cases "g = f")
    case True
    with assms(1) show ?thesis by (simp add: in_bounds_start)
  next
    case False
    with assms(2) that show ?thesis by (auto simp: url_inv_def in_bounds_def url_upd_defs)
  qed
  moreover have "in_bounds f (Suc i) (mark_field f (set_len f 1 (set_off f i u)))"
    using assms(1) by (rule in_bounds_start)
  ultimately show ?thesis
    using assms(2,3) by (auto simp: url_inv_def mark_field_def set_len_def set_off_def)
qed

lemma url_uf_range: "url_uf s = Some f \<Longrightarrow> f \<notin> {UF_PORT, UF_USERINFO}"
  unfolding url_uf_def by (cases s) auto

text \<open>Fields that are not set keep the data the caller left in the struct.\<close>

definition same_unset :: "http_parser_url \<Rightarrow> http_parser_url \<Rightarrow> bool" where
  "same_unset u v \<longleftrightarrow> field_set u \<subseteq> field_set v
     \<and> (\<forall>f. f \<notin> field_set v \<longrightarrow> uf_get (fd_off v) f = uf_get (fd_off u) f \<and> uf_get (fd_len v) f = uf_get (fd_len u) f)"

lemma same_unset_trans: "same_unset u v \<Longrightarrow> same_unset v w \<Longrightarrow> same_unset u w"
  by (auto simp: same_unset_def)

lemma url_loop_inv:
  "url_inv i old u \<Longrightarrow> i + length cs < 65536 \<Longrightarrow>
     \<exists>r u'. url_loop cs i s old fa u = Inr (r, u') \<and> url_inv (i + length cs) None u' \<and> same_unset u u'"
proof (induction cs arbitrary: i s old fa u)
  case Nil
  then show ?case by (auto simp: url_inv_def same_unset_def)
next
  case (Cons c cs)
  let ?s = "parse_url_char s c" and ?fa = "fa \<or> parse_url_char s c = s_req_server_with_at"
  have i: "i < 65535" "Suc i + length cs < 65536" using Cons.prems(2) by auto
  note IH = Cons.IH [OF _ i(2)]
  consider (dead) "?s = s_dead" | (delim) "?s \<noteq> s_dead" "url_delimiter ?s"
    | (field) uf where "?s \<noteq> s_dead" "\<not> url_delimiter ?s" "url_uf ?s = Some uf"
    using parse_url_char_codomain [of s c] by auto
  then show ?case
  proof cases
    case dead
    with Cons.prems(1) show ?thesis
      by (auto simp: same_unset_def url_inv_def in_bounds_def intro: trans_le_add1)
  next
    case delim
    with IH [OF url_inv_Suc [OF Cons.prems(1)]] show ?thesis by (simp add: Let_def)
  next
    case field
    show ?thesis
    proof (cases "old = Some uf")
      case True
      have "same_unset u (inc_len uf u)"
        using Cons.prems(1) True by (auto simp: same_unset_def url_inv_def url_upd_defs)
      with IH [OF url_inv_inc [OF i(1) Cons.prems(1)], of ?s ?fa uf] field True show ?thesis
        by (fastforce simp: Let_def intro: same_unset_trans)
    next
      case False
      have "same_unset u (mark_field uf (set_len uf 1 (set_off uf i u)))"
        by (auto simp: same_unset_def url_upd_defs)
      with IH [OF url_inv_start [OF i(1) Cons.prems(1) url_uf_range [OF field(3)]], of ?s ?fa] field False
      show ?thesis by (fastforce simp: Let_def intro: same_unset_trans)
    qed
  qed
qed

definition host_inv :: "nat \<Rightarrow> nat \<Rightarrow> http_host_state \<Rightarrow> http_parser_url \<Rightarrow> bool" where
  "host_inv N i s u \<longleftrightarrow> (\<forall>f \<in> field_set u. in_bounds f N u) \<and> in_bounds UF_HOST i u
     \<and> (s \<notin> {s_http_host, s_http_host_v6, s_http_host_v6_end, s_http_host_port_start, s_http_host_port}
          \<longrightarrow> uf_get (fd_len u) UF_HOST = 0)
     \<and> (\<forall>f \<in> field_set u \<inter> {UF_PORT, UF_USERINFO}. in_bounds f i u)
     \<and> (s = s_http_host_port \<longrightarrow> UF_PORT \<in> field_set u)
     \<and> (s = s_http_userinfo \<longrightarrow> UF_USERINFO \<in> field_set u)"

lemma in_bounds_mono: "in_bounds f n u \<Longrightarrow> n \<le> m \<Longrightarrow> in_bounds f m u"
  by (simp add: in_bounds_def)

lemma in_bounds_other:
  "g \<noteq> f \<Longrightarrow> in_bounds g n (inc_len f u) = in_bounds g n u"
  "g \<noteq> f \<Longrightarrow> in_bounds g n (set_len f k u) = in_bounds g n u"
  "g \<noteq> f \<Longrightarrow> in_bounds g n (set_off f i u) = in_bounds g n u"
  "in_bounds g n (mark_field f u) = in_bounds g n u"
  by (simp_all add: in_bounds_def url_upd_defs)

lemma field_set_upd [simp]:
  "field_set (inc_len f u) = field_set u" "field_set (set_len f k u) = field_set u"
  "field_set (set_off f i u) = field_set u" "field_set (mark_field f u) = insert f (field_set u)"
  by (simp_all add: url_upd_defs)

text \<open>The four ways the loop body moves the struct on, each with what it does to one field's bound.\<close>

lemma host_inv_keep:
  assumes "host_inv N i s u" and "s' \<notin> {s_http_host_port, s_http_userinfo}"
    and len: "s' \<notin> {s_http_host, s_http_host_v6, s_http_host_v6_end, s_http_host_port_start, s_http_host_port}
       \<longrightarrow> uf_get (fd_len u) UF_HOST = 0"
  shows "host_inv N (Suc i) s' u"
proof -
  have m: "in_bounds f i u \<Longrightarrow> in_bounds f (Suc i) u" for f by (simp add: in_bounds_def)
  have "\<forall>f \<in> field_set u. in_bounds f N u" "in_bounds UF_HOST i u"
    "\<forall>f \<in> field_set u \<inter> {UF_PORT, UF_USERINFO}. in_bounds f i u"
    using assms(1) unfolding host_inv_def by blast+
  with m len assms(2) show ?thesis unfolding host_inv_def by simp
qed

lemma host_inv_host_inc:
  assumes "host_inv N i s u" and "i < N" and "N < 65536" and "s' \<in> {s_http_host, s_http_host_v6}"
  shows "host_inv N (Suc i) s' (inc_len UF_HOST u)"
proof -
  have b: "in_bounds UF_HOST (Suc i) (inc_len UF_HOST u)"
    using assms by (intro in_bounds_inc) (auto simp: host_inv_def)
  have "in_bounds f N (inc_len UF_HOST u)" if "f \<in> field_set u" for f
    using that assms b in_bounds_mono [OF b, of N]
    by (cases "f = UF_HOST") (auto simp: host_inv_def in_bounds_other)
  moreover have "in_bounds f (Suc i) (inc_len UF_HOST u)" if "f \<in> field_set u \<inter> {UF_PORT, UF_USERINFO}" for f
    using that assms(1) in_bounds_mono [of f i u "Suc i"] by (auto simp: host_inv_def in_bounds_other)
  ultimately show ?thesis using assms(4) b by (auto simp: host_inv_def)
qed

lemma host_inv_host_start:
  assumes "host_inv N i s u" and "i < N" and "N < 65536" and "s' \<in> {s_http_host, s_http_host_v6}"
    and "s \<notin> {s_http_host, s_http_host_v6, s_http_host_v6_end, s_http_host_port_start, s_http_host_port}"
  shows "host_inv N (Suc i) s' (inc_len UF_HOST (set_off UF_HOST i u))"
proof -
  have z: "uf_get (fd_len u) UF_HOST = 0" using assms(1,5) by (simp add: host_inv_def)
  have b: "in_bounds UF_HOST i (set_off UF_HOST i u)"
    using z assms by (simp add: in_bounds_def set_off_def unat_of_nat16)
  have "in_bounds f N (set_off UF_HOST i u)" if "f \<in> field_set u" for f
    using that assms(1,2) in_bounds_mono [OF b, of N]
    by (cases "f = UF_HOST") (auto simp: host_inv_def in_bounds_other)
  with b assms(1) have "host_inv N i s_http_host (set_off UF_HOST i u)"
    by (auto simp: host_inv_def in_bounds_other)
  then show ?thesis using assms(2-4) by (rule host_inv_host_inc)
qed

lemma host_inv_field_inc:
  assumes "host_inv N i s u" and "i < N" and "N < 65536" and "f \<in> {UF_PORT, UF_USERINFO}" and "f \<in> field_set u"
    and "s' \<in> {s_http_host_port, s_http_userinfo}" and "s' = s_http_host_port \<longleftrightarrow> f = UF_PORT"
    and "s' = s_http_userinfo \<longrightarrow> uf_get (fd_len u) UF_HOST = 0"
  shows "host_inv N (Suc i) s' (inc_len f u)"
proof -
  have b: "in_bounds f (Suc i) (inc_len f u)"
    using assms by (intro in_bounds_inc) (auto simp: host_inv_def)
  have "in_bounds g N (inc_len f u)" if "g \<in> field_set u" for g
    using that assms b in_bounds_mono [OF b, of N]
    by (cases "g = f") (auto simp: host_inv_def in_bounds_other)
  moreover have "in_bounds g (Suc i) (inc_len f u)" if "g \<in> field_set u \<inter> {UF_PORT, UF_USERINFO}" for g
    using that assms(1) b in_bounds_mono [of g i u "Suc i"]
    by (cases "g = f") (auto simp: host_inv_def in_bounds_other)
  moreover have "in_bounds UF_HOST (Suc i) (inc_len f u)"
    using assms(1,4) in_bounds_mono [of UF_HOST i u "Suc i"] by (auto simp: host_inv_def in_bounds_other)
  ultimately show ?thesis
    using assms(4-8) by (auto simp: host_inv_def url_upd_defs)
qed

lemma host_inv_field_start:
  assumes "host_inv N i s u" and "i < N" and "N < 65536" and "f \<in> {UF_PORT, UF_USERINFO}"
    and "s' \<in> {s_http_host_port, s_http_userinfo}" and "s' = s_http_host_port \<longleftrightarrow> f = UF_PORT"
    and "s' = s_http_userinfo \<longrightarrow> uf_get (fd_len u) UF_HOST = 0"
  shows "host_inv N (Suc i) s' (inc_len f (mark_field f (set_len f 0 (set_off f i u))))"
proof -
  let ?u = "mark_field f (set_len f 0 (set_off f i u))"
  have b: "in_bounds f i ?u"
    using assms by (auto simp: in_bounds_def url_upd_defs unat_of_nat16)
  have g: "in_bounds g n ?u = in_bounds g n u" if "g \<noteq> f" for g n
    using that by (simp add: in_bounds_other)
  have "in_bounds h N ?u" if "h \<in> field_set ?u" for h
    using that in_bounds_mono [OF b, of N] assms(1,2) by (cases "h = f") (auto simp: g host_inv_def)
  moreover have "in_bounds h i ?u" if "h \<in> field_set ?u \<inter> {UF_PORT, UF_USERINFO}" for h
    using that b assms(1) by (cases "h = f") (auto simp: g host_inv_def)
  moreover have "in_bounds UF_HOST i ?u"
  proof -
    have "UF_HOST \<noteq> f" using assms(4) by auto
    then show ?thesis using assms(1) by (simp add: g host_inv_def)
  qed
  moreover have "uf_get (fd_len ?u) UF_HOST = uf_get (fd_len u) UF_HOST"
    using assms(4) by (auto simp: url_upd_defs)
  ultimately have "host_inv N i s_http_host_v6_end ?u"
    by (auto simp: host_inv_def)
  moreover have "s' = s_http_userinfo \<longrightarrow> uf_get (fd_len ?u) UF_HOST = 0"
    using assms(4,7) by (auto simp: url_upd_defs)
  ultimately show ?thesis
    using assms(2-6) by (intro host_inv_field_inc) auto
qed

lemma host_step_inv:
  assumes inv: "host_inv N i s u" and "i < N" and "N < 65536" and "http_parse_host_char s c = s'"
    and "s' \<noteq> s_http_host_dead"
  shows "host_inv N (Suc i) s' (host_step s s' i u)"
proof -
  note steps = host_inv_host_inc [OF assms(1-3)] host_inv_host_start [OF assms(1-3)]
    host_inv_field_start [OF assms(1-3)] host_inv_field_inc [OF assms(1-3)] host_inv_keep [OF inv]
  have z: "uf_get (fd_len u) UF_HOST = 0" if "s \<in> {s_http_userinfo_start, s_http_userinfo, s_http_host_start, s_http_host_v6_start}"
    using inv that by (auto simp: host_inv_def)
  have m: "s = s_http_host_port \<Longrightarrow> UF_PORT \<in> field_set u" "s = s_http_userinfo \<Longrightarrow> UF_USERINFO \<in> field_set u"
    using inv by (auto simp: host_inv_def)
  show ?thesis
    using assms(4,5) z m steps
    by (cases s) (auto simp: http_parse_host_char_def host_step_def Let_def split: if_splits)
qed

lemma host_loop_inv:
  "host_inv N i s u \<Longrightarrow> i + length cs \<le> N \<Longrightarrow> N < 65536 \<Longrightarrow> host_loop cs i s u = (s', u')
     \<Longrightarrow> \<forall>f \<in> field_set u'. in_bounds f N u'"
proof (induction cs arbitrary: i s u)
  case Nil
  then show ?case by (auto simp: host_inv_def)
next
  case (Cons c cs)
  show ?case
  proof (cases "http_parse_host_char s c = s_http_host_dead")
    case True
    with Cons.prems show ?thesis by (auto simp: Let_def host_inv_def)
  next
    case False
    have "host_inv N (Suc i) (http_parse_host_char s c) (host_step s (http_parse_host_char s c) i u)"
      using Cons.prems False by (intro host_step_inv [where c = c]) auto
    then show ?thesis using Cons False by (simp add: Let_def)
  qed
qed

lemma http_parse_host_inv:
  assumes "\<forall>f \<in> field_set u. in_bounds f N u" and "field_set u \<inter> {UF_PORT, UF_USERINFO} = {}"
    and "in_bounds UF_HOST N u" and "length buf = N" and "N < 65536"
  shows "\<exists>rc u'. http_parse_host buf u fa = Inr (rc, u') \<and> rc \<in> {0, 1} \<and> (\<forall>f \<in> field_set u'. in_bounds f N u')"
proof -
  let ?off = "unat (uf_get (fd_off u) UF_HOST)" and ?len = "unat (uf_get (fd_len u) UF_HOST)"
  let ?u = "set_len UF_HOST 0 u" and ?s = "if fa then s_http_userinfo_start else s_http_host_start"
  let ?cs = "take ?len (drop ?off buf)"
  obtain s' u' where l: "host_loop ?cs ?off ?s ?u = (s', u')" by fastforce
  have len: "?off + ?len \<le> N" using assms(3) by (simp add: in_bounds_def)
  have "in_bounds f N ?u" if "f \<in> field_set u" for f
    using that assms(1) by (cases "f = UF_HOST") (auto simp: in_bounds_def set_len_def)
  then have "host_inv N ?off ?s ?u"
    using assms(2) by (auto simp: host_inv_def in_bounds_def set_len_def)
  then have "\<forall>f \<in> field_set u'. in_bounds f N u'"
    using host_loop_inv [OF _ _ assms(5) l] len assms(4) by auto
  with l len assms(4) show ?thesis
    by (auto simp: http_parse_host_def Let_def)
qed

text \<open>
  Claim C19.  On a URL of fewer than 65536 bytes, \<^verbatim>\<open>http_parser_parse_url_\<close> returns 0 or 1 without failing an
  assertion or reading outside the URL, provided the struct it is given has an in-range host entry (a
  zeroed one has), and every field it reports lies inside the URL, whatever it returns.
\<close>

theorem http_parser_parse_url_safe:
  assumes "length buf < 65536"
    and "unat (uf_get (fd_off u) UF_HOST) + unat (uf_get (fd_len u) UF_HOST) \<le> length buf"
  shows "\<exists>rc u'. http_parser_parse_url buf is_connect u = Inr (rc, u') \<and> rc \<in> {0, 1}
    \<and> (\<forall>f \<in> field_set u'. unat (uf_get (fd_off u') f) + unat (uf_get (fd_len u') f) \<le> length buf)"
proof -
  let ?u = "u\<lparr>port := 0, field_set := {}\<rparr>" and ?N = "length buf"
  let ?s = "if is_connect then s_req_server_start else s_req_spaces_before_url"
  have "url_inv 0 None ?u" by (simp add: url_inv_def)
  then obtain r u1 where l: "url_loop buf 0 ?s None False ?u = Inr (r, u1)"
    and inv: "url_inv ?N None u1" and same: "same_unset ?u u1"
    using url_loop_inv [of 0 None ?u buf] assms(1) by fastforce
  have b1: "\<forall>f \<in> field_set u1. in_bounds f ?N u1" "field_set u1 \<inter> {UF_PORT, UF_USERINFO} = {}"
    using inv by (auto simp: url_inv_def)
  have h: "in_bounds UF_HOST ?N u1"
    using b1(1) same assms(2) by (cases "UF_HOST \<in> field_set u1") (auto simp: same_unset_def in_bounds_def)
  obtain rc u2 where p: "http_parse_host buf u1 (the r) = Inr (rc, u2)" "rc \<in> {0, 1}"
    "\<forall>f \<in> field_set u2. in_bounds f ?N u2"
    using http_parse_host_inv [OF b1 h refl assms(1)] by blast
  obtain rc3 u3 where q: "parse_url_port buf u2 = (rc3, u3)" by fastforce
  obtain rc4 u4 where q1: "parse_url_port buf u1 = (rc4, u4)" by fastforce
  have 3: "rc3 \<in> {0, 1}" "\<forall>f \<in> field_set u3. in_bounds f ?N u3"
    using q p(3) by (auto simp: parse_url_port_def Let_def in_bounds_def split: if_splits)
  have 4: "rc4 \<in> {0, 1}" "\<forall>f \<in> field_set u4. in_bounds f ?N u4"
    using q1 b1(1) by (auto simp: parse_url_port_def Let_def in_bounds_def split: if_splits)
  show ?thesis
    using l p b1(1) q q1 3 4
    by (cases r) (auto simp: http_parser_parse_url_def Let_def in_bounds_def)
qed

theorem http_parser_parse_url_safe_witness:
  "\<exists>rc u'. http_parser_parse_url ''http://a.b:81/c'' False url_zero = Inr (rc, u') \<and> rc \<in> {0, 1}
    \<and> (\<forall>f \<in> field_set u'. unat (uf_get (fd_off u') f) + unat (uf_get (fd_len u') f) \<le> length ''http://a.b:81/c'')"
  using http_parser_parse_url_safe [of "''http://a.b:81/c''" url_zero False]
  by (simp add: url_zero_def)

text \<open>
  The proviso on the struct is needed: for a URL with a scheme and no host, such as
  \<^verbatim>\<open>http:///\<close>, the parser goes on to parse the host at the offset the caller's struct happens to hold, and
  an out-of-range leftover there makes it read outside the URL.  \<^verbatim>\<open>header_get_host\<close> and
  \<^verbatim>\<open>header_get_host_port\<close> pass an uninitialised struct.
\<close>

lemma http_parser_parse_url_uninitialised:
  assumes "8 < unat (uf_get (fd_off u) UF_HOST) + unat (uf_get (fd_len u) UF_HOST)"
  shows "http_parser_parse_url ''http:///'' False u = Inl Out_Of_Bounds"
  using assms
  by (simp add: http_parser_parse_url_def Let_def parse_url_char_def url_delimiter_def url_uf_def
      url_server_char_def char_defs http_parse_host_def url_upd_defs)

end
