(* ===== verification/Http_Parser.thy ===== *)
theory Http_Parser
  imports Http_Url
begin

text \<open>
  The HTTP/1 message parser, \<^verbatim>\<open>http_parser_execute_\<close> of \<^verbatim>\<open>http_parser.c\<close>, in strict mode.  The parser
  record has the fields of \<^verbatim>\<open>struct http_parser\<close> at their widths; the \<^verbatim>\<open>data\<close> pointer is a value of the
  type parameter \<open>'d\<close>, the state of the object the callbacks work on.  One definition models each group
  of states of the big \<^verbatim>\<open>switch\<close>; \<open>http_step\<close> is the switch, \<open>reexecute_byte\<close> the \<^verbatim>\<open>goto reexecute_byte\<close>
  loop, \<open>execute_loop\<close> the loop over the input, \<open>http_parser_execute\<close> the function.

  The two loops carry fuel, and running out of it is \<open>None\<close>: five executions of the switch per byte and
  one iteration more than there are bytes are enough (theory \<open>Http_Parser_Safe\<close>).
\<close>

section \<open>The parser and its callbacks\<close>

datatype http_flag =
  F_CHUNKED | F_CONNECTION_KEEP_ALIVE | F_CONNECTION_CLOSE | F_TRAILING | F_UPGRADE | F_SKIPBODY

record 'd http_parser =
  hp_type :: http_parser_type
  hp_flags :: "http_flag set"
  hp_state :: state
  hp_header_state :: header_states
  hp_index :: "8 word"
  hp_nread :: "32 word"
  hp_content_length :: "64 word"
  hp_http_major :: "16 word"
  hp_http_minor :: "16 word"
  hp_status_code :: "16 word"
  hp_method :: http_method
  hp_errno :: http_errno
  hp_upgrade :: bool
  hp_data :: 'd

text \<open>
  A callback may change the user's object, may pause the parser (\<^verbatim>\<open>http_parser_pause_\<close>), returns an \<^verbatim>\<open>int\<close>,
  and may itself fault.
\<close>

type_synonym 'd cb_result = "('d \<times> bool \<times> int) res"
type_synonym 'd http_cb = "'d http_parser \<Rightarrow> 'd cb_result"
type_synonym 'd http_data_cb = "'d http_parser \<Rightarrow> char list \<Rightarrow> 'd cb_result"

record 'd http_parser_settings =
  on_message_begin :: "'d http_cb option"
  on_url :: "'d http_data_cb option"
  on_status_complete :: "'d http_cb option"
  on_header_field :: "'d http_data_cb option"
  on_header_value :: "'d http_data_cb option"
  on_headers_complete :: "'d http_cb option"
  on_body :: "'d http_data_cb option"
  on_message_complete :: "'d http_cb option"

definition ULLONG_MAX :: "64 word" where
  "ULLONG_MAX = - 1"

definition HTTP_MAX_HEADER_SIZE :: "32 word" where
  "HTTP_MAX_HEADER_SIZE = 80 * 1024"

definition http_parser_init :: "http_parser_type \<Rightarrow> 'd \<Rightarrow> 'd http_parser" where
  "http_parser_init t d =
     \<lparr>hp_type = t, hp_flags = {},
      hp_state = (if t = HTTP_REQUEST then s_start_req
                  else if t = HTTP_RESPONSE then s_start_res else s_start_req_or_res),
      hp_header_state = h_general, hp_index = 0, hp_nread = 0, hp_content_length = 0, hp_http_major = 0,
      hp_http_minor = 0, hp_status_code = 0, hp_method = HTTP_DELETE, hp_errno = HPE_OK,
      hp_upgrade = False, hp_data = d\<rparr>"

definition http_parser_pause :: "'d http_parser \<Rightarrow> bool \<Rightarrow> 'd http_parser res" where
  "http_parser_pause ps paused =
     (if hp_errno ps = HPE_OK \<or> hp_errno ps = HPE_PAUSED
      then Inr (ps\<lparr>hp_errno := if paused then HPE_PAUSED else HPE_OK\<rparr>) else Inl Assert_Failed)"

definition http_body_is_final :: "'d http_parser \<Rightarrow> bool" where
  "http_body_is_final ps \<longleftrightarrow> hp_state ps = s_message_done"

definition http_message_needs_eof :: "'d http_parser \<Rightarrow> bool" where
  "http_message_needs_eof ps =
     (if hp_type ps = HTTP_REQUEST then False
      else if hp_status_code ps div 100 = 1 \<or> hp_status_code ps = 204 \<or> hp_status_code ps = 304
        \<or> F_SKIPBODY \<in> hp_flags ps then False
      else if F_CHUNKED \<in> hp_flags ps \<or> hp_content_length ps \<noteq> ULLONG_MAX then False
      else True)"

definition http_should_keep_alive :: "'d http_parser \<Rightarrow> bool" where
  "http_should_keep_alive ps =
     (if hp_http_major ps > 0 \<and> hp_http_minor ps > 0
      then if F_CONNECTION_CLOSE \<in> hp_flags ps then False else \<not> http_message_needs_eof ps
      else if F_CONNECTION_KEEP_ALIVE \<notin> hp_flags ps then False else \<not> http_message_needs_eof ps)"

definition start_state :: "'d http_parser \<Rightarrow> state" where
  "start_state ps = (if hp_type ps = HTTP_REQUEST then s_start_req else s_start_res)"

definition NEW_MESSAGE :: "'d http_parser \<Rightarrow> state" where
  "NEW_MESSAGE ps = (if http_should_keep_alive ps then start_state ps else s_dead)"

definition PARSING_HEADER :: "state \<Rightarrow> bool" where
  "PARSING_HEADER s \<longleftrightarrow> s \<notin> {s_chunk_data, s_chunk_data_almost_done, s_chunk_data_done, s_body_identity,
     s_body_identity_eof, s_message_done}"

section \<open>Locals, outcomes and the callback macros\<close>

text \<open>
  The locals of \<^verbatim>\<open>http_parser_execute_\<close>: \<open>lp\<close> is \<^verbatim>\<open>p - data\<close> (it may be \<open>-1\<close> for a moment in
  \<^verbatim>\<open>s_headers_done\<close>) and each mark is null or an offset.
\<close>

datatype mark = M_header_field | M_header_value | M_url | M_body

record locals =
  lp :: int
  header_field_mark :: "int option"
  header_value_mark :: "int option"
  url_mark :: "int option"
  body_mark :: "int option"

primrec get_mark :: "mark \<Rightarrow> locals \<Rightarrow> int option" where
  "get_mark M_header_field l = header_field_mark l"
| "get_mark M_header_value l = header_value_mark l"
| "get_mark M_url l = url_mark l"
| "get_mark M_body l = body_mark l"

primrec set_mark :: "mark \<Rightarrow> int option \<Rightarrow> locals \<Rightarrow> locals" where
  "set_mark M_header_field v l = l\<lparr>header_field_mark := v\<rparr>"
| "set_mark M_header_value v l = l\<lparr>header_value_mark := v\<rparr>"
| "set_mark M_url v l = l\<lparr>url_mark := v\<rparr>"
| "set_mark M_body v l = l\<lparr>body_mark := v\<rparr>"

primrec mark_cb :: "mark \<Rightarrow> 'd http_parser_settings \<Rightarrow> 'd http_data_cb option" where
  "mark_cb M_header_field S = on_header_field S"
| "mark_cb M_header_value S = on_header_value S"
| "mark_cb M_url S = on_url S"
| "mark_cb M_body S = on_body S"

primrec mark_errno :: "mark \<Rightarrow> http_errno" where
  "mark_errno M_header_field = HPE_CB_header_field"
| "mark_errno M_header_value = HPE_CB_header_value"
| "mark_errno M_url = HPE_CB_url"
| "mark_errno M_body = HPE_CB_body"

text \<open>How one execution of the switch ends: \<^verbatim>\<open>break\<close>, \<^verbatim>\<open>goto reexecute_byte\<close>, \<^verbatim>\<open>return\<close>, \<^verbatim>\<open>goto error\<close>.\<close>

datatype 'd outcome =
    Break "'d http_parser" locals
  | Reexec "'d http_parser" locals
  | Return "'d http_parser" int
  | Error "'d http_parser" int

definition fail :: "http_errno \<Rightarrow> 'd http_parser \<Rightarrow> locals \<Rightarrow> 'd outcome res" where
  "fail e ps l = Inr (Error (ps\<lparr>hp_errno := e\<rparr>) (lp l))"

definition STRICT_CHECK :: "bool \<Rightarrow> 'd http_parser \<Rightarrow> locals \<Rightarrow> 'd outcome res \<Rightarrow> 'd outcome res" where
  "STRICT_CHECK cond ps l k = (if cond then fail HPE_STRICT ps l else k)"

definition after_cb :: "http_errno \<Rightarrow> 'd http_parser \<Rightarrow> 'd \<times> bool \<times> int \<Rightarrow> 'd http_parser" where
  "after_cb e ps r = (case r of (d, paused, rc) \<Rightarrow>
     let ps = ps\<lparr>hp_data := d\<rparr>
     in if rc \<noteq> 0 then ps\<lparr>hp_errno := e\<rparr> else if paused then ps\<lparr>hp_errno := HPE_PAUSED\<rparr> else ps)"

definition CALLBACK_NOTIFY_ER ::
    "'d http_cb option \<Rightarrow> http_errno \<Rightarrow> int \<Rightarrow> 'd http_parser \<Rightarrow> ('d http_parser \<Rightarrow> 'd outcome res)
      \<Rightarrow> 'd outcome res" where
  "CALLBACK_NOTIFY_ER cb e er ps k =
     rbind (cassert (hp_errno ps = HPE_OK)) (\<lambda>_.
     case cb of
       None \<Rightarrow> k ps
     | Some f \<Rightarrow> rbind (f ps) (\<lambda>r.
         let ps' = after_cb e ps r
         in if hp_errno ps' \<noteq> HPE_OK then Inr (Return ps' er) else k ps'))"

definition CALLBACK_NOTIFY ::
    "'d http_cb option \<Rightarrow> http_errno \<Rightarrow> 'd http_parser \<Rightarrow> locals \<Rightarrow> 'd outcome res" where
  "CALLBACK_NOTIFY cb e ps l = CALLBACK_NOTIFY_ER cb e (lp l + 1) ps (\<lambda>ps. Inr (Break ps l))"

definition CALLBACK_DATA_ER ::
    "'d http_parser_settings \<Rightarrow> char list \<Rightarrow> mark \<Rightarrow> (int \<Rightarrow> int) \<Rightarrow> int \<Rightarrow> 'd http_parser \<Rightarrow> locals
      \<Rightarrow> ('d http_parser \<Rightarrow> locals \<Rightarrow> 'd outcome res) \<Rightarrow> 'd outcome res" where
  "CALLBACK_DATA_ER S data m len er ps l k =
     rbind (cassert (hp_errno ps = HPE_OK)) (\<lambda>_.
     case get_mark m l of
       None \<Rightarrow> k ps l
     | Some at \<Rightarrow> (case mark_cb m S of
         None \<Rightarrow> k ps (set_mark m None l)
       | Some f \<Rightarrow>
           rbind (mem_read data at (len at)) (\<lambda>bs.
           rbind (f ps bs) (\<lambda>r.
           let ps' = after_cb (mark_errno m) ps r
           in if hp_errno ps' \<noteq> HPE_OK then Inr (Return ps' er) else k ps' (set_mark m None l)))))"

definition CALLBACK_DATA ::
    "'d http_parser_settings \<Rightarrow> char list \<Rightarrow> mark \<Rightarrow> 'd http_parser \<Rightarrow> locals \<Rightarrow> 'd outcome res" where
  "CALLBACK_DATA S data m ps l =
     CALLBACK_DATA_ER S data m (\<lambda>at. lp l - at) (lp l + 1) ps l (\<lambda>ps l. Inr (Break ps l))"

definition CALLBACK_DATA_NOADVANCE ::
    "'d http_parser_settings \<Rightarrow> char list \<Rightarrow> mark \<Rightarrow> 'd http_parser \<Rightarrow> locals
      \<Rightarrow> ('d http_parser \<Rightarrow> locals \<Rightarrow> 'd outcome res) \<Rightarrow> 'd outcome res" where
  "CALLBACK_DATA_NOADVANCE S data m ps l k =
     CALLBACK_DATA_ER S data m (\<lambda>at. lp l - at) (lp l) ps l k"

definition MARK :: "mark \<Rightarrow> locals \<Rightarrow> locals" where
  "MARK m l = (if get_mark m l = None then set_mark m (Some (lp l)) l else l)"

section \<open>The states before the request or status line\<close>

definition step_dead :: "char \<Rightarrow> 'd http_parser \<Rightarrow> locals \<Rightarrow> 'd outcome res" where
  "step_dead ch ps l =
     (if ch = CR \<or> ch = LF then Inr (Break ps l) else fail HPE_CLOSED_CONNECTION ps l)"

definition step_start_req_or_res ::
    "'d http_parser_settings \<Rightarrow> char \<Rightarrow> 'd http_parser \<Rightarrow> locals \<Rightarrow> 'd outcome res" where
  "step_start_req_or_res S ch ps l =
     (if ch = CR \<or> ch = LF then Inr (Break ps l)
      else let ps = ps\<lparr>hp_flags := {}, hp_content_length := ULLONG_MAX\<rparr>
      in if ch = CHR ''H''
         then CALLBACK_NOTIFY (on_message_begin S) HPE_CB_message_begin (ps\<lparr>hp_state := s_res_or_resp_H\<rparr>) l
         else Inr (Reexec (ps\<lparr>hp_type := HTTP_REQUEST, hp_state := s_start_req\<rparr>) l))"

definition step_res_or_resp_H :: "char \<Rightarrow> 'd http_parser \<Rightarrow> locals \<Rightarrow> 'd outcome res" where
  "step_res_or_resp_H ch ps l =
     (if ch = CHR ''T'' then Inr (Break (ps\<lparr>hp_type := HTTP_RESPONSE, hp_state := s_res_HT\<rparr>) l)
      else if ch \<noteq> CHR ''E'' then fail HPE_INVALID_CONSTANT ps l
      else Inr (Break (ps\<lparr>hp_type := HTTP_REQUEST, hp_method := HTTP_HEAD, hp_index := 2,
                          hp_state := s_req_method\<rparr>) l))"

definition step_start_res ::
    "'d http_parser_settings \<Rightarrow> char \<Rightarrow> 'd http_parser \<Rightarrow> locals \<Rightarrow> 'd outcome res" where
  "step_start_res S ch ps l =
     (let ps = ps\<lparr>hp_flags := {}, hp_content_length := ULLONG_MAX\<rparr>
      in if ch = CHR ''H''
         then CALLBACK_NOTIFY (on_message_begin S) HPE_CB_message_begin (ps\<lparr>hp_state := s_res_H\<rparr>) l
         else if ch = CR \<or> ch = LF
         then CALLBACK_NOTIFY (on_message_begin S) HPE_CB_message_begin ps l
         else fail HPE_INVALID_CONSTANT ps l)"

section \<open>The status line\<close>

text \<open>A constant character of \<^verbatim>\<open>HTTP/\<close>, checked because the parser is built in strict mode.\<close>

definition step_constant :: "char \<Rightarrow> state \<Rightarrow> char \<Rightarrow> 'd http_parser \<Rightarrow> locals \<Rightarrow> 'd outcome res" where
  "step_constant want nxt ch ps l =
     STRICT_CHECK (ch \<noteq> want) ps l (Inr (Break (ps\<lparr>hp_state := nxt\<rparr>) l))"

definition dig16 :: "char \<Rightarrow> 16 word" where
  "dig16 ch = word_of_int (uchar ch - 48)"

definition step_res_first_http_major :: "char \<Rightarrow> 'd http_parser \<Rightarrow> locals \<Rightarrow> 'd outcome res" where
  "step_res_first_http_major ch ps l =
     (if schar ch < schar (CHR ''0'') \<or> schar ch > schar (CHR ''9'') then fail HPE_INVALID_VERSION ps l
      else Inr (Break (ps\<lparr>hp_http_major := dig16 ch, hp_state := s_res_http_major\<rparr>) l))"

text \<open>\<^verbatim>\<open>s_res_http_major\<close> and \<^verbatim>\<open>s_req_http_major\<close> differ only in the state after the dot.\<close>

definition step_http_major :: "state \<Rightarrow> char \<Rightarrow> 'd http_parser \<Rightarrow> locals \<Rightarrow> 'd outcome res" where
  "step_http_major first_minor ch ps l =
     (if ch = CHR ''.'' then Inr (Break (ps\<lparr>hp_state := first_minor\<rparr>) l)
      else if \<not> IS_NUM ch then fail HPE_INVALID_VERSION ps l
      else let ps = ps\<lparr>hp_http_major := hp_http_major ps * 10 + dig16 ch\<rparr>
      in if hp_http_major ps > 999 then fail HPE_INVALID_VERSION ps l else Inr (Break ps l))"

definition step_first_http_minor :: "state \<Rightarrow> char \<Rightarrow> 'd http_parser \<Rightarrow> locals \<Rightarrow> 'd outcome res" where
  "step_first_http_minor minor ch ps l =
     (if \<not> IS_NUM ch then fail HPE_INVALID_VERSION ps l
      else Inr (Break (ps\<lparr>hp_http_minor := dig16 ch, hp_state := minor\<rparr>) l))"

text \<open>The digits of a minor version, after the state's own ways of ending it.\<close>

definition step_http_minor_digit :: "char \<Rightarrow> 'd http_parser \<Rightarrow> locals \<Rightarrow> 'd outcome res" where
  "step_http_minor_digit ch ps l =
     (if \<not> IS_NUM ch then fail HPE_INVALID_VERSION ps l
      else let ps = ps\<lparr>hp_http_minor := hp_http_minor ps * 10 + dig16 ch\<rparr>
      in if hp_http_minor ps > 999 then fail HPE_INVALID_VERSION ps l else Inr (Break ps l))"

definition step_res_http_minor :: "char \<Rightarrow> 'd http_parser \<Rightarrow> locals \<Rightarrow> 'd outcome res" where
  "step_res_http_minor ch ps l =
     (if ch = SP then Inr (Break (ps\<lparr>hp_state := s_res_first_status_code\<rparr>) l)
      else step_http_minor_digit ch ps l)"

definition step_res_first_status_code :: "char \<Rightarrow> 'd http_parser \<Rightarrow> locals \<Rightarrow> 'd outcome res" where
  "step_res_first_status_code ch ps l =
     (if \<not> IS_NUM ch
      then if ch = SP then Inr (Break ps l) else fail HPE_INVALID_STATUS ps l
      else Inr (Break (ps\<lparr>hp_status_code := dig16 ch, hp_state := s_res_status_code\<rparr>) l))"

definition step_res_status_code :: "char \<Rightarrow> 'd http_parser \<Rightarrow> locals \<Rightarrow> 'd outcome res" where
  "step_res_status_code ch ps l =
     (if \<not> IS_NUM ch
      then if ch = SP then Inr (Break (ps\<lparr>hp_state := s_res_status\<rparr>) l)
           else if ch = CR then Inr (Break (ps\<lparr>hp_state := s_res_line_almost_done\<rparr>) l)
           else if ch = LF then Inr (Break (ps\<lparr>hp_state := s_header_field_start\<rparr>) l)
           else fail HPE_INVALID_STATUS ps l
      else let ps = ps\<lparr>hp_status_code := hp_status_code ps * 10 + dig16 ch\<rparr>
      in if hp_status_code ps > 999 then fail HPE_INVALID_STATUS ps l else Inr (Break ps l))"

definition step_res_status :: "char \<Rightarrow> 'd http_parser \<Rightarrow> locals \<Rightarrow> 'd outcome res" where
  "step_res_status ch ps l =
     (if ch = CR then Inr (Break (ps\<lparr>hp_state := s_res_line_almost_done\<rparr>) l)
      else if ch = LF then Inr (Break (ps\<lparr>hp_state := s_header_field_start\<rparr>) l)
      else Inr (Break ps l))"

definition step_res_line_almost_done ::
    "'d http_parser_settings \<Rightarrow> char \<Rightarrow> 'd http_parser \<Rightarrow> locals \<Rightarrow> 'd outcome res" where
  "step_res_line_almost_done S ch ps l =
     STRICT_CHECK (ch \<noteq> LF) ps l
       (CALLBACK_NOTIFY (on_status_complete S) HPE_CB_status_complete (ps\<lparr>hp_state := s_header_field_start\<rparr>) l)"

section \<open>The request line\<close>

definition first_method :: "char \<Rightarrow> http_method option" where
  "first_method ch =
     (if ch = CHR ''C'' then Some HTTP_CONNECT else if ch = CHR ''D'' then Some HTTP_DELETE
      else if ch = CHR ''G'' then Some HTTP_GET else if ch = CHR ''H'' then Some HTTP_HEAD
      else if ch = CHR ''L'' then Some HTTP_LOCK else if ch = CHR ''M'' then Some HTTP_MKCOL
      else if ch = CHR ''N'' then Some HTTP_NOTIFY else if ch = CHR ''O'' then Some HTTP_OPTIONS
      else if ch = CHR ''P'' then Some HTTP_POST else if ch = CHR ''R'' then Some HTTP_REPORT
      else if ch = CHR ''S'' then Some HTTP_SUBSCRIBE else if ch = CHR ''T'' then Some HTTP_TRACE
      else if ch = CHR ''U'' then Some HTTP_UNLOCK else None)"

definition step_start_req ::
    "'d http_parser_settings \<Rightarrow> char \<Rightarrow> 'd http_parser \<Rightarrow> locals \<Rightarrow> 'd outcome res" where
  "step_start_req S ch ps l =
     (if ch = CR \<or> ch = LF then Inr (Break ps l)
      else let ps = ps\<lparr>hp_flags := {}, hp_content_length := ULLONG_MAX\<rparr>
      in if \<not> IS_ALPHA ch then fail HPE_INVALID_METHOD ps l
      else let ps = ps\<lparr>hp_method := HTTP_DELETE, hp_index := 1\<rparr>
      in case first_method ch of
           None \<Rightarrow> fail HPE_INVALID_METHOD ps l
         | Some m \<Rightarrow> CALLBACK_NOTIFY (on_message_begin S) HPE_CB_message_begin
             (ps\<lparr>hp_method := m, hp_state := s_req_method\<rparr>) l)"

text \<open>
  \<open>next_method\<close>: what a character that is not the matcher's next one makes of the method.  \<open>Inl None\<close> is
  \<^verbatim>\<open>goto error\<close> without an error number, \<open>Inl (Some e)\<close> with one.  At index 2 a mismatch is never an
  error: the character is accepted whatever it is.
\<close>

definition next_method :: "http_method \<Rightarrow> 8 word \<Rightarrow> char \<Rightarrow> http_errno option + http_method" where
  "next_method m i ch =
     (if m = HTTP_CONNECT
      then if i = 1 \<and> ch = CHR ''H'' then Inr HTTP_CHECKOUT
           else if i = 2 \<and> ch = CHR ''P'' then Inr HTTP_COPY else Inl None
      else if m = HTTP_MKCOL
      then if i = 1 \<and> ch = CHR ''O'' then Inr HTTP_MOVE
           else if i = 1 \<and> ch = CHR ''E'' then Inr HTTP_MERGE
           else if i = 1 \<and> ch = CHR ''-'' then Inr HTTP_MSEARCH
           else if i = 2 \<and> ch = CHR ''A'' then Inr HTTP_MKACTIVITY else Inl None
      else if m = HTTP_SUBSCRIBE
      then if i = 1 \<and> ch = CHR ''E'' then Inr HTTP_SEARCH else Inl None
      else if i = 1 \<and> m = HTTP_POST
      then if ch = CHR ''R'' then Inr HTTP_PROPFIND
           else if ch = CHR ''U'' then Inr HTTP_PUT
           else if ch = CHR ''A'' then Inr HTTP_PATCH else Inl None
      else if i = 2
      then if m = HTTP_PUT then Inr (if ch = CHR ''R'' then HTTP_PURGE else m)
           else if m = HTTP_UNLOCK then Inr (if ch = CHR ''S'' then HTTP_UNSUBSCRIBE else m) else Inr m
      else if i = 4 \<and> m = HTTP_PROPFIND \<and> ch = CHR ''P'' then Inr HTTP_PROPPATCH
      else Inl (Some HPE_INVALID_METHOD))"

definition step_req_method :: "char \<Rightarrow> 'd http_parser \<Rightarrow> locals \<Rightarrow> 'd outcome res" where
  "step_req_method ch ps l =
     (if ch = NUL then fail HPE_INVALID_METHOD ps l
      else let matcher = method_strings (hp_method ps) @ [NUL]; i = unat (hp_index ps)
      in if i \<ge> length matcher then Inl Out_Of_Bounds
      else if ch = SP \<and> matcher ! i = NUL
      then Inr (Break (ps\<lparr>hp_state := s_req_spaces_before_url, hp_index := hp_index ps + 1\<rparr>) l)
      else if ch = matcher ! i then Inr (Break (ps\<lparr>hp_index := hp_index ps + 1\<rparr>) l)
      else case next_method (hp_method ps) (hp_index ps) ch of
        Inl None \<Rightarrow> Inr (Error ps (lp l))
      | Inl (Some e) \<Rightarrow> fail e ps l
      | Inr m \<Rightarrow> Inr (Break (ps\<lparr>hp_method := m, hp_index := hp_index ps + 1\<rparr>) l))"

text \<open>The URL states step \<open>parse_url_char\<close>, and a dead URL is an error.\<close>

definition step_url_char :: "char \<Rightarrow> 'd http_parser \<Rightarrow> locals \<Rightarrow> 'd outcome res" where
  "step_url_char ch ps l =
     (let ps = ps\<lparr>hp_state := parse_url_char (hp_state ps) ch\<rparr>
      in if hp_state ps = s_dead then fail HPE_INVALID_URL ps l else Inr (Break ps l))"

definition step_req_spaces_before_url :: "char \<Rightarrow> 'd http_parser \<Rightarrow> locals \<Rightarrow> 'd outcome res" where
  "step_req_spaces_before_url ch ps l =
     (if ch = SP then Inr (Break ps l)
      else step_url_char ch
        (if hp_method ps = HTTP_CONNECT then ps\<lparr>hp_state := s_req_server_start\<rparr> else ps) (MARK M_url l))"

definition step_req_schema :: "char \<Rightarrow> 'd http_parser \<Rightarrow> locals \<Rightarrow> 'd outcome res" where
  "step_req_schema ch ps l =
     (if ch = SP \<or> ch = CR \<or> ch = LF then fail HPE_INVALID_URL ps l else step_url_char ch ps l)"

definition step_req_url ::
    "'d http_parser_settings \<Rightarrow> char list \<Rightarrow> char \<Rightarrow> 'd http_parser \<Rightarrow> locals \<Rightarrow> 'd outcome res" where
  "step_req_url S data ch ps l =
     (if ch = SP then CALLBACK_DATA S data M_url (ps\<lparr>hp_state := s_req_http_start\<rparr>) l
      else if ch = CR \<or> ch = LF
      then CALLBACK_DATA S data M_url
             (ps\<lparr>hp_http_major := 0, hp_http_minor := 9,
                 hp_state := if ch = CR then s_req_line_almost_done else s_header_field_start\<rparr>) l
      else step_url_char ch ps l)"

definition step_req_http_start :: "char \<Rightarrow> 'd http_parser \<Rightarrow> locals \<Rightarrow> 'd outcome res" where
  "step_req_http_start ch ps l =
     (if ch = CHR ''H'' then Inr (Break (ps\<lparr>hp_state := s_req_http_H\<rparr>) l)
      else if ch = SP then Inr (Break ps l) else fail HPE_INVALID_CONSTANT ps l)"

definition step_req_first_http_major :: "char \<Rightarrow> 'd http_parser \<Rightarrow> locals \<Rightarrow> 'd outcome res" where
  "step_req_first_http_major ch ps l =
     (if schar ch < schar (CHR ''1'') \<or> schar ch > schar (CHR ''9'') then fail HPE_INVALID_VERSION ps l
      else Inr (Break (ps\<lparr>hp_http_major := dig16 ch, hp_state := s_req_http_major\<rparr>) l))"

definition step_req_http_minor :: "char \<Rightarrow> 'd http_parser \<Rightarrow> locals \<Rightarrow> 'd outcome res" where
  "step_req_http_minor ch ps l =
     (if ch = CR then Inr (Break (ps\<lparr>hp_state := s_req_line_almost_done\<rparr>) l)
      else if ch = LF then Inr (Break (ps\<lparr>hp_state := s_header_field_start\<rparr>) l)
      else step_http_minor_digit ch ps l)"

definition step_req_line_almost_done :: "char \<Rightarrow> 'd http_parser \<Rightarrow> locals \<Rightarrow> 'd outcome res" where
  "step_req_line_almost_done ch ps l =
     (if ch \<noteq> LF then fail HPE_LF_EXPECTED ps l
      else Inr (Break (ps\<lparr>hp_state := s_header_field_start\<rparr>) l))"

section \<open>Header fields\<close>

definition field_start_state :: "char \<Rightarrow> header_states" where
  "field_start_state c =
     (if c = CHR ''c'' then h_C else if c = CHR ''p'' then h_matching_proxy_connection
      else if c = CHR ''t'' then h_matching_transfer_encoding
      else if c = CHR ''u'' then h_matching_upgrade else h_general)"

definition step_header_field_start :: "char \<Rightarrow> 'd http_parser \<Rightarrow> locals \<Rightarrow> 'd outcome res" where
  "step_header_field_start ch ps l =
     (if ch = CR then Inr (Break (ps\<lparr>hp_state := s_headers_almost_done\<rparr>) l)
      else if ch = LF then Inr (Reexec (ps\<lparr>hp_state := s_headers_almost_done\<rparr>) l)
      else let c = TOKEN ch
      in if c = NUL then fail HPE_INVALID_HEADER_TOKEN ps l
      else Inr (Break (ps\<lparr>hp_index := 0, hp_state := s_header_field,
                          hp_header_state := field_start_state c\<rparr>) (MARK M_header_field l)))"

text \<open>
  \<open>match_step\<close>: the index is advanced, and the character compared with the constant there, whose
  terminating NUL is still in bounds.
\<close>

definition match_step :: "string \<Rightarrow> header_states \<Rightarrow> char \<Rightarrow> 'd http_parser \<Rightarrow> 'd http_parser" where
  "match_step const final c ps =
     (let ps = ps\<lparr>hp_index := hp_index ps + 1\<rparr>; i = unat (hp_index ps)
      in if i > length const \<or> c \<noteq> (const @ [NUL]) ! i then ps\<lparr>hp_header_state := h_general\<rparr>
         else if i = length const - 1 then ps\<lparr>hp_header_state := final\<rparr> else ps)"

definition field_token :: "char \<Rightarrow> char \<Rightarrow> 'd http_parser \<Rightarrow> 'd http_parser res" where
  "field_token ch c ps =
     (let ps1 = ps\<lparr>hp_index := hp_index ps + 1\<rparr>
      in case hp_header_state ps of
        h_general \<Rightarrow> Inr ps
      | h_C \<Rightarrow> Inr (ps1\<lparr>hp_header_state := if c = CHR ''o'' then h_CO else h_general\<rparr>)
      | h_CO \<Rightarrow> Inr (ps1\<lparr>hp_header_state := if c = CHR ''n'' then h_CON else h_general\<rparr>)
      | h_CON \<Rightarrow> Inr (ps1\<lparr>hp_header_state :=
          if c = CHR ''n'' then h_matching_connection
          else if c = CHR ''t'' then h_matching_content_length else h_general\<rparr>)
      | h_matching_connection \<Rightarrow> Inr (match_step ''connection'' h_connection c ps)
      | h_matching_proxy_connection \<Rightarrow> Inr (match_step ''proxy-connection'' h_connection c ps)
      | h_matching_content_length \<Rightarrow> Inr (match_step ''content-length'' h_content_length c ps)
      | h_matching_transfer_encoding \<Rightarrow> Inr (match_step ''transfer-encoding'' h_transfer_encoding c ps)
      | h_matching_upgrade \<Rightarrow> Inr (match_step ''upgrade'' h_upgrade c ps)
      | h_connection \<Rightarrow> Inr (if ch \<noteq> SP then ps\<lparr>hp_header_state := h_general\<rparr> else ps)
      | h_content_length \<Rightarrow> Inr (if ch \<noteq> SP then ps\<lparr>hp_header_state := h_general\<rparr> else ps)
      | h_transfer_encoding \<Rightarrow> Inr (if ch \<noteq> SP then ps\<lparr>hp_header_state := h_general\<rparr> else ps)
      | h_upgrade \<Rightarrow> Inr (if ch \<noteq> SP then ps\<lparr>hp_header_state := h_general\<rparr> else ps)
      | _ \<Rightarrow> Inl Assert_Failed)"

definition step_header_field ::
    "'d http_parser_settings \<Rightarrow> char list \<Rightarrow> char \<Rightarrow> 'd http_parser \<Rightarrow> locals \<Rightarrow> 'd outcome res" where
  "step_header_field S data ch ps l =
     (let c = TOKEN ch
      in if c \<noteq> NUL then rbind (field_token ch c ps) (\<lambda>ps. Inr (Break ps l))
      else if ch = CHR '':'' then CALLBACK_DATA S data M_header_field (ps\<lparr>hp_state := s_header_value_start\<rparr>) l
      else if ch = CR then CALLBACK_DATA S data M_header_field (ps\<lparr>hp_state := s_header_almost_done\<rparr>) l
      else if ch = LF then CALLBACK_DATA S data M_header_field (ps\<lparr>hp_state := s_header_field_start\<rparr>) l
      else fail HPE_INVALID_HEADER_TOKEN ps l)"

definition step_header_value_start ::
    "'d http_parser_settings \<Rightarrow> char list \<Rightarrow> char \<Rightarrow> 'd http_parser \<Rightarrow> locals \<Rightarrow> 'd outcome res" where
  "step_header_value_start S data ch ps l =
     (if ch = SP \<or> ch = TAB then Inr (Break ps l)
      else let l = MARK M_header_value l; ps = ps\<lparr>hp_state := s_header_value, hp_index := 0\<rparr>
      in if ch = CR
      then CALLBACK_DATA S data M_header_value
             (ps\<lparr>hp_header_state := h_general, hp_state := s_header_almost_done\<rparr>) l
      else if ch = LF then CALLBACK_DATA S data M_header_value (ps\<lparr>hp_state := s_header_field_start\<rparr>) l
      else let c = LOWER ch
      in case hp_header_state ps of
        h_upgrade \<Rightarrow>
          Inr (Break (ps\<lparr>hp_flags := insert F_UPGRADE (hp_flags ps), hp_header_state := h_general\<rparr>) l)
      | h_transfer_encoding \<Rightarrow>
          Inr (Break (ps\<lparr>hp_header_state :=
            if c = CHR ''c'' then h_matching_transfer_encoding_chunked else h_general\<rparr>) l)
      | h_content_length \<Rightarrow>
          (if \<not> IS_NUM ch then fail HPE_INVALID_CONTENT_LENGTH ps l
           else Inr (Break (ps\<lparr>hp_content_length := word_of_int (uchar ch - 48)\<rparr>) l))
      | h_connection \<Rightarrow>
          Inr (Break (ps\<lparr>hp_header_state :=
            if c = CHR ''k'' then h_matching_connection_keep_alive
            else if c = CHR ''c'' then h_matching_connection_close else h_general\<rparr>) l)
      | _ \<Rightarrow> Inr (Break (ps\<lparr>hp_header_state := h_general\<rparr>) l))"

text \<open>
  \<open>length_digit\<close>: one more digit of a 64-bit length, with the overflow test of the code: the new value
  is smaller than the old one, or all ones.
\<close>

definition length_digit :: "64 word \<Rightarrow> int \<Rightarrow> 64 word \<Rightarrow> 64 word option" where
  "length_digit base d old =
     (let t = old * base + word_of_int d in if t < old \<or> t = ULLONG_MAX then None else Some t)"

definition value_char :: "char \<Rightarrow> 'd http_parser \<Rightarrow> locals \<Rightarrow> 'd outcome res" where
  "value_char ch ps l =
     (let c = LOWER ch
      in case hp_header_state ps of
        h_general \<Rightarrow> Inr (Break ps l)
      | h_connection \<Rightarrow> Inl Assert_Failed
      | h_transfer_encoding \<Rightarrow> Inl Assert_Failed
      | h_content_length \<Rightarrow>
          (if ch = SP then Inr (Break ps l)
           else if \<not> IS_NUM ch then fail HPE_INVALID_CONTENT_LENGTH ps l
           else case length_digit 10 (uchar ch - 48) (hp_content_length ps) of
             None \<Rightarrow> fail HPE_INVALID_CONTENT_LENGTH ps l
           | Some t \<Rightarrow> Inr (Break (ps\<lparr>hp_content_length := t\<rparr>) l))
      | h_matching_transfer_encoding_chunked \<Rightarrow>
          Inr (Break (match_step ''chunked'' h_transfer_encoding_chunked c ps) l)
      | h_matching_connection_keep_alive \<Rightarrow>
          Inr (Break (match_step ''keep-alive'' h_connection_keep_alive c ps) l)
      | h_matching_connection_close \<Rightarrow> Inr (Break (match_step ''close'' h_connection_close c ps) l)
      | h_transfer_encoding_chunked \<Rightarrow>
          Inr (Break (if ch \<noteq> SP then ps\<lparr>hp_header_state := h_general\<rparr> else ps) l)
      | h_connection_keep_alive \<Rightarrow>
          Inr (Break (if ch \<noteq> SP then ps\<lparr>hp_header_state := h_general\<rparr> else ps) l)
      | h_connection_close \<Rightarrow>
          Inr (Break (if ch \<noteq> SP then ps\<lparr>hp_header_state := h_general\<rparr> else ps) l)
      | _ \<Rightarrow> Inr (Break (ps\<lparr>hp_state := s_header_value, hp_header_state := h_general\<rparr>) l))"

definition step_header_value ::
    "'d http_parser_settings \<Rightarrow> char list \<Rightarrow> char \<Rightarrow> 'd http_parser \<Rightarrow> locals \<Rightarrow> 'd outcome res" where
  "step_header_value S data ch ps l =
     (if ch = CR then CALLBACK_DATA S data M_header_value (ps\<lparr>hp_state := s_header_almost_done\<rparr>) l
      else if ch = LF
      then CALLBACK_DATA_NOADVANCE S data M_header_value (ps\<lparr>hp_state := s_header_almost_done\<rparr>) l
             (\<lambda>ps l. Inr (Reexec ps l))
      else value_char ch ps l)"

definition header_done_flags :: "header_states \<Rightarrow> http_flag set" where
  "header_done_flags h =
     (if h = h_connection_keep_alive then {F_CONNECTION_KEEP_ALIVE}
      else if h = h_connection_close then {F_CONNECTION_CLOSE}
      else if h = h_transfer_encoding_chunked then {F_CHUNKED} else {})"

definition step_header_almost_done :: "char \<Rightarrow> 'd http_parser \<Rightarrow> locals \<Rightarrow> 'd outcome res" where
  "step_header_almost_done ch ps l =
     STRICT_CHECK (ch \<noteq> LF) ps l
       (Inr (Break (ps\<lparr>hp_state := s_header_value_lws,
                       hp_flags := hp_flags ps \<union> header_done_flags (hp_header_state ps)\<rparr>) l))"

definition step_header_value_lws :: "char \<Rightarrow> 'd http_parser \<Rightarrow> locals \<Rightarrow> 'd outcome res" where
  "step_header_value_lws ch ps l =
     (if ch = SP \<or> ch = TAB then Inr (Break (ps\<lparr>hp_state := s_header_value_start\<rparr>) l)
      else Inr (Reexec (ps\<lparr>hp_state := s_header_field_start\<rparr>) l))"

section \<open>The end of the headers\<close>

definition step_headers_almost_done ::
    "'d http_parser_settings \<Rightarrow> char \<Rightarrow> 'd http_parser \<Rightarrow> locals \<Rightarrow> 'd outcome res" where
  "step_headers_almost_done S ch ps l =
     STRICT_CHECK (ch \<noteq> LF) ps l
       (if F_TRAILING \<in> hp_flags ps
        then CALLBACK_NOTIFY (on_message_complete S) HPE_CB_message_complete
               (ps\<lparr>hp_state := NEW_MESSAGE ps\<rparr>) l
        else let ps = ps\<lparr>hp_state := s_headers_done,
                          hp_upgrade := F_UPGRADE \<in> hp_flags ps \<or> hp_method ps = HTTP_CONNECT\<rparr>
        in rbind (case on_headers_complete S of
               None \<Rightarrow> Inr (Inr ps)
             | Some f \<Rightarrow> rbind (f ps) (\<lambda>(d, paused, rc).
                 let ps = ps\<lparr>hp_data := d\<rparr>; ps = (if paused then ps\<lparr>hp_errno := HPE_PAUSED\<rparr> else ps)
                 in Inr (if rc = 0 then Inr ps
                         else if rc = 1 then Inr (ps\<lparr>hp_flags := insert F_SKIPBODY (hp_flags ps)\<rparr>)
                         else Inl (ps\<lparr>hp_errno := HPE_CB_headers_complete\<rparr>))))
           (\<lambda>r. case r of
               Inl ps \<Rightarrow> Inr (Return ps (lp l + 1))
             | Inr ps \<Rightarrow> if hp_errno ps \<noteq> HPE_OK then Inr (Return ps (lp l + 1))
                         else Inr (Reexec ps (l\<lparr>lp := lp l + 1\<rparr>))))"

definition step_headers_done ::
    "'d http_parser_settings \<Rightarrow> 'd http_parser \<Rightarrow> locals \<Rightarrow> 'd outcome res" where
  "step_headers_done S ps l =
     (let l = l\<lparr>lp := lp l - 1\<rparr>; ps = ps\<lparr>hp_nread := 0\<rparr>;
          complete = CALLBACK_NOTIFY (on_message_complete S) HPE_CB_message_complete
                       (ps\<lparr>hp_state := NEW_MESSAGE ps\<rparr>) l
      in if hp_upgrade ps then Inr (Break (ps\<lparr>hp_state := s_body_identity_eof\<rparr>) l)
         else if F_SKIPBODY \<in> hp_flags ps then complete
         else if F_CHUNKED \<in> hp_flags ps then Inr (Break (ps\<lparr>hp_state := s_chunk_size_start\<rparr>) l)
         else if hp_content_length ps = 0 then complete
         else if hp_content_length ps \<noteq> ULLONG_MAX then Inr (Break (ps\<lparr>hp_state := s_body_identity\<rparr>) l)
         else if hp_type ps = HTTP_REQUEST \<or> \<not> http_message_needs_eof ps then complete
         else Inr (Break (ps\<lparr>hp_state := s_body_identity_eof\<rparr>) l))"

section \<open>Bodies\<close>

definition body_to_read :: "char list \<Rightarrow> 'd http_parser \<Rightarrow> locals \<Rightarrow> 64 word" where
  "body_to_read data ps l = min (hp_content_length ps) (word_of_int (int (length data) - lp l))"

definition step_body_identity ::
    "'d http_parser_settings \<Rightarrow> char list \<Rightarrow> 'd http_parser \<Rightarrow> locals \<Rightarrow> 'd outcome res" where
  "step_body_identity S data ps l =
     (let to_read = body_to_read data ps l
      in rbind (cassert (hp_content_length ps \<noteq> 0 \<and> hp_content_length ps \<noteq> ULLONG_MAX)) (\<lambda>_.
      let l = MARK M_body l; ps = ps\<lparr>hp_content_length := hp_content_length ps - to_read\<rparr>;
          l = l\<lparr>lp := lp l + (uint to_read - 1)\<rparr>
      in if hp_content_length ps = 0
         then CALLBACK_DATA_ER S data M_body (\<lambda>at. lp l - at + 1) (lp l) (ps\<lparr>hp_state := s_message_done\<rparr>) l
                (\<lambda>ps l. Inr (Reexec ps l))
         else Inr (Break ps l)))"

definition step_body_identity_eof :: "char list \<Rightarrow> 'd http_parser \<Rightarrow> locals \<Rightarrow> 'd outcome res" where
  "step_body_identity_eof data ps l = Inr (Break ps ((MARK M_body l)\<lparr>lp := int (length data) - 1\<rparr>))"

definition step_message_done ::
    "'d http_parser_settings \<Rightarrow> 'd http_parser \<Rightarrow> locals \<Rightarrow> 'd outcome res" where
  "step_message_done S ps l =
     CALLBACK_NOTIFY (on_message_complete S) HPE_CB_message_complete (ps\<lparr>hp_state := NEW_MESSAGE ps\<rparr>) l"

section \<open>Chunked bodies\<close>

definition unhex_at :: "char \<Rightarrow> int" where
  "unhex_at ch = unhex ! nat (uchar ch)"

definition step_chunk_size_start :: "char \<Rightarrow> 'd http_parser \<Rightarrow> locals \<Rightarrow> 'd outcome res" where
  "step_chunk_size_start ch ps l =
     rbind (cassert (hp_nread ps = 1)) (\<lambda>_.
     rbind (cassert (F_CHUNKED \<in> hp_flags ps)) (\<lambda>_.
     if unhex_at ch = - 1 then fail HPE_INVALID_CHUNK_SIZE ps l
     else Inr (Break (ps\<lparr>hp_content_length := word_of_int (unhex_at ch), hp_state := s_chunk_size\<rparr>) l)))"

definition step_chunk_size :: "char \<Rightarrow> 'd http_parser \<Rightarrow> locals \<Rightarrow> 'd outcome res" where
  "step_chunk_size ch ps l =
     rbind (cassert (F_CHUNKED \<in> hp_flags ps)) (\<lambda>_.
     if ch = CR then Inr (Break (ps\<lparr>hp_state := s_chunk_size_almost_done\<rparr>) l)
     else if unhex_at ch = - 1
     then if ch = CHR '';'' \<or> ch = SP then Inr (Break (ps\<lparr>hp_state := s_chunk_parameters\<rparr>) l)
          else fail HPE_INVALID_CHUNK_SIZE ps l
     else case length_digit 16 (unhex_at ch) (hp_content_length ps) of
       None \<Rightarrow> fail HPE_INVALID_CONTENT_LENGTH ps l
     | Some t \<Rightarrow> Inr (Break (ps\<lparr>hp_content_length := t\<rparr>) l))"

definition step_chunk_parameters :: "char \<Rightarrow> 'd http_parser \<Rightarrow> locals \<Rightarrow> 'd outcome res" where
  "step_chunk_parameters ch ps l =
     rbind (cassert (F_CHUNKED \<in> hp_flags ps)) (\<lambda>_.
     if ch = CR then Inr (Break (ps\<lparr>hp_state := s_chunk_size_almost_done\<rparr>) l) else Inr (Break ps l))"

definition step_chunk_size_almost_done :: "char \<Rightarrow> 'd http_parser \<Rightarrow> locals \<Rightarrow> 'd outcome res" where
  "step_chunk_size_almost_done ch ps l =
     rbind (cassert (F_CHUNKED \<in> hp_flags ps)) (\<lambda>_.
     STRICT_CHECK (ch \<noteq> LF) ps l
       (let ps = ps\<lparr>hp_nread := 0\<rparr>
        in if hp_content_length ps = 0
           then Inr (Break (ps\<lparr>hp_flags := insert F_TRAILING (hp_flags ps), hp_state := s_header_field_start\<rparr>) l)
           else Inr (Break (ps\<lparr>hp_state := s_chunk_data\<rparr>) l)))"

definition step_chunk_data :: "char list \<Rightarrow> 'd http_parser \<Rightarrow> locals \<Rightarrow> 'd outcome res" where
  "step_chunk_data data ps l =
     (let to_read = body_to_read data ps l
      in rbind (cassert (F_CHUNKED \<in> hp_flags ps)) (\<lambda>_.
      rbind (cassert (hp_content_length ps \<noteq> 0 \<and> hp_content_length ps \<noteq> ULLONG_MAX)) (\<lambda>_.
      let l = MARK M_body l; ps = ps\<lparr>hp_content_length := hp_content_length ps - to_read\<rparr>;
          l = l\<lparr>lp := lp l + (uint to_read - 1)\<rparr>
      in if hp_content_length ps = 0 then Inr (Break (ps\<lparr>hp_state := s_chunk_data_almost_done\<rparr>) l)
         else Inr (Break ps l))))"

definition step_chunk_data_almost_done ::
    "'d http_parser_settings \<Rightarrow> char list \<Rightarrow> char \<Rightarrow> 'd http_parser \<Rightarrow> locals \<Rightarrow> 'd outcome res" where
  "step_chunk_data_almost_done S data ch ps l =
     rbind (cassert (F_CHUNKED \<in> hp_flags ps)) (\<lambda>_.
     rbind (cassert (hp_content_length ps = 0)) (\<lambda>_.
     STRICT_CHECK (ch \<noteq> CR) ps l (CALLBACK_DATA S data M_body (ps\<lparr>hp_state := s_chunk_data_done\<rparr>) l)))"

definition step_chunk_data_done :: "char \<Rightarrow> 'd http_parser \<Rightarrow> locals \<Rightarrow> 'd outcome res" where
  "step_chunk_data_done ch ps l =
     rbind (cassert (F_CHUNKED \<in> hp_flags ps)) (\<lambda>_.
     STRICT_CHECK (ch \<noteq> LF) ps l
       (Inr (Break (ps\<lparr>hp_nread := 0, hp_state := s_chunk_size_start\<rparr>) l)))"

section \<open>The switch and the loops\<close>

definition http_step ::
    "'d http_parser_settings \<Rightarrow> char list \<Rightarrow> char \<Rightarrow> 'd http_parser \<Rightarrow> locals \<Rightarrow> 'd outcome res" where
  "http_step S data ch ps l =
     (case hp_state ps of
        s_dead \<Rightarrow> step_dead ch ps l
      | s_start_req_or_res \<Rightarrow> step_start_req_or_res S ch ps l
      | s_res_or_resp_H \<Rightarrow> step_res_or_resp_H ch ps l
      | s_start_res \<Rightarrow> step_start_res S ch ps l
      | s_res_H \<Rightarrow> step_constant (CHR ''T'') s_res_HT ch ps l
      | s_res_HT \<Rightarrow> step_constant (CHR ''T'') s_res_HTT ch ps l
      | s_res_HTT \<Rightarrow> step_constant (CHR ''P'') s_res_HTTP ch ps l
      | s_res_HTTP \<Rightarrow> step_constant (CHR ''/'') s_res_first_http_major ch ps l
      | s_res_first_http_major \<Rightarrow> step_res_first_http_major ch ps l
      | s_res_http_major \<Rightarrow> step_http_major s_res_first_http_minor ch ps l
      | s_res_first_http_minor \<Rightarrow> step_first_http_minor s_res_http_minor ch ps l
      | s_res_http_minor \<Rightarrow> step_res_http_minor ch ps l
      | s_res_first_status_code \<Rightarrow> step_res_first_status_code ch ps l
      | s_res_status_code \<Rightarrow> step_res_status_code ch ps l
      | s_res_status \<Rightarrow> step_res_status ch ps l
      | s_res_line_almost_done \<Rightarrow> step_res_line_almost_done S ch ps l
      | s_start_req \<Rightarrow> step_start_req S ch ps l
      | s_req_method \<Rightarrow> step_req_method ch ps l
      | s_req_spaces_before_url \<Rightarrow> step_req_spaces_before_url ch ps l
      | s_req_schema \<Rightarrow> step_req_schema ch ps l
      | s_req_schema_slash \<Rightarrow> step_req_schema ch ps l
      | s_req_schema_slash_slash \<Rightarrow> step_req_schema ch ps l
      | s_req_server_start \<Rightarrow> step_req_schema ch ps l
      | s_req_server \<Rightarrow> step_req_url S data ch ps l
      | s_req_server_with_at \<Rightarrow> step_req_url S data ch ps l
      | s_req_path \<Rightarrow> step_req_url S data ch ps l
      | s_req_query_string_start \<Rightarrow> step_req_url S data ch ps l
      | s_req_query_string \<Rightarrow> step_req_url S data ch ps l
      | s_req_fragment_start \<Rightarrow> step_req_url S data ch ps l
      | s_req_fragment \<Rightarrow> step_req_url S data ch ps l
      | s_req_http_start \<Rightarrow> step_req_http_start ch ps l
      | s_req_http_H \<Rightarrow> step_constant (CHR ''T'') s_req_http_HT ch ps l
      | s_req_http_HT \<Rightarrow> step_constant (CHR ''T'') s_req_http_HTT ch ps l
      | s_req_http_HTT \<Rightarrow> step_constant (CHR ''P'') s_req_http_HTTP ch ps l
      | s_req_http_HTTP \<Rightarrow> step_constant (CHR ''/'') s_req_first_http_major ch ps l
      | s_req_first_http_major \<Rightarrow> step_req_first_http_major ch ps l
      | s_req_http_major \<Rightarrow> step_http_major s_req_first_http_minor ch ps l
      | s_req_first_http_minor \<Rightarrow> step_first_http_minor s_req_http_minor ch ps l
      | s_req_http_minor \<Rightarrow> step_req_http_minor ch ps l
      | s_req_line_almost_done \<Rightarrow> step_req_line_almost_done ch ps l
      | s_header_field_start \<Rightarrow> step_header_field_start ch ps l
      | s_header_field \<Rightarrow> step_header_field S data ch ps l
      | s_header_value_start \<Rightarrow> step_header_value_start S data ch ps l
      | s_header_value \<Rightarrow> step_header_value S data ch ps l
      | s_header_value_lws \<Rightarrow> step_header_value_lws ch ps l
      | s_header_almost_done \<Rightarrow> step_header_almost_done ch ps l
      | s_chunk_size_start \<Rightarrow> step_chunk_size_start ch ps l
      | s_chunk_size \<Rightarrow> step_chunk_size ch ps l
      | s_chunk_parameters \<Rightarrow> step_chunk_parameters ch ps l
      | s_chunk_size_almost_done \<Rightarrow> step_chunk_size_almost_done ch ps l
      | s_headers_almost_done \<Rightarrow> step_headers_almost_done S ch ps l
      | s_headers_done \<Rightarrow> step_headers_done S ps l
      | s_chunk_data \<Rightarrow> step_chunk_data data ps l
      | s_chunk_data_almost_done \<Rightarrow> step_chunk_data_almost_done S data ch ps l
      | s_chunk_data_done \<Rightarrow> step_chunk_data_done ch ps l
      | s_body_identity \<Rightarrow> step_body_identity S data ps l
      | s_body_identity_eof \<Rightarrow> step_body_identity_eof data ps l
      | s_message_done \<Rightarrow> step_message_done S ps l)"

fun reexecute_byte ::
    "nat \<Rightarrow> 'd http_parser_settings \<Rightarrow> char list \<Rightarrow> char \<Rightarrow> 'd http_parser \<Rightarrow> locals
      \<Rightarrow> 'd outcome res option" where
  "reexecute_byte 0 S data ch ps l = None"
| "reexecute_byte (Suc fuel) S data ch ps l =
     (case http_step S data ch ps l of
        Inl e \<Rightarrow> Some (Inl e)
      | Inr r \<Rightarrow> (case r of Reexec ps' l' \<Rightarrow> reexecute_byte fuel S data ch ps' l' | _ \<Rightarrow> Some (Inr r)))"

definition count_nread :: "'d http_parser \<Rightarrow> 'd http_parser" where
  "count_nread ps = (if PARSING_HEADER (hp_state ps) then ps\<lparr>hp_nread := hp_nread ps + 1\<rparr> else ps)"

fun execute_loop ::
    "nat \<Rightarrow> 'd http_parser_settings \<Rightarrow> char list \<Rightarrow> 'd http_parser \<Rightarrow> locals
      \<Rightarrow> 'd outcome res option" where
  "execute_loop 0 S data ps l = None"
| "execute_loop (Suc fuel) S data ps l =
     (if lp l = int (length data) then Some (Inr (Break ps l))
      else if lp l < 0 \<or> lp l > int (length data) then Some (Inl Out_Of_Bounds)
      else let ch = data ! nat (lp l); ps' = count_nread ps
      in if PARSING_HEADER (hp_state ps) \<and> hp_nread ps' > HTTP_MAX_HEADER_SIZE
      then Some (fail HPE_HEADER_OVERFLOW ps' l)
      else case reexecute_byte 5 S data ch ps' l of
        None \<Rightarrow> None
      | Some (Inl e) \<Rightarrow> Some (Inl e)
      | Some (Inr r) \<Rightarrow> (case r of
          Break ps2 l2 \<Rightarrow> execute_loop fuel S data ps2 (l2\<lparr>lp := lp l2 + 1\<rparr>)
        | _ \<Rightarrow> Some (Inr r)))"

definition url_state :: "state \<Rightarrow> bool" where
  "url_state s \<longleftrightarrow> s \<in> {s_req_path, s_req_schema, s_req_schema_slash, s_req_schema_slash_slash,
     s_req_server_start, s_req_server, s_req_server_with_at, s_req_query_string_start,
     s_req_query_string, s_req_fragment_start, s_req_fragment}"

definition init_locals :: "state \<Rightarrow> locals" where
  "init_locals s =
     \<lparr>lp = 0,
      header_field_mark = (if s = s_header_field then Some 0 else None),
      header_value_mark = (if s = s_header_value then Some 0 else None),
      url_mark = (if url_state s then Some 0 else None),
      body_mark = None\<rparr>"

definition mark_count :: "locals \<Rightarrow> nat" where
  "mark_count l =
     (if header_field_mark l \<noteq> None then 1 else 0) + (if header_value_mark l \<noteq> None then 1 else 0)
     + (if url_mark l \<noteq> None then 1 else 0) + (if body_mark l \<noteq> None then 1 else 0)"

text \<open>The callbacks for marks left over when the input ran out.\<close>

definition execute_finish ::
    "'d http_parser_settings \<Rightarrow> char list \<Rightarrow> 'd http_parser \<Rightarrow> locals \<Rightarrow> 'd outcome res" where
  "execute_finish S data ps l =
     rbind (cassert (mark_count l \<le> 1)) (\<lambda>_.
     CALLBACK_DATA_NOADVANCE S data M_header_field ps l (\<lambda>ps l.
     CALLBACK_DATA_NOADVANCE S data M_header_value ps l (\<lambda>ps l.
     CALLBACK_DATA_NOADVANCE S data M_url ps l (\<lambda>ps l.
     CALLBACK_DATA_NOADVANCE S data M_body ps l (\<lambda>ps l.
     Inr (Return ps (int (length data))))))))"

text \<open>The label \<^verbatim>\<open>error\<close>.\<close>

definition error_errno :: "'d http_parser \<Rightarrow> 'd http_parser" where
  "error_errno ps = (if hp_errno ps = HPE_OK then ps\<lparr>hp_errno := HPE_UNKNOWN\<rparr> else ps)"

primrec finish_outcome :: "'d outcome \<Rightarrow> ('d http_parser \<times> int) res" where
  "finish_outcome (Break ps l) = Inr (ps, lp l)"
| "finish_outcome (Reexec ps l) = Inr (ps, lp l)"
| "finish_outcome (Return ps n) = Inr (ps, n)"
| "finish_outcome (Error ps n) = Inr (error_errno ps, n)"

definition execute_eof ::
    "'d http_parser_settings \<Rightarrow> 'd http_parser \<Rightarrow> ('d http_parser \<times> int) res" where
  "execute_eof S ps =
     (if hp_state ps = s_headers_done \<or> hp_state ps = s_body_identity_eof
      then rbind (CALLBACK_NOTIFY_ER (on_message_complete S) HPE_CB_message_complete 0 ps
                    (\<lambda>ps. Inr (Return ps 0))) finish_outcome
      else if hp_state ps \<in> {s_dead, s_start_req_or_res, s_start_res, s_start_req} then Inr (ps, 0)
      else Inr (ps\<lparr>hp_errno := HPE_INVALID_EOF_STATE\<rparr>, 1))"

definition http_parser_execute ::
    "'d http_parser_settings \<Rightarrow> char list \<Rightarrow> 'd http_parser \<Rightarrow> ('d http_parser \<times> int) res option" where
  "http_parser_execute S data ps =
     (if hp_errno ps \<noteq> HPE_OK then Some (Inr (ps, 0))
      else if data = [] then Some (execute_eof S ps)
      else case execute_loop (length data + 2) S data ps (init_locals (hp_state ps)) of
        None \<Rightarrow> None
      | Some (Inl e) \<Rightarrow> Some (Inl e)
      | Some (Inr r) \<Rightarrow> Some (case r of
          Break ps' l \<Rightarrow> rbind (execute_finish S data ps' l) finish_outcome
        | _ \<Rightarrow> finish_outcome r))"

end
