(* ===== verification/Http_Parser_Inv.thy ===== *)
theory Http_Parser_Inv
  imports Http_Parser
begin

text \<open>
  The invariant of the HTTP parser and the contract of its callbacks.  The contract between the parser
  and the object its callbacks work on is the locale \<open>http_callbacks\<close>; this theory proves inside it that
  every step of the request and status line keeps the invariant.
\<close>

section \<open>States, phases and the parser's invariant\<close>

definition idle_states :: "state set" where
  "idle_states = {s_dead, s_start_req_or_res, s_start_res, s_start_req}"

definition chunk_states :: "state set" where
  "chunk_states = {s_chunk_size_start, s_chunk_size, s_chunk_parameters, s_chunk_size_almost_done,
     s_chunk_data, s_chunk_data_almost_done, s_chunk_data_done}"

definition body_states :: "state set" where
  "body_states = chunk_states \<union> {s_headers_done, s_body_identity, s_body_identity_eof, s_message_done}"

definition header_line_states :: "state set" where
  "header_line_states = {s_header_field_start, s_header_field, s_header_value_start, s_header_value,
     s_header_value_lws, s_header_almost_done, s_headers_almost_done}"

text \<open>The states of a header line behind the name of the header.\<close>

definition value_states :: "state set" where
  "value_states = {s_header_value_start, s_header_value, s_header_value_lws, s_header_almost_done}"

lemmas state_sets = idle_states_def chunk_states_def body_states_def header_line_states_def value_states_def

text \<open>Where in a message the user of the parser is: the headers of a chunked trailer count as body.\<close>

datatype phase = Idle | Head | Body

definition phase_of :: "'d http_parser \<Rightarrow> phase" where
  "phase_of ps =
     (if hp_state ps \<in> idle_states then Idle
      else if hp_state ps \<in> body_states then Body
      else if F_TRAILING \<in> hp_flags ps then Body else Head)"

definition field_hs :: "header_states set" where
  "field_hs = {h_general, h_C, h_CO, h_CON, h_matching_connection, h_matching_proxy_connection,
     h_matching_content_length, h_matching_transfer_encoding, h_matching_upgrade, h_connection,
     h_content_length, h_transfer_encoding, h_upgrade}"

text \<open>
  What every assertion and array access of the parser relies on.  \<open>n\<close> is the byte count a chunk-size line
  starts with: 0 between bytes, 1 once the current byte is counted.
\<close>

definition hp_wf :: "32 word \<Rightarrow> 'd http_parser \<Rightarrow> bool" where
  "hp_wf n ps \<longleftrightarrow>
     (hp_state ps \<in> chunk_states \<longrightarrow> F_CHUNKED \<in> hp_flags ps)
   \<and> (hp_state ps = s_chunk_size_start \<longrightarrow> hp_nread ps = n)
   \<and> (hp_state ps \<in> {s_body_identity, s_chunk_data} \<longrightarrow>
        hp_content_length ps \<noteq> 0 \<and> hp_content_length ps \<noteq> ULLONG_MAX)
   \<and> (hp_state ps = s_chunk_data_almost_done \<longrightarrow> hp_content_length ps = 0)
   \<and> (hp_state ps \<in> {s_chunk_size, s_chunk_parameters, s_chunk_size_almost_done} \<longrightarrow>
        hp_content_length ps \<noteq> ULLONG_MAX)
   \<and> (hp_state ps = s_header_field \<longrightarrow> hp_header_state ps \<in> field_hs)
   \<and> (hp_state ps = s_header_value \<longrightarrow> hp_header_state ps \<notin> {h_connection, h_transfer_encoding})
   \<and> (hp_state ps = s_req_method \<longrightarrow> unat (hp_index ps) \<le> length (method_strings (hp_method ps)))
   \<and> (hp_state ps \<notin> idle_states \<union> body_states \<union> header_line_states \<longrightarrow> F_TRAILING \<notin> hp_flags ps)"

text \<open>A mark is set only in the states whose text it marks, and lies before the cursor.\<close>

definition marks_ok :: "state \<Rightarrow> locals \<Rightarrow> bool" where
  "marks_ok s l \<longleftrightarrow>
     (\<forall>m. header_field_mark l = Some m \<longrightarrow> s = s_header_field \<and> 0 \<le> m \<and> m \<le> lp l)
   \<and> (\<forall>m. header_value_mark l = Some m \<longrightarrow> s = s_header_value \<and> 0 \<le> m \<and> m \<le> lp l)
   \<and> (\<forall>m. url_mark l = Some m \<longrightarrow> url_state s \<and> 0 \<le> m \<and> m \<le> lp l)
   \<and> (\<forall>m. body_mark l = Some m \<longrightarrow>
        s \<in> {s_body_identity, s_body_identity_eof, s_chunk_data, s_chunk_data_almost_done}
        \<and> 0 \<le> m \<and> m < lp l)"

text \<open>How often the switch may still be executed for the current byte, and how far the cursor has come.\<close>

definition rank :: "state \<Rightarrow> nat" where
  "rank s = (if s = s_header_value_lws then 4 else if s = s_header_field_start then 3
     else if s \<in> {s_headers_almost_done, s_header_value, s_start_req_or_res, s_body_identity} then 2 else 1)"

definition cursor :: "state \<Rightarrow> locals \<Rightarrow> int" where
  "cursor s l = (if s = s_headers_done then lp l - 1 else lp l)"

section \<open>The contract of the callbacks\<close>

definition notify_ok :: "'d http_cb option \<Rightarrow> ('d \<Rightarrow> bool) \<Rightarrow> ('d \<Rightarrow> bool) \<Rightarrow> bool" where
  "notify_ok cb P Q \<longleftrightarrow> (\<forall>ps. P (hp_data ps) \<longrightarrow>
     (case cb of None \<Rightarrow> Q (hp_data ps) | Some f \<Rightarrow> \<exists>d pz rc. f ps = Inr (d, pz, rc) \<and> Q d))"

definition data_ok :: "'d http_data_cb option \<Rightarrow> (char list \<Rightarrow> bool) \<Rightarrow> ('d \<Rightarrow> bool) \<Rightarrow> ('d \<Rightarrow> bool) \<Rightarrow> bool" where
  "data_ok cb N P Q \<longleftrightarrow> (\<forall>ps bs. P (hp_data ps) \<longrightarrow> N bs \<longrightarrow>
     (case cb of None \<Rightarrow> Q (hp_data ps) | Some f \<Rightarrow> \<exists>d pz rc. f ps bs = Inr (d, pz, rc) \<and> Q d))"

text \<open>
  \<open>I ph\<close> is what the user's object satisfies in phase \<open>ph\<close>, \<open>F ph\<close> what it satisfies once it has been given the
  name of a header whose value may follow; each callback takes one phase to another.
\<close>

locale http_callbacks =
  fixes S :: "'d http_parser_settings"
    and I :: "phase \<Rightarrow> 'd \<Rightarrow> bool"
    and F :: "phase \<Rightarrow> 'd \<Rightarrow> bool"
  assumes message_begin_law: "notify_ok (on_message_begin S) (I Idle) (I Head)"
    and url_law: "data_ok (on_url S) (\<lambda>_. True) (I Head) (I Head)"
    and status_law: "notify_ok (on_status_complete S) (I Head) (I Head)"
    and field_law: "ph \<noteq> Idle \<Longrightarrow> data_ok (on_header_field S) (\<lambda>_. True) (I ph) (F ph)"
    and value_law: "ph \<noteq> Idle \<Longrightarrow> data_ok (on_header_value S) (\<lambda>_. True) (F ph) (F ph)"
    and named_law: "F ph d \<Longrightarrow> I ph d"
    and headers_complete_law: "notify_ok (on_headers_complete S) (I Head) (I Body)"
    and body_law: "data_ok (on_body S) (\<lambda>bs. bs \<noteq> []) (I Body) (I Body)"
    and message_complete_law: "notify_ok (on_message_complete S) (I Body) (I Idle)"
begin

definition pinv :: "32 word \<Rightarrow> 'd http_parser \<Rightarrow> bool" where
  "pinv n ps \<longleftrightarrow> hp_wf n ps \<and> I (phase_of ps) (hp_data ps) \<and> (hp_state ps \<in> value_states \<longrightarrow> F (phase_of ps) (hp_data ps))
     \<and> (hp_type ps = HTTP_REQUEST \<and> hp_state ps \<notin> {s_start_req_or_res, s_start_res, s_res_or_resp_H}
        \<or> (\<forall>d. I Head d \<longrightarrow> I Idle d))"

definition pre :: "char list \<Rightarrow> 'd http_parser \<Rightarrow> locals \<Rightarrow> bool" where
  "pre data ps l \<longleftrightarrow> hp_errno ps = HPE_OK \<and> pinv 1 ps \<and> marks_ok (hp_state ps) l
     \<and> (hp_state ps = s_header_field \<longrightarrow> header_field_mark l \<noteq> None)
     \<and> 0 \<le> lp l \<and> lp l \<le> int (length data) \<and> (lp l = int (length data) \<longrightarrow> hp_state ps = s_headers_done)
     \<and> int (length data) < 2 ^ 63"

text \<open>What an outcome of the switch must satisfy when it was entered in state \<open>s0\<close> with cursor \<open>c0\<close>.\<close>

primrec good :: "char list \<Rightarrow> state \<Rightarrow> int \<Rightarrow> 'd outcome \<Rightarrow> bool" where
  "good data s0 c0 (Break ps l) \<longleftrightarrow>
     hp_errno ps = HPE_OK \<and> pinv 0 ps \<and> marks_ok (hp_state ps) (l\<lparr>lp := lp l + 1\<rparr>)
     \<and> (hp_state ps = s_header_field \<longrightarrow> header_field_mark l \<noteq> None)
     \<and> c0 \<le> lp l \<and> lp l < int (length data) \<and> hp_state ps \<noteq> s_headers_done"
| "good data s0 c0 (Reexec ps l) \<longleftrightarrow>
     pre data ps l \<and> rank (hp_state ps) < rank s0 \<and> c0 \<le> cursor (hp_state ps) l"
| "good data s0 c0 (Return ps n) \<longleftrightarrow>
     hp_errno ps \<noteq> HPE_OK \<and> (hp_errno ps = HPE_PAUSED \<longrightarrow> pinv 0 ps) \<and> 0 \<le> n \<and> n \<le> int (length data)"
| "good data s0 c0 (Error ps n) \<longleftrightarrow>
     hp_errno ps \<noteq> HPE_PAUSED \<and> 0 \<le> n \<and> n \<le> int (length data)"

definition good_res :: "char list \<Rightarrow> state \<Rightarrow> int \<Rightarrow> 'd outcome res \<Rightarrow> bool" where
  "good_res data s0 c0 r \<longleftrightarrow> (\<exists>x. r = Inr x \<and> good data s0 c0 x)"

lemma good_resI [intro]: "good data s0 c0 x \<Longrightarrow> good_res data s0 c0 (Inr x)"
  by (simp add: good_res_def)

lemma good_res_Inr [simp]: "good_res data s0 c0 (Inr x) = good data s0 c0 x"
  by (simp add: good_res_def)

lemma fail_good [simp]:
  "e \<noteq> HPE_PAUSED \<Longrightarrow> 0 \<le> lp l \<Longrightarrow> lp l \<le> int (length data) \<Longrightarrow> good_res data s0 c0 (fail e ps l)"
  by (simp add: fail_def)

lemma pinv_errno [simp]: "pinv n (ps\<lparr>hp_errno := e\<rparr>) = pinv n ps"
  by (simp add: pinv_def hp_wf_def phase_of_def)

lemma notify_good:
  assumes "hp_errno ps = HPE_OK" and "notify_ok cb P Q" and "P (hp_data ps)"
    and "0 \<le> er" and "er \<le> int (length data)" and "e \<noteq> HPE_OK" and "e \<noteq> HPE_PAUSED"
    and inv: "\<And>d. Q d \<Longrightarrow> pinv 0 (ps\<lparr>hp_data := d\<rparr>)"
    and k: "\<And>d. Q d \<Longrightarrow> good_res data s0 c0 (k (ps\<lparr>hp_data := d\<rparr>))"
  shows "good_res data s0 c0 (CALLBACK_NOTIFY_ER cb e er ps k)"
proof (cases cb)
  case None
  then have "Q (hp_data ps)" using assms(2,3) by (auto simp: notify_ok_def)
  from k [OF this] show ?thesis using None assms(1) by (simp add: CALLBACK_NOTIFY_ER_def)
next
  case (Some f)
  then obtain d pz rc where f: "f ps = Inr (d, pz, rc)" and Q: "Q d"
    using assms(2,3) by (fastforce simp: notify_ok_def)
  show ?thesis
    using Some f Q assms k [OF Q] inv [OF Q]
    by (auto simp: CALLBACK_NOTIFY_ER_def after_cb_def Let_def)
qed

text \<open>For any postcondition \<open>Q\<close> that a failed or pausing callback's \<^verbatim>\<open>return\<close> meets.\<close>

lemma data_gen:
  assumes "hp_errno ps = HPE_OK" and "data_ok (mark_cb m S) N P R" and "P (hp_data ps)"
    and marked: "get_mark m l \<noteq> None \<or> P = R"
    and rng: "\<And>at. get_mark m l = Some at \<Longrightarrow>
      0 \<le> at \<and> 0 \<le> len at \<and> at + len at \<le> int (length data) \<and> (N = (\<lambda>_. True) \<or> N = (\<lambda>bs. bs \<noteq> []) \<and> 0 < len at)"
    and ret: "\<And>ps'. hp_errno ps' \<noteq> HPE_OK \<Longrightarrow> (hp_errno ps' = HPE_PAUSED \<Longrightarrow> pinv 0 ps') \<Longrightarrow> Q (Inr (Return ps' er))"
    and inv: "\<And>d. R d \<Longrightarrow> pinv 0 (ps\<lparr>hp_data := d\<rparr>)"
    and k: "\<And>d. R d \<Longrightarrow> Q (k (ps\<lparr>hp_data := d\<rparr>) (set_mark m None l))"
  shows "Q (CALLBACK_DATA_ER S data m len er ps l k)"
proof -
  have e: "mark_errno m \<noteq> HPE_OK" "mark_errno m \<noteq> HPE_PAUSED" by (cases m; simp)+
  have id: "get_mark m l = None \<Longrightarrow> set_mark m None l = l" by (cases m; simp)
  have k0: "Q (k ps (set_mark m None l))" if "R (hp_data ps)" using k [OF that] by simp
  show ?thesis
  proof (cases "get_mark m l")
    case None
    then show ?thesis using k0 id assms(1,3) marked by (simp add: CALLBACK_DATA_ER_def)
  next
    case (Some at)
    let ?bs = "take (nat (len at)) (drop (nat at) data)"
    note r = rng [OF Some]
    have "N ?bs" using r by auto
    note law = assms(2) [unfolded data_ok_def, rule_format, OF assms(3) this]
    show ?thesis
    proof (cases "mark_cb m S")
      case None
      then show ?thesis using Some k0 law assms(1) by (simp add: CALLBACK_DATA_ER_def)
    next
      case (Some f)
      have mr: "mem_read data at (len at) = Inr ?bs" using r by (simp add: mem_read_def)
      obtain d pz rc where f: "f ps ?bs = Inr (d, pz, rc)" and P: "R d" using law Some by auto
      show ?thesis
        using Some \<open>get_mark m l = Some at\<close> f mr P assms(1) e k [OF P] inv [OF P]
        by (auto simp: CALLBACK_DATA_ER_def after_cb_def Let_def intro!: ret)
    qed
  qed
qed

lemma data_good:
  assumes "hp_errno ps = HPE_OK" and "data_ok (mark_cb m S) N P R" and "P (hp_data ps)"
    and "get_mark m l \<noteq> None \<or> P = R"
    and "\<And>at. get_mark m l = Some at \<Longrightarrow>
      0 \<le> at \<and> 0 \<le> len at \<and> at + len at \<le> int (length data) \<and> (N = (\<lambda>_. True) \<or> N = (\<lambda>bs. bs \<noteq> []) \<and> 0 < len at)"
    and "0 \<le> er" and "er \<le> int (length data)"
    and "\<And>d. R d \<Longrightarrow> pinv 0 (ps\<lparr>hp_data := d\<rparr>)"
    and "\<And>d. R d \<Longrightarrow> good_res data s0 c0 (k (ps\<lparr>hp_data := d\<rparr>) (set_mark m None l))"
  shows "good_res data s0 c0 (CALLBACK_DATA_ER S data m len er ps l k)"
  by (rule data_gen [OF assms(1-5)]) (use assms(6-9) in auto)

lemmas inv_defs = pre_def pinv_def hp_wf_def phase_of_def state_sets marks_ok_def url_state_def

lemma step_dead_good:
  "pre data ps l \<Longrightarrow> hp_state ps = s_dead \<Longrightarrow> good_res data s0 (lp l) (step_dead ch ps l)"
  by (auto simp: step_dead_def inv_defs)

lemma step_start_req_or_res_good:
  assumes "pre data ps l" "hp_state ps = s_start_req_or_res"
  shows "good_res data s_start_req_or_res (lp l) (step_start_req_or_res S ch ps l)"
  unfolding step_start_req_or_res_def CALLBACK_NOTIFY_def Let_def
  using assms by (auto intro!: notify_good [OF _ message_begin_law] simp: inv_defs rank_def cursor_def)

lemma step_res_or_resp_H_good:
  "pre data ps l \<Longrightarrow> hp_state ps = s_res_or_resp_H \<Longrightarrow> good_res data s0 (lp l) (step_res_or_resp_H ch ps l)"
  by (auto simp: step_res_or_resp_H_def inv_defs)

lemma step_start_res_good:
  assumes "pre data ps l" "hp_state ps = s_start_res"
  shows "good_res data s0 (lp l) (step_start_res S ch ps l)"
  unfolding step_start_res_def CALLBACK_NOTIFY_def Let_def
  using assms by (auto intro!: notify_good [OF _ message_begin_law] simp: inv_defs)

text \<open>
  The states of the request and status line that hold no mark and no matcher: a step among them that
  touches nothing but the line's numbers is safe.
\<close>

definition plain :: "state \<Rightarrow> bool" where
  "plain s \<longleftrightarrow> s \<in> {s_res_H, s_res_HT, s_res_HTT, s_res_HTTP, s_res_first_http_major, s_res_http_major,
     s_res_first_http_minor, s_res_http_minor, s_res_first_status_code, s_res_status_code, s_res_status,
     s_res_line_almost_done, s_req_spaces_before_url, s_req_http_start, s_req_http_H, s_req_http_HT,
     s_req_http_HTT, s_req_http_HTTP, s_req_first_http_major, s_req_http_major, s_req_first_http_minor,
     s_req_http_minor, s_req_line_almost_done}"

lemma plainD:
  "plain s \<Longrightarrow> s \<notin> idle_states \<and> s \<notin> body_states \<and> s \<notin> chunk_states \<and> s \<notin> header_line_states \<and> \<not> url_state s
     \<and> s \<notin> value_states \<and> s \<notin> {s_req_method, s_res_or_resp_H, s_header_field}"
  by (auto simp: plain_def state_sets url_state_def)

lemma plain_not:
  "\<not> plain s_start_req_or_res" "\<not> plain s_start_res" "\<not> plain s_res_or_resp_H" "\<not> plain s_headers_done"
  "\<not> plain s_header_field"
  by (simp_all add: plain_def)

lemma plain_members: "plain s_res_status" "plain s_res_line_almost_done"
  by (simp_all add: plain_def)

lemma hp_wf_line:
  "s \<notin> idle_states \<union> body_states \<union> header_line_states \<union> {s_req_method} \<Longrightarrow> hp_state ps = s \<Longrightarrow>
     hp_wf n ps \<longleftrightarrow> F_TRAILING \<notin> hp_flags ps"
  by (auto simp: hp_wf_def state_sets)

lemma marks_ok_none:
  "s \<notin> body_states \<union> header_line_states \<Longrightarrow> \<not> url_state s \<Longrightarrow>
     marks_ok s l \<longleftrightarrow> header_field_mark l = None \<and> header_value_mark l = None \<and> url_mark l = None \<and> body_mark l = None"
  by (auto simp: marks_ok_def state_sets)

lemma header_field_start_sets: "s_header_field_start \<notin> idle_states \<union> body_states \<union> value_states"
  by (simp add: state_sets)

lemma line_pinv:
  assumes "plain (hp_state ps) \<or> hp_state ps = s_header_field_start" and "F_TRAILING \<notin> hp_flags ps"
    and "I Head (hp_data ps)" and "hp_type ps = HTTP_REQUEST \<or> (\<forall>d. I Head d \<longrightarrow> I Idle d)"
  shows "pinv n ps \<and> hp_state ps \<noteq> s_headers_done"
proof -
  have wf: "hp_wf n ps"
  proof (cases "plain (hp_state ps)")
    case True
    then show ?thesis using plainD [OF True] hp_wf_line [OF _ refl, of ps n] assms(2) by auto
  next
    case False
    then show ?thesis using assms(1) by (simp add: hp_wf_def state_sets)
  qed
  have "hp_state ps \<notin> idle_states \<union> body_states \<union> value_states"
    using assms(1) plainD [of "hp_state ps"] header_field_start_sets by auto
  then have "phase_of ps = Head" "hp_state ps \<notin> value_states" using assms(2) by (simp_all add: phase_of_def)
  moreover have "hp_state ps \<notin> {s_start_req_or_res, s_start_res, s_res_or_resp_H, s_headers_done}"
    using assms(1) plain_not by auto
  ultimately show ?thesis using wf assms(3,4) by (auto simp: pinv_def)
qed

lemma plain_good:
  assumes p: "pre data ps l" "plain (hp_state ps)" and q: "plain (hp_state ps') \<or> hp_state ps' = s_header_field_start"
    and eq: "hp_flags ps' = hp_flags ps" "hp_data ps' = hp_data ps" "hp_type ps' = hp_type ps" "hp_errno ps' = hp_errno ps"
  shows "good data s0 (lp l) (Break ps' l)"
proof -
  note ps = plainD [OF p(2)]
  have tr: "F_TRAILING \<notin> hp_flags ps" using p(1) ps hp_wf_line [OF _ refl, of ps 1] by (auto simp: pre_def pinv_def)
  have m: "header_field_mark l = None" "header_value_mark l = None" "url_mark l = None" "body_mark l = None"
    using p(1) ps marks_ok_none [of "hp_state ps" l] by (auto simp: pre_def)
  have I: "I Head (hp_data ps)" using p(1) ps tr by (auto simp: pre_def pinv_def phase_of_def)
  have "hp_type ps = HTTP_REQUEST \<or> (\<forall>d. I Head d \<longrightarrow> I Idle d)" using p(1) by (auto simp: pre_def pinv_def)
  then have "pinv 0 ps' \<and> hp_state ps' \<noteq> s_headers_done" using q tr I eq by (intro line_pinv) auto
  moreover have "marks_ok (hp_state ps') (l\<lparr>lp := lp l + 1\<rparr>)" using m by (simp add: marks_ok_def)
  moreover have "lp l < int (length data)" using p plain_not by (auto simp: pre_def)
  moreover have "hp_state ps' \<noteq> s_header_field" using q plain_not by auto
  ultimately show ?thesis using p(1) eq(4) by (simp add: pre_def)
qed

lemma pre_facts:
  "pre data ps l \<Longrightarrow> 0 \<le> lp l \<and> lp l \<le> int (length data) \<and> hp_errno ps = HPE_OK"
  by (simp add: pre_def)

lemma pre_fail: "pre data ps l \<Longrightarrow> e \<noteq> HPE_PAUSED \<Longrightarrow> lp l' = lp l \<Longrightarrow> good_res data s0 c0 (fail e ps' l')"
  by (simp add: pre_def)

lemma step_constant_good:
  "pre data ps l \<Longrightarrow> plain (hp_state ps) \<Longrightarrow> plain nxt \<Longrightarrow> good_res data s0 (lp l) (step_constant want nxt ch ps l)"
  by (auto simp: step_constant_def STRICT_CHECK_def intro!: plain_good pre_fail simp del: good.simps fail_good)

lemma step_first_http_major_good:
  "pre data ps l \<Longrightarrow> plain (hp_state ps) \<Longrightarrow> good_res data s0 (lp l) (step_res_first_http_major ch ps l)"
  "pre data ps l \<Longrightarrow> plain (hp_state ps) \<Longrightarrow> good_res data s0 (lp l) (step_req_first_http_major ch ps l)"
  by (auto simp: step_res_first_http_major_def step_req_first_http_major_def plain_def [of s_res_http_major]
      plain_def [of s_req_http_major] intro!: plain_good pre_fail simp del: good.simps fail_good)

lemma step_http_major_good:
  "pre data ps l \<Longrightarrow> plain (hp_state ps) \<Longrightarrow> plain nxt \<Longrightarrow> good_res data s0 (lp l) (step_http_major nxt ch ps l)"
  by (auto simp: step_http_major_def Let_def intro!: plain_good pre_fail simp del: good.simps fail_good)

lemma step_first_http_minor_good:
  "pre data ps l \<Longrightarrow> plain (hp_state ps) \<Longrightarrow> plain nxt \<Longrightarrow> good_res data s0 (lp l) (step_first_http_minor nxt ch ps l)"
  by (auto simp: step_first_http_minor_def intro!: plain_good pre_fail simp del: good.simps fail_good)

lemma step_http_minor_good:
  "pre data ps l \<Longrightarrow> plain (hp_state ps) \<Longrightarrow> good_res data s0 (lp l) (step_res_http_minor ch ps l)"
  "pre data ps l \<Longrightarrow> plain (hp_state ps) \<Longrightarrow> good_res data s0 (lp l) (step_req_http_minor ch ps l)"
  by (auto simp: step_res_http_minor_def step_req_http_minor_def step_http_minor_digit_def Let_def
      plain_def [of s_res_first_status_code] plain_def [of s_req_line_almost_done]
      intro!: plain_good pre_fail simp del: good.simps fail_good)

lemma step_res_first_status_code_good:
  "pre data ps l \<Longrightarrow> plain (hp_state ps) \<Longrightarrow> good_res data s0 (lp l) (step_res_first_status_code ch ps l)"
  by (auto simp: step_res_first_status_code_def plain_def [of s_res_status_code]
      intro!: plain_good pre_fail simp del: good.simps fail_good)

lemma step_res_status_code_good:
  "pre data ps l \<Longrightarrow> plain (hp_state ps) \<Longrightarrow> good_res data s0 (lp l) (step_res_status_code ch ps l)"
  unfolding step_res_status_code_def Let_def
  by (simp del: good.simps fail_good, intro conjI impI;
      (erule (1) plain_good | erule pre_fail); simp add: plain_members)

lemma step_res_status_good:
  "pre data ps l \<Longrightarrow> plain (hp_state ps) \<Longrightarrow> good_res data s0 (lp l) (step_res_status ch ps l)"
  by (auto simp: step_res_status_def plain_def [of s_res_line_almost_done]
      intro!: plain_good simp del: good.simps)

lemma step_req_line_good:
  "pre data ps l \<Longrightarrow> plain (hp_state ps) \<Longrightarrow> good_res data s0 (lp l) (step_req_http_start ch ps l)"
  "pre data ps l \<Longrightarrow> plain (hp_state ps) \<Longrightarrow> good_res data s0 (lp l) (step_req_line_almost_done ch ps l)"
  by (auto simp: step_req_http_start_def step_req_line_almost_done_def plain_def [of s_req_http_H]
      intro!: plain_good pre_fail simp del: good.simps fail_good)

lemma step_res_line_almost_done_good:
  assumes "pre data ps l" "hp_state ps = s_res_line_almost_done"
  shows "good_res data s0 (lp l) (step_res_line_almost_done S ch ps l)"
  unfolding step_res_line_almost_done_def STRICT_CHECK_def CALLBACK_NOTIFY_def
  using assms by (auto intro!: notify_good [OF _ status_law] simp: inv_defs)

text \<open>The request line.\<close>

lemma method_length: "2 < length (method_strings m) \<and> length (method_strings m) < 20"
  by (cases m) simp_all

lemma method_strings_no_nul: "NUL \<notin> set (method_strings m)"
  by (cases m) simp_all

lemma step_start_req_good:
  assumes "pre data ps l" "hp_state ps = s_start_req"
  shows "good_res data s0 (lp l) (step_start_req S ch ps l)"
proof (cases "first_method ch")
  case None
  then show ?thesis using assms by (auto simp: step_start_req_def Let_def inv_defs)
next
  case (Some m)
  have "Suc 0 \<le> length (method_strings m)" using method_length [of m] by simp
  then show ?thesis
    using assms Some unfolding step_start_req_def CALLBACK_NOTIFY_def Let_def
    by (auto intro!: notify_good [OF _ message_begin_law] simp: inv_defs)
qed

lemma next_method_length:
  assumes "next_method m i ch = Inr m'" and "unat i \<le> length (method_strings m)"
  shows "unat i < length (method_strings m')"
  using assms method_length [of m']
  by (auto simp: next_method_def split: if_splits)

lemma next_method_errno: "next_method m i ch = Inl (Some e) \<Longrightarrow> e = HPE_INVALID_METHOD"
  by (auto simp: next_method_def split: if_splits)

lemma step_req_method_good:
  assumes p: "pre data ps l" and s: "hp_state ps = s_req_method"
  shows "good_res data s0 (lp l) (step_req_method ch ps l)"
proof -
  let ?m = "method_strings (hp_method ps)" and ?i = "unat (hp_index ps)"
  have i: "?i \<le> length ?m" using p s by (simp add: inv_defs)
  have up: "unat (hp_index ps + 1) \<le> n" if "?i < n" for n
    using that method_length [of "hp_method ps"] i by (simp add: unat_word_ariths)
  have eq: "?i < length ?m" if "ch = (?m @ [NUL]) ! ?i" "ch \<noteq> NUL"
    using that i by (auto simp: nth_append split: if_splits)
  have go: "good data s0 (lp l) (Break (ps\<lparr>hp_method := m, hp_index := hp_index ps + 1\<rparr>) l)"
    if "?i < length (method_strings m)" for m
    using p s up [OF that] by (auto simp: inv_defs)
  have spaces: "good data s0 (lp l) (Break (ps\<lparr>hp_state := s_req_spaces_before_url, hp_index := hp_index ps + 1\<rparr>) l)"
    using p s by (auto simp: inv_defs)
  have id: "ps\<lparr>hp_index := k\<rparr> = ps\<lparr>hp_method := hp_method ps, hp_index := k\<rparr>" for k by simp
  show ?thesis
    using i eq go go [of "hp_method ps"] spaces next_method_length [of "hp_method ps" "hp_index ps" ch] p
      next_method_errno [of "hp_method ps" "hp_index ps" ch]
    by (auto simp: step_req_method_def Let_def id [symmetric] pre_def
        simp del: good.simps(1) split: sum.split option.split)
qed

lemma url_uf_url_state: "url_uf s \<noteq> None \<Longrightarrow> url_state s"
  by (cases s; simp add: url_uf_def url_state_def)

lemma parse_url_char_url: "parse_url_char s ch \<noteq> s_dead \<Longrightarrow> url_state (parse_url_char s ch)"
  using parse_url_char_codomain [of s ch] url_uf_url_state by (auto simp: url_delimiter_def url_state_def)

lemma url_stateD:
  "url_state s \<Longrightarrow> s \<notin> idle_states \<and> s \<notin> body_states \<and> s \<notin> header_line_states \<and> s \<noteq> s_req_method
     \<and> s \<notin> value_states \<and> s \<notin> {s_start_req_or_res, s_start_res, s_res_or_resp_H, s_headers_done, s_header_field}"
  by (auto simp: state_sets url_state_def)

lemma marks_ok_url:
  "url_state s \<Longrightarrow> marks_ok s l \<longleftrightarrow> header_field_mark l = None \<and> header_value_mark l = None \<and> body_mark l = None
     \<and> (\<forall>m. url_mark l = Some m \<longrightarrow> 0 \<le> m \<and> m \<le> lp l)"
  by (auto simp: marks_ok_def url_state_def)

text \<open>The line states are those of the request or status line, and what \<open>pre\<close> says there.\<close>

lemma pre_line:
  assumes "pre data ps l" and "url_state (hp_state ps) \<or> hp_state ps = s_req_spaces_before_url"
  shows "F_TRAILING \<notin> hp_flags ps \<and> I Head (hp_data ps) \<and> hp_errno ps = HPE_OK \<and> 0 \<le> lp l
    \<and> lp l < int (length data) \<and> header_field_mark l = None \<and> header_value_mark l = None \<and> body_mark l = None
    \<and> (\<forall>m. url_mark l = Some m \<longrightarrow> 0 \<le> m \<and> m \<le> lp l)
    \<and> (hp_type ps = HTTP_REQUEST \<or> (\<forall>d. I Head d \<longrightarrow> I Idle d))"
proof (cases "url_state (hp_state ps)")
  case True
  have tr: "F_TRAILING \<notin> hp_flags ps"
    using assms(1) url_stateD [OF True] by (simp add: pre_def pinv_def hp_wf_def)
  then show ?thesis
    using assms(1) url_stateD [OF True] marks_ok_url [OF True] by (auto simp: pre_def pinv_def phase_of_def)
next
  case False
  then have "hp_state ps = s_req_spaces_before_url" using assms(2) by simp
  with assms(1) show ?thesis by (auto simp: inv_defs)
qed

lemma step_url_char_good:
  assumes p: "pre data ps l" "url_state (hp_state ps) \<or> hp_state ps = s_req_spaces_before_url"
    and eq: "hp_flags ps' = hp_flags ps" "hp_data ps' = hp_data ps" "hp_type ps' = hp_type ps" "hp_errno ps' = hp_errno ps"
      "l' = l \<or> l' = MARK M_url l"
  shows "good_res data s0 (lp l) (step_url_char ch ps' l')"
proof (cases "parse_url_char (hp_state ps') ch = s_dead")
  case True
  then show ?thesis using pre_line [OF p] eq(5) by (auto simp: step_url_char_def MARK_def)
next
  case False
  note u = parse_url_char_url [OF False]
  show ?thesis
    using pre_line [OF p] eq False url_stateD [OF u] marks_ok_url [OF u]
    by (auto simp: step_url_char_def Let_def pinv_def hp_wf_line phase_of_def MARK_def split: if_splits)
qed

lemma step_req_spaces_before_url_good:
  assumes "pre data ps l" "hp_state ps = s_req_spaces_before_url"
  shows "good_res data s0 (lp l) (step_req_spaces_before_url ch ps l)"
proof (cases "ch = SP")
  case True
  have "plain (hp_state ps)" using assms(2) by (simp add: plain_def)
  from plain_good [OF assms(1) this, of ps] this True show ?thesis
    by (simp add: step_req_spaces_before_url_def del: good.simps)
next
  case False
  then show ?thesis
    using assms by (auto simp: step_req_spaces_before_url_def intro!: step_url_char_good)
qed

lemma step_req_schema_good:
  "pre data ps l \<Longrightarrow> url_state (hp_state ps) \<Longrightarrow> good_res data s0 (lp l) (step_req_schema ch ps l)"
  by (auto simp: step_req_schema_def intro!: step_url_char_good pre_fail simp del: fail_good)

lemma step_req_url_good:
  assumes p: "pre data ps l" "url_state (hp_state ps)"
  shows "good_res data s0 (lp l) (step_req_url S data ch ps l)"
proof -
  note f = pre_line [OF p(1) disjI1, OF p(2)]
  have cb: "good_res data s0 (lp l) (CALLBACK_DATA S data M_url ps' l)"
    if q: "plain (hp_state ps') \<or> hp_state ps' = s_header_field_start"
      "hp_flags ps' = hp_flags ps" "hp_data ps' = hp_data ps" "hp_type ps' = hp_type ps" "hp_errno ps' = hp_errno ps" for ps'
  proof -
    have inv: "pinv 0 (ps'\<lparr>hp_data := d\<rparr>) \<and> hp_state ps' \<noteq> s_headers_done" if "I Head d" for d
      using line_pinv [of "ps'\<lparr>hp_data := d\<rparr>" 0] f q that by auto
    show ?thesis
      unfolding CALLBACK_DATA_def using f q inv
      by (intro data_good [where P = "I Head" and R = "I Head" and N = "\<lambda>_. True"]) (auto simp: url_law marks_ok_def plain_not)
  qed
  show ?thesis
    unfolding step_req_url_def using p
    by (auto intro!: step_url_char_good cb simp: plain_def [of s_req_http_start]
        plain_def [of s_req_line_almost_done] simp del: good.simps)
qed

end

end
