(* ===== verification/Http_Parser_Safe.thy ===== *)
theory Http_Parser_Safe
  imports Http_Parser_Inv
begin

text \<open>
  Safety of \<^verbatim>\<open>http_parser_execute_\<close>: from an initialised parser, over any sequence of inputs, it returns,
  fails none of its assertions, stays inside its input and calls the callbacks in the order of the
  protocol.
\<close>

context http_callbacks
begin

text \<open>The header lines, of the message or of a chunked trailer.\<close>

definition hdr_phase :: "'d http_parser \<Rightarrow> phase" where
  "hdr_phase ps = (if F_TRAILING \<in> hp_flags ps then Body else Head)"

lemma hdr_phase_not_Idle [simp]: "hdr_phase ps \<noteq> Idle"
  by (simp add: hdr_phase_def)

lemma header_lineD:
  "s \<in> header_line_states \<Longrightarrow> s \<notin> idle_states \<and> s \<notin> body_states \<and> s \<notin> chunk_states \<and> \<not> url_state s
     \<and> s \<notin> {s_start_req_or_res, s_start_res, s_res_or_resp_H, s_headers_done, s_req_method}
     \<and> s \<notin> {s_chunk_size_start, s_body_identity, s_chunk_data, s_chunk_data_almost_done, s_chunk_size,
           s_chunk_parameters, s_chunk_size_almost_done}"
  by (auto simp: state_sets url_state_def)

lemma hp_wf_header:
  "hp_state ps \<in> header_line_states \<Longrightarrow> hp_wf n ps \<longleftrightarrow>
     (hp_state ps = s_header_field \<longrightarrow> hp_header_state ps \<in> field_hs)
   \<and> (hp_state ps = s_header_value \<longrightarrow> hp_header_state ps \<notin> {h_connection, h_transfer_encoding})"
  using header_lineD [of "hp_state ps"] by (simp add: hp_wf_def)

lemma pre_header:
  assumes "pre data ps l" and "hp_state ps \<in> header_line_states"
  shows "I (hdr_phase ps) (hp_data ps) \<and> (hp_state ps \<in> value_states \<longrightarrow> F (hdr_phase ps) (hp_data ps))
    \<and> (hp_state ps = s_header_field \<longrightarrow> header_field_mark l \<noteq> None) \<and> hp_errno ps = HPE_OK \<and> 0 \<le> lp l \<and> lp l < int (length data)
    \<and> url_mark l = None \<and> body_mark l = None \<and> marks_ok (hp_state ps) l
    \<and> (hp_type ps = HTTP_REQUEST \<or> (\<forall>d. I Head d \<longrightarrow> I Idle d)) \<and> hp_wf 1 ps \<and> int (length data) < 2 ^ 63"
proof -
  note h = header_lineD [OF assms(2)]
  have "url_mark l = None" "body_mark l = None"
    using assms(1) h by (auto simp: pre_def marks_ok_def body_states_def chunk_states_def)
  then show ?thesis
    using assms(1) h by (auto simp: pre_def pinv_def phase_of_def hdr_phase_def)
qed

lemma pinv_header:
  "hp_state ps \<in> header_line_states \<Longrightarrow> pinv n ps \<longleftrightarrow> hp_wf n ps \<and> I (hdr_phase ps) (hp_data ps) \<and> (hp_state ps \<in> value_states \<longrightarrow> F (hdr_phase ps) (hp_data ps))
     \<and> (hp_type ps = HTTP_REQUEST \<or> (\<forall>d. I Head d \<longrightarrow> I Idle d))"
  using header_lineD [of "hp_state ps"] by (auto simp: pinv_def phase_of_def hdr_phase_def)

text \<open>A step from one header state to another that keeps the flags' trailing bit and the user's object.\<close>

lemma header_go:
  assumes p: "pre data ps l" "hp_state ps \<in> header_line_states"
    and q: "hp_state ps' \<in> header_line_states" "hp_wf 0 ps'"
    and eq: "hdr_phase ps' = hdr_phase ps" "hp_data ps' = hp_data ps" "hp_type ps' = hp_type ps" "hp_errno ps' = hp_errno ps"
    and m: "marks_ok (hp_state ps') (l'\<lparr>lp := lp l + 1\<rparr>)" "lp l' = lp l"
    and v: "hp_state ps' \<in> value_states \<longrightarrow> hp_state ps \<in> value_states"
      "hp_state ps' = s_header_field \<longrightarrow> header_field_mark l' \<noteq> None"
  shows "good_res data s0 (lp l) (Inr (Break ps' l'))"
  using pre_header [OF p] header_lineD [OF q(1)] pinv_header [OF q(1)] q eq m v by auto

lemma hdr_phase_upd [simp]:
  "hdr_phase (ps\<lparr>hp_state := s\<rparr>) = hdr_phase ps" "hdr_phase (ps\<lparr>hp_header_state := h\<rparr>) = hdr_phase ps"
  "hdr_phase (ps\<lparr>hp_index := i\<rparr>) = hdr_phase ps" "hdr_phase (ps\<lparr>hp_data := d\<rparr>) = hdr_phase ps"
  "hdr_phase (ps\<lparr>hp_content_length := c\<rparr>) = hdr_phase ps"
  "hdr_phase (ps\<lparr>hp_flags := insert F_UPGRADE (hp_flags ps)\<rparr>) = hdr_phase ps"
  by (simp_all add: hdr_phase_def)

lemma header_line_members [simp]:
  "s_header_field_start \<in> header_line_states" "s_header_field \<in> header_line_states"
  "s_header_value_start \<in> header_line_states" "s_header_value \<in> header_line_states"
  "s_header_value_lws \<in> header_line_states" "s_header_almost_done \<in> header_line_states"
  "s_headers_almost_done \<in> header_line_states"
  by (simp_all add: header_line_states_def)

lemma value_members [simp]:
  "s_header_value_start \<in> value_states" "s_header_value \<in> value_states" "s_header_value_lws \<in> value_states"
  "s_header_almost_done \<in> value_states" "s_header_field_start \<notin> value_states" "s_header_field \<notin> value_states"
  "s_headers_almost_done \<notin> value_states" "s_headers_done \<notin> value_states"
  by (simp_all add: value_states_def)

lemma marks_ok_header:
  "marks_ok s_header_field_start l \<longleftrightarrow>
     header_field_mark l = None \<and> header_value_mark l = None \<and> url_mark l = None \<and> body_mark l = None"
  "marks_ok s_header_value_start l \<longleftrightarrow>
     header_field_mark l = None \<and> header_value_mark l = None \<and> url_mark l = None \<and> body_mark l = None"
  "marks_ok s_header_value_lws l \<longleftrightarrow>
     header_field_mark l = None \<and> header_value_mark l = None \<and> url_mark l = None \<and> body_mark l = None"
  "marks_ok s_header_almost_done l \<longleftrightarrow>
     header_field_mark l = None \<and> header_value_mark l = None \<and> url_mark l = None \<and> body_mark l = None"
  "marks_ok s_headers_almost_done l \<longleftrightarrow>
     header_field_mark l = None \<and> header_value_mark l = None \<and> url_mark l = None \<and> body_mark l = None"
  "marks_ok s_headers_done l \<longleftrightarrow>
     header_field_mark l = None \<and> header_value_mark l = None \<and> url_mark l = None \<and> body_mark l = None"
  "marks_ok s_header_field l \<longleftrightarrow> header_value_mark l = None \<and> url_mark l = None \<and> body_mark l = None
     \<and> (\<forall>m. header_field_mark l = Some m \<longrightarrow> 0 \<le> m \<and> m \<le> lp l)"
  "marks_ok s_header_value l \<longleftrightarrow> header_field_mark l = None \<and> url_mark l = None \<and> body_mark l = None
     \<and> (\<forall>m. header_value_mark l = Some m \<longrightarrow> 0 \<le> m \<and> m \<le> lp l)"
  by (auto simp: marks_ok_def url_state_def)

lemma field_start_field_hs: "field_start_state c \<in> field_hs"
  by (simp add: field_start_state_def field_hs_def)

lemma step_header_field_start_good:
  assumes p: "pre data ps l" and s: "hp_state ps = s_header_field_start"
  shows "good_res data s_header_field_start (lp l) (step_header_field_start ch ps l)"
proof -
  have h: "hp_state ps \<in> header_line_states" using s by simp
  note f = pre_header [OF p h]
  have 1: "good_res data s_header_field_start (lp l) (Inr (Reexec (ps\<lparr>hp_state := s_headers_almost_done\<rparr>) l))"
    using f s by (auto simp: pre_def pinv_header hp_wf_header marks_ok_header rank_def cursor_def)
  show ?thesis
    unfolding step_header_field_start_def Let_def
    using f s 1 by (auto intro!: header_go [OF p h] pre_fail [OF p]
        simp: hp_wf_header marks_ok_header field_start_field_hs MARK_def simp del: good_res_Inr)
qed

lemma match_step_field:
  "hp_header_state ps \<in> field_hs \<Longrightarrow> final \<in> field_hs \<Longrightarrow> hp_header_state (match_step k final c ps) \<in> field_hs"
  by (simp add: match_step_def Let_def field_hs_def)

lemma match_step_simps [simp]:
  "hp_state (match_step k f c ps) = hp_state ps" "hdr_phase (match_step k f c ps) = hdr_phase ps"
  "hp_data (match_step k f c ps) = hp_data ps" "hp_type (match_step k f c ps) = hp_type ps"
  "hp_errno (match_step k f c ps) = hp_errno ps" "hp_flags (match_step k f c ps) = hp_flags ps"
  by (simp_all add: match_step_def Let_def)

lemma field_hs_members [simp]:
  "h_general \<in> field_hs" "h_C \<in> field_hs" "h_CO \<in> field_hs" "h_CON \<in> field_hs" "h_matching_connection \<in> field_hs"
  "h_matching_proxy_connection \<in> field_hs" "h_matching_content_length \<in> field_hs"
  "h_matching_transfer_encoding \<in> field_hs" "h_matching_upgrade \<in> field_hs" "h_connection \<in> field_hs"
  "h_content_length \<in> field_hs" "h_transfer_encoding \<in> field_hs" "h_upgrade \<in> field_hs"
  "h_matching_transfer_encoding_chunked \<notin> field_hs" "h_matching_connection_keep_alive \<notin> field_hs"
  "h_matching_connection_close \<notin> field_hs" "h_transfer_encoding_chunked \<notin> field_hs"
  "h_connection_keep_alive \<notin> field_hs" "h_connection_close \<notin> field_hs"
  by (simp_all add: field_hs_def)

lemma field_token_ok:
  assumes "hp_header_state ps \<in> field_hs"
  shows "\<exists>ps'. field_token ch c ps = Inr ps' \<and> hp_header_state ps' \<in> field_hs \<and> hp_state ps' = hp_state ps
    \<and> hdr_phase ps' = hdr_phase ps \<and> hp_data ps' = hp_data ps \<and> hp_type ps' = hp_type ps \<and> hp_errno ps' = hp_errno ps"
  using assms
  by (cases "hp_header_state ps") (simp_all add: field_token_def Let_def match_step_field)

lemma header_data_good:
  assumes p: "pre data ps l" "hp_state ps \<in> header_line_states"
    and m: "m = M_header_field \<and> hp_state ps = s_header_field \<and> header_field_mark l' \<noteq> None
      \<or> m = M_header_value \<and> hp_state ps \<in> value_states"
    and rng: "\<And>at. get_mark m l' = Some at \<Longrightarrow> 0 \<le> at \<and> at \<le> lp l" and l': "lp l' = lp l"
    and q: "hp_state ps' \<in> header_line_states" "hp_state ps' \<notin> {s_header_field, s_header_value}"
    and eq: "hdr_phase ps' = hdr_phase ps" "hp_data ps' = hp_data ps" "hp_type ps' = hp_type ps" "hp_errno ps' = hp_errno ps"
    and er: "lp l \<le> er" "er \<le> lp l + 1"
    and k: "\<And>d. F (hdr_phase ps) d \<Longrightarrow> pinv 0 (ps'\<lparr>hp_data := d\<rparr>) \<Longrightarrow>
      good_res data s0 (lp l) (k (ps'\<lparr>hp_data := d\<rparr>) (set_mark m None l'))"
  shows "good_res data s0 (lp l) (CALLBACK_DATA_ER S data m (\<lambda>at. lp l' - at) er ps' l' k)"
proof -
  note f = pre_header [OF p]
  define P where "P = (if m = M_header_field then I (hdr_phase ps) else F (hdr_phase ps))"
  have law: "data_ok (mark_cb m S) (\<lambda>_. True) P (F (hdr_phase ps))"
    using m field_law value_law by (auto simp: P_def)
  have P: "P (hp_data ps')" "get_mark m l' \<noteq> None \<or> P = F (hdr_phase ps)"
    using m f eq by (auto simp: P_def)
  have inv: "pinv 0 (ps'\<lparr>hp_data := d\<rparr>)" if "F (hdr_phase ps) d" for d
    using that f q eq named_law by (simp add: pinv_header hp_wf_header)
  show ?thesis
    using law P f rng l' eq er inv k by (intro data_good [where P = P and R = "F (hdr_phase ps)" and N = "\<lambda>_. True"]) auto
qed

lemma step_header_field_good:
  assumes p: "pre data ps l" and s: "hp_state ps = s_header_field"
  shows "good_res data s0 (lp l) (step_header_field S data ch ps l)"
proof -
  have h: "hp_state ps \<in> header_line_states" using s by simp
  note f = pre_header [OF p h]
  have hs: "hp_header_state ps \<in> field_hs" using f s by (simp add: hp_wf_header)
  have cb: "good_res data s0 (lp l) (CALLBACK_DATA S data M_header_field (ps\<lparr>hp_state := s'\<rparr>) l)"
    if s': "s' \<in> {s_header_value_start, s_header_almost_done, s_header_field_start}" for s'
    unfolding CALLBACK_DATA_def
    using f s s' by (intro header_data_good [OF p h]) (auto simp: marks_ok_header)
  obtain ps' where t: "field_token ch (TOKEN ch) ps = Inr ps'" "hp_header_state ps' \<in> field_hs" "hp_state ps' = s_header_field"
      "hdr_phase ps' = hdr_phase ps" "hp_data ps' = hp_data ps" "hp_type ps' = hp_type ps" "hp_errno ps' = hp_errno ps"
    using field_token_ok [OF hs] s by metis
  have "good_res data s0 (lp l) (Inr (Break ps' l))"
    by (rule header_go [OF p h]) (use t f s in \<open>auto simp: hp_wf_header marks_ok_header\<close>)
  then show ?thesis
    unfolding step_header_field_def Let_def using t(1) cb by (auto intro!: pre_fail [OF p] simp del: good_res_Inr)
qed

lemma step_header_value_start_good:
  assumes p: "pre data ps l" and s: "hp_state ps = s_header_value_start"
  shows "good_res data s0 (lp l) (step_header_value_start S data ch ps l)"
proof -
  have h: "hp_state ps \<in> header_line_states" using s by simp
  note f = pre_header [OF p h]
  let ?l = "MARK M_header_value l"
  have l: "header_field_mark ?l = None" "url_mark ?l = None" "body_mark ?l = None" "header_value_mark ?l = Some (lp l)" "lp ?l = lp l"
    using f s by (auto simp: MARK_def marks_ok_header)
  have cb: "good_res data s0 (lp l) (CALLBACK_DATA S data M_header_value ps' ?l)"
    if s': "hp_state ps' \<in> {s_header_almost_done, s_header_field_start}"
      "hdr_phase ps' = hdr_phase ps" "hp_data ps' = hp_data ps" "hp_type ps' = hp_type ps" "hp_errno ps' = hp_errno ps" for ps'
    unfolding CALLBACK_DATA_def
    using f s s' l by (intro header_data_good [OF p h]) (auto simp: marks_ok_header)
  have go: "good_res data s0 (lp l) (Inr (Break ps' ?l))"
    if "hp_state ps' = s_header_value" "hp_header_state ps' \<notin> {h_connection, h_transfer_encoding}"
      "hdr_phase ps' = hdr_phase ps" "hp_data ps' = hp_data ps" "hp_type ps' = hp_type ps" "hp_errno ps' = hp_errno ps" for ps'
    by (rule header_go [OF p h]) (use f l s that in \<open>auto simp: hp_wf_header marks_ok_header\<close>)
  have skip: "good_res data s0 (lp l) (Inr (Break ps l))"
    by (rule header_go [OF p h]) (use f s in \<open>auto simp: hp_wf_header marks_ok_header\<close>)
  have up: "hdr_phase (ps\<lparr>hp_state := s_header_value, hp_index := 0, hp_flags := insert F_UPGRADE (hp_flags ps)\<rparr>)
      = hdr_phase ps" by (simp add: hdr_phase_def)
  show ?thesis
    unfolding step_header_value_start_def Let_def
    by (cases "hp_header_state ps")
      (auto intro!: cb go skip pre_fail [OF p] simp: l up simp del: good_res_Inr)
qed

lemma match_step_value:
  "hp_header_state ps \<notin> {h_connection, h_transfer_encoding} \<Longrightarrow> final \<notin> {h_connection, h_transfer_encoding} \<Longrightarrow>
     hp_header_state (match_step k final c ps) \<notin> {h_connection, h_transfer_encoding}"
  by (simp add: match_step_def Let_def)

lemma value_char_good:
  assumes p: "pre data ps l" and s: "hp_state ps = s_header_value"
  shows "good_res data s0 (lp l) (value_char ch ps l)"
proof -
  have h: "hp_state ps \<in> header_line_states" using s by simp
  note f = pre_header [OF p h]
  have hs: "hp_header_state ps \<notin> {h_connection, h_transfer_encoding}" using f s by (simp add: hp_wf_header)
  have go: "good_res data s0 (lp l) (Inr (Break ps' l))"
    if "hp_state ps' = s_header_value" "hp_header_state ps' \<notin> {h_connection, h_transfer_encoding}"
      "hdr_phase ps' = hdr_phase ps" "hp_data ps' = hp_data ps" "hp_type ps' = hp_type ps" "hp_errno ps' = hp_errno ps" for ps'
    by (rule header_go [OF p h]) (use f s that in \<open>auto simp: hp_wf_header marks_ok_header\<close>)
  have ms: "good_res data s0 (lp l) (Inr (Break (match_step k final c ps) l))"
    if "final \<notin> {h_connection, h_transfer_encoding}" for k final c
    by (rule go) (use s match_step_value [OF hs that] in simp_all)
  have "good_res data s0 (lp l) (Inr (Break ps l))" by (rule go) (use s hs in simp_all)
  then show ?thesis
    using hs s unfolding value_char_def Let_def
    by (cases "hp_header_state ps")
      (auto intro!: go ms pre_fail [OF p] split: option.split simp del: good_res_Inr)
qed

lemma step_header_value_good:
  assumes p: "pre data ps l" and s: "hp_state ps = s_header_value"
  shows "good_res data s_header_value (lp l) (step_header_value S data ch ps l)"
proof -
  have h: "hp_state ps \<in> header_line_states" using s by simp
  note f = pre_header [OF p h]
  let ?ps = "ps\<lparr>hp_state := s_header_almost_done\<rparr>"
  have 1: "good_res data s_header_value (lp l) (CALLBACK_DATA S data M_header_value ?ps l)"
    unfolding CALLBACK_DATA_def
    using f s by (intro header_data_good [OF p h]) (auto simp: marks_ok_header)
  have 2: "good_res data s_header_value (lp l) (CALLBACK_DATA_NOADVANCE S data M_header_value ?ps l (\<lambda>ps l. Inr (Reexec ps l)))"
    unfolding CALLBACK_DATA_NOADVANCE_def
    using f s by (intro header_data_good [OF p h])
      (auto simp: marks_ok_header pre_def pinv_header hp_wf_header rank_def cursor_def)
  show ?thesis unfolding step_header_value_def using 1 2 value_char_good [OF p s] by simp
qed

lemma step_header_almost_done_good:
  assumes p: "pre data ps l" and s: "hp_state ps = s_header_almost_done"
  shows "good_res data s0 (lp l) (step_header_almost_done ch ps l)"
proof -
  have h: "hp_state ps \<in> header_line_states" using s by simp
  let ?ps = "ps\<lparr>hp_state := s_header_value_lws, hp_flags := hp_flags ps \<union> header_done_flags (hp_header_state ps)\<rparr>"
  have "hdr_phase ?ps = hdr_phase ps" by (simp add: hdr_phase_def header_done_flags_def)
  then have "good_res data s0 (lp l) (Inr (Break ?ps l))"
    by (intro header_go [OF p h]) (use pre_header [OF p h] s in \<open>auto simp: hp_wf_header marks_ok_header\<close>)
  then show ?thesis by (auto simp: step_header_almost_done_def STRICT_CHECK_def intro!: pre_fail [OF p] simp del: good_res_Inr)
qed

lemma step_header_value_lws_good:
  assumes p: "pre data ps l" and s: "hp_state ps = s_header_value_lws"
  shows "good_res data s_header_value_lws (lp l) (step_header_value_lws ch ps l)"
proof -
  have h: "hp_state ps \<in> header_line_states" using s by simp
  note f = pre_header [OF p h]
  have "good_res data s_header_value_lws (lp l) (Inr (Break (ps\<lparr>hp_state := s_header_value_start\<rparr>) l))"
    by (intro header_go [OF p h]) (use f s in \<open>auto simp: hp_wf_header marks_ok_header\<close>)
  moreover have "good_res data s_header_value_lws (lp l) (Inr (Reexec (ps\<lparr>hp_state := s_header_field_start\<rparr>) l))"
    using f s by (auto simp: pre_def pinv_header hp_wf_header marks_ok_header rank_def cursor_def)
  ultimately show ?thesis by (simp add: step_header_value_lws_def del: good_res_Inr)
qed

text \<open>The end of the headers, and of a message.\<close>

lemma NEW_MESSAGE_idle: "NEW_MESSAGE ps \<in> {s_dead, s_start_req, s_start_res}"
  by (simp add: NEW_MESSAGE_def start_state_def)

lemma NEW_MESSAGE_req: "hp_type ps = HTTP_REQUEST \<Longrightarrow> NEW_MESSAGE ps \<noteq> s_start_res"
  by (simp add: NEW_MESSAGE_def start_state_def)

lemma idle_sets: "s \<in> {s_dead, s_start_req, s_start_res} \<Longrightarrow>
  s \<in> idle_states \<and> s \<notin> value_states
    \<and> s \<notin> {s_start_req_or_res, s_res_or_resp_H, s_headers_done, s_req_method, s_header_field}"
  by (auto simp: idle_states_def value_states_def)

lemma hp_wf_idle: "hp_state ps \<in> {s_dead, s_start_req, s_start_res} \<Longrightarrow> hp_wf n ps"
  by (auto simp: hp_wf_def state_sets)

lemma new_message_pinv:
  assumes "I Idle (hp_data ps)" and "hp_type ps = HTTP_REQUEST \<or> (\<forall>d. I Head d \<longrightarrow> I Idle d)"
    and "hp_state ps = NEW_MESSAGE ps'" and "hp_type ps' = hp_type ps"
  shows "pinv n ps \<and> hp_state ps \<noteq> s_headers_done \<and> hp_state ps \<noteq> s_header_field"
proof -
  note st = NEW_MESSAGE_idle [of ps', folded assms(3)]
  have "phase_of ps = Idle" using idle_sets [OF st] by (simp add: phase_of_def)
  then show ?thesis
    using assms hp_wf_idle [OF st] idle_sets [OF st] NEW_MESSAGE_req [of ps'] by (auto simp: pinv_def)
qed

lemma message_complete_good:
  assumes "I Body (hp_data ps)" and "hp_errno ps = HPE_OK" and "hp_type ps = HTTP_REQUEST \<or> (\<forall>d. I Head d \<longrightarrow> I Idle d)"
    and "header_field_mark l = None" "header_value_mark l = None" "url_mark l = None" "body_mark l = None"
    and "- 1 \<le> lp l" "lp l < int (length data)" "c0 \<le> lp l"
    and "hp_state ps = NEW_MESSAGE ps'" "hp_type ps' = hp_type ps"
  shows "good_res data s0 c0 (CALLBACK_NOTIFY (on_message_complete S) HPE_CB_message_complete ps l)"
proof -
  have inv: "pinv 0 (ps\<lparr>hp_data := d\<rparr>) \<and> hp_state ps \<noteq> s_headers_done \<and> hp_state ps \<noteq> s_header_field" if "I Idle d" for d
    using new_message_pinv [of "ps\<lparr>hp_data := d\<rparr>" ps' 0] assms that by auto
  show ?thesis
    unfolding CALLBACK_NOTIFY_def using assms inv
    by (intro notify_good [OF _ message_complete_law]) (auto simp: marks_ok_def)
qed

lemma notify_okD:
  "notify_ok (Some f) P Q \<Longrightarrow> P (hp_data ps) \<Longrightarrow> \<exists>d pz rc. f ps = Inr (d, pz, rc) \<and> Q d"
  by (simp add: notify_ok_def)

lemma step_headers_almost_done_good:
  assumes p: "pre data ps l" and s: "hp_state ps = s_headers_almost_done"
  shows "good_res data s_headers_almost_done (lp l) (step_headers_almost_done S ch ps l)"
proof -
  have h: "hp_state ps \<in> header_line_states" using s by simp
  note f = pre_header [OF p h]
  have m: "header_field_mark l = None" "header_value_mark l = None" "url_mark l = None" "body_mark l = None"
    using f s by (auto simp: marks_ok_header)
  have trail: "good_res data s_headers_almost_done (lp l) (CALLBACK_NOTIFY (on_message_complete S) HPE_CB_message_complete
      (ps\<lparr>hp_state := NEW_MESSAGE ps\<rparr>) l)" if "F_TRAILING \<in> hp_flags ps"
    using f m that by (intro message_complete_good [where ps' = ps]) (auto simp: hdr_phase_def)
  let ?ps = "ps\<lparr>hp_state := s_headers_done, hp_upgrade := F_UPGRADE \<in> hp_flags ps \<or> hp_method ps = HTTP_CONNECT\<rparr>"
  have inv: "pinv n ps'" if "I Body (hp_data ps')" "hp_state ps' = s_headers_done" "hp_type ps' = hp_type ps" for ps' n
    using that f by (auto simp: pinv_def hp_wf_def phase_of_def state_sets)
  have re: "good data s_headers_almost_done (lp l) (Reexec ps' (l\<lparr>lp := lp l + 1\<rparr>))"
    if "I Body (hp_data ps')" "hp_state ps' = s_headers_done" "hp_type ps' = hp_type ps" "hp_errno ps' = HPE_OK" for ps'
    using that f m inv [OF that(1-3)] by (auto simp: pre_def marks_ok_header rank_def cursor_def)
  show ?thesis
  proof (cases "ch \<noteq> LF \<or> F_TRAILING \<in> hp_flags ps")
    case True
    then show ?thesis
      using trail f by (auto simp: step_headers_almost_done_def STRICT_CHECK_def intro!: pre_fail [OF p] simp del: fail_good)
  next
    case nt: False
    then have I: "I Head (hp_data ?ps)" using f by (simp add: hdr_phase_def)
    show ?thesis
    proof (cases "on_headers_complete S")
      case None
      then have "I Body (hp_data ps)" using headers_complete_law I by (auto simp: notify_ok_def)
      then show ?thesis
        using nt None f re [of ?ps] by (simp add: step_headers_almost_done_def STRICT_CHECK_def Let_def del: good.simps)
    next
      case (Some g)
      then obtain d pz rc where g: "g ?ps = Inr (d, pz, rc)" and d: "I Body d"
        using notify_okD [of g "I Head" "I Body" ?ps] headers_complete_law I by auto
      show ?thesis
        using nt Some f g d inv re
        by (auto simp: step_headers_almost_done_def STRICT_CHECK_def Let_def simp del: good.simps(2))
    qed
  qed
qed

lemma pre_body:
  assumes "pre data ps l" and "hp_state ps \<in> body_states"
  shows "I Body (hp_data ps) \<and> hp_errno ps = HPE_OK \<and> 0 \<le> lp l \<and> lp l \<le> int (length data)
    \<and> (hp_type ps = HTTP_REQUEST \<or> (\<forall>d. I Head d \<longrightarrow> I Idle d)) \<and> hp_wf 1 ps \<and> marks_ok (hp_state ps) l
    \<and> int (length data) < 2 ^ 63 \<and> (hp_state ps \<noteq> s_headers_done \<longrightarrow> lp l < int (length data))"
proof -
  have "phase_of ps = Body" using assms(2) by (auto simp: phase_of_def state_sets)
  then show ?thesis using assms(1) by (auto simp: pre_def pinv_def)
qed

text \<open>A body state with nothing to say about the marks.\<close>

lemma body_pinv:
  "hp_state ps \<in> body_states \<Longrightarrow> I Body (hp_data ps) \<Longrightarrow> hp_type ps = HTTP_REQUEST \<or> (\<forall>d. I Head d \<longrightarrow> I Idle d) \<Longrightarrow>
     pinv n ps \<longleftrightarrow> hp_wf n ps"
  by (auto simp: pinv_def phase_of_def state_sets)

lemma body_members [simp]:
  "s_chunk_size_start \<in> body_states" "s_chunk_size \<in> body_states" "s_chunk_parameters \<in> body_states"
  "s_chunk_size_almost_done \<in> body_states" "s_chunk_data \<in> body_states" "s_chunk_data_almost_done \<in> body_states"
  "s_chunk_data_done \<in> body_states" "s_headers_done \<in> body_states" "s_body_identity \<in> body_states"
  "s_body_identity_eof \<in> body_states" "s_message_done \<in> body_states" "s_header_field \<notin> body_states"
  by (simp_all add: body_states_def chunk_states_def)

lemma hp_wf_body:
  "hp_state ps = s_chunk_size_start \<Longrightarrow> hp_wf n ps \<longleftrightarrow> F_CHUNKED \<in> hp_flags ps \<and> hp_nread ps = n"
  "hp_state ps = s_chunk_size \<Longrightarrow> hp_wf n ps \<longleftrightarrow> F_CHUNKED \<in> hp_flags ps \<and> hp_content_length ps \<noteq> ULLONG_MAX"
  "hp_state ps = s_chunk_parameters \<Longrightarrow> hp_wf n ps \<longleftrightarrow> F_CHUNKED \<in> hp_flags ps \<and> hp_content_length ps \<noteq> ULLONG_MAX"
  "hp_state ps = s_chunk_size_almost_done \<Longrightarrow>
     hp_wf n ps \<longleftrightarrow> F_CHUNKED \<in> hp_flags ps \<and> hp_content_length ps \<noteq> ULLONG_MAX"
  "hp_state ps = s_chunk_data \<Longrightarrow>
     hp_wf n ps \<longleftrightarrow> F_CHUNKED \<in> hp_flags ps \<and> hp_content_length ps \<noteq> 0 \<and> hp_content_length ps \<noteq> ULLONG_MAX"
  "hp_state ps = s_chunk_data_almost_done \<Longrightarrow> hp_wf n ps \<longleftrightarrow> F_CHUNKED \<in> hp_flags ps \<and> hp_content_length ps = 0"
  "hp_state ps = s_chunk_data_done \<Longrightarrow> hp_wf n ps \<longleftrightarrow> F_CHUNKED \<in> hp_flags ps"
  "hp_state ps = s_body_identity \<Longrightarrow> hp_wf n ps \<longleftrightarrow> hp_content_length ps \<noteq> 0 \<and> hp_content_length ps \<noteq> ULLONG_MAX"
  "hp_state ps = s_headers_done \<Longrightarrow> hp_wf n ps" "hp_state ps = s_body_identity_eof \<Longrightarrow> hp_wf n ps"
  "hp_state ps = s_message_done \<Longrightarrow> hp_wf n ps"
  by (auto simp: hp_wf_def state_sets)

lemma marks_ok_body:
  "marks_ok s_body_identity l \<longleftrightarrow> header_field_mark l = None \<and> header_value_mark l = None \<and> url_mark l = None
     \<and> (\<forall>m. body_mark l = Some m \<longrightarrow> 0 \<le> m \<and> m < lp l)"
  "marks_ok s_body_identity_eof l \<longleftrightarrow> header_field_mark l = None \<and> header_value_mark l = None \<and> url_mark l = None
     \<and> (\<forall>m. body_mark l = Some m \<longrightarrow> 0 \<le> m \<and> m < lp l)"
  "marks_ok s_chunk_data l \<longleftrightarrow> header_field_mark l = None \<and> header_value_mark l = None \<and> url_mark l = None
     \<and> (\<forall>m. body_mark l = Some m \<longrightarrow> 0 \<le> m \<and> m < lp l)"
  "marks_ok s_chunk_data_almost_done l \<longleftrightarrow> header_field_mark l = None \<and> header_value_mark l = None \<and> url_mark l = None
     \<and> (\<forall>m. body_mark l = Some m \<longrightarrow> 0 \<le> m \<and> m < lp l)"
  by (auto simp: marks_ok_def url_state_def)

lemma marks_ok_empty:
  "header_field_mark l = None \<Longrightarrow> header_value_mark l = None \<Longrightarrow> url_mark l = None \<Longrightarrow> body_mark l = None \<Longrightarrow> marks_ok s l"
  by (simp add: marks_ok_def)

lemma no_marks_body:
  assumes "marks_ok s l" "s \<in> {s_chunk_size_start, s_chunk_size, s_chunk_parameters, s_chunk_size_almost_done,
    s_chunk_data_done, s_headers_done, s_message_done}"
  shows "header_field_mark l = None \<and> header_value_mark l = None \<and> url_mark l = None \<and> body_mark l = None"
  using assms by (auto simp: marks_ok_def url_state_def)

text \<open>From a markless body state to another body state.\<close>

lemma body_go:
  assumes p: "pre data ps l" "hp_state ps \<in> {s_chunk_size_start, s_chunk_size, s_chunk_parameters,
      s_chunk_size_almost_done, s_chunk_data_done, s_headers_done, s_message_done}" "hp_state ps \<in> body_states"
    and q: "hp_state ps' \<in> body_states" "hp_state ps' \<noteq> s_headers_done" "hp_wf 0 ps'"
    and eq: "hp_data ps' = hp_data ps" "hp_type ps' = hp_type ps" "hp_errno ps' = hp_errno ps"
    and l': "l' = l\<lparr>lp := lp l'\<rparr>" "c0 \<le> lp l'" "lp l' < int (length data)"
  shows "good_res data s0 c0 (Inr (Break ps' l'))"
proof -
  note f = pre_body [OF p(1,3)]
  have "header_field_mark l' = None \<and> header_value_mark l' = None \<and> url_mark l' = None \<and> body_mark l' = None"
    using no_marks_body [OF _ p(2)] f l'(1) by (metis locals.simps(2-5) locals.ext_inject locals.surjective locals.update_convs(1))
  then show ?thesis
    using f q eq l' body_pinv [OF q(1), of 0] by (auto intro!: marks_ok_empty)
qed

lemma step_headers_done_good:
  assumes p: "pre data ps l" and s: "hp_state ps = s_headers_done"
  shows "good_res data s0 (cursor s_headers_done l) (step_headers_done S ps l)"
proof -
  have b: "hp_state ps \<in> body_states" using s by simp
  note f = pre_body [OF p b]
  have m: "header_field_mark l = None \<and> header_value_mark l = None \<and> url_mark l = None \<and> body_mark l = None"
    using f s by (intro no_marks_body) auto
  let ?l = "l\<lparr>lp := lp l - 1\<rparr>" and ?ps = "ps\<lparr>hp_nread := 0\<rparr>"
  have complete: "good_res data s0 (cursor s_headers_done l) (CALLBACK_NOTIFY (on_message_complete S)
      HPE_CB_message_complete (?ps\<lparr>hp_state := NEW_MESSAGE ?ps\<rparr>) ?l)"
    using f m by (intro message_complete_good [where ps' = ?ps]) (auto simp: cursor_def)
  have go: "good_res data s0 (cursor s_headers_done l) (Inr (Break (?ps\<lparr>hp_state := s'\<rparr>) ?l))"
    if "hp_wf 0 (?ps\<lparr>hp_state := s'\<rparr>)" "s' \<in> body_states" "s' \<noteq> s_headers_done" for s'
    using that f s by (intro body_go [OF p]) (auto simp: cursor_def)
  show ?thesis
    unfolding step_headers_done_def Let_def using complete
    by (auto intro!: go simp: hp_wf_body simp del: good_res_Inr)
qed

lemma to_read_bounds:
  assumes "0 \<le> lp l" "lp l < int (length data)" "int (length data) < 2 ^ 63" "hp_content_length ps \<noteq> 0"
  shows "1 \<le> uint (body_to_read data ps l) \<and> lp l + uint (body_to_read data ps l) \<le> int (length data)
    \<and> body_to_read data ps l \<le> hp_content_length ps"
proof -
  let ?r = "word_of_int (int (length data) - lp l) :: 64 word"
  have r: "uint ?r = int (length data) - lp l" by (subst uint_word_of_int) (use assms in simp)
  have "uint (hp_content_length ps) \<noteq> 0" using assms(4) by (simp add: uint_0_iff)
  then have "1 \<le> uint (hp_content_length ps)" using uint_ge_0 [of "hp_content_length ps"] by linarith
  then show ?thesis using r assms by (auto simp: body_to_read_def min_def word_le_def)
qed

lemma content_length_after:
  assumes "c \<noteq> ULLONG_MAX" "r \<le> (c :: 64 word)"
  shows "c - r \<noteq> ULLONG_MAX"
proof
  assume "c - r = ULLONG_MAX"
  moreover have "c - r \<le> c" using assms(2) by (simp add: word_sub_le)
  ultimately have "ULLONG_MAX \<le> c" by simp
  then show False using assms(1) by (simp add: ULLONG_MAX_def word_order.extremum_unique)
qed

lemma step_body_identity_good:
  assumes p: "pre data ps l" and s: "hp_state ps = s_body_identity"
  shows "good_res data s_body_identity (lp l) (step_body_identity S data ps l)"
proof -
  have b: "hp_state ps \<in> body_states" using s by simp
  note f = pre_body [OF p b]
  let ?r = "body_to_read data ps l"
  let ?l = "(MARK M_body l)\<lparr>lp := lp l + (uint ?r - 1)\<rparr>" and ?c = "hp_content_length ps - ?r"
  have c: "hp_content_length ps \<noteq> 0" "hp_content_length ps \<noteq> ULLONG_MAX" using f s by (auto simp: hp_wf_body)
  have r: "1 \<le> uint ?r" "lp l + uint ?r \<le> int (length data)" "?r \<le> hp_content_length ps"
    using to_read_bounds [OF _ _ _ c(1)] f s by auto
  have l: "lp (MARK M_body l) = lp l" by (simp add: MARK_def)
  have m: "header_field_mark ?l = None \<and> header_value_mark ?l = None \<and> url_mark ?l = None
      \<and> (\<exists>at. body_mark ?l = Some at \<and> 0 \<le> at \<and> at \<le> lp l)"
    using f s by (auto simp: MARK_def marks_ok_body)
  have inv: "pinv n (ps\<lparr>hp_content_length := ?c, hp_state := s_message_done, hp_data := d\<rparr>)" if "I Body d" for d n
    using f that by (subst body_pinv) (auto simp: hp_wf_body)
  have fin: "good_res data s_body_identity (lp l)
      (CALLBACK_DATA_ER S data M_body (\<lambda>at. lp ?l - at + 1) (lp ?l)
        (ps\<lparr>hp_content_length := ?c, hp_state := s_message_done\<rparr>) ?l (\<lambda>ps l. Inr (Reexec ps l)))"
    using f m r inv by (intro data_good [where P = "I Body" and R = "I Body" and N = "\<lambda>bs. bs \<noteq> []"])
      (auto simp: body_law pre_def marks_ok_def rank_def cursor_def)
  have "good_res data s_body_identity (lp l) (Inr (Break (ps\<lparr>hp_content_length := ?c\<rparr>) ?l))" if "?c \<noteq> 0"
    using f s m r that content_length_after [OF c(2) r(3)] by (auto simp: body_pinv hp_wf_body marks_ok_body)
  with fin c show ?thesis
    by (cases "?c = 0") (simp_all add: step_body_identity_def Let_def l del: good_res_Inr right_minus_eq)
qed

lemma step_body_identity_eof_good:
  assumes p: "pre data ps l" and s: "hp_state ps = s_body_identity_eof"
  shows "good_res data s0 (lp l) (step_body_identity_eof data ps l)"
  using pre_body [OF p] s by (auto simp: step_body_identity_eof_def body_pinv hp_wf_body marks_ok_body MARK_def)

lemma step_message_done_good:
  assumes p: "pre data ps l" and s: "hp_state ps = s_message_done"
  shows "good_res data s0 (lp l) (step_message_done S ps l)"
proof -
  have b: "hp_state ps \<in> body_states" using s by simp
  note f = pre_body [OF p b]
  have m: "header_field_mark l = None \<and> header_value_mark l = None \<and> url_mark l = None \<and> body_mark l = None"
    using f s by (intro no_marks_body) auto
  show ?thesis
    unfolding step_message_done_def using f s m by (intro message_complete_good [where ps' = ps]) auto
qed

text \<open>Chunked bodies.\<close>

lemma unhex_range: "- 1 \<le> unhex_at ch \<and> unhex_at ch \<le> 15"
proof -
  have "nat (uchar ch) < length unhex" by (simp add: unhex_def nat_less_iff)
  then have "unhex_at ch \<in> set unhex" by (simp add: unhex_at_def)
  then show ?thesis by (auto simp: unhex_def)
qed

lemma step_chunk_size_start_good:
  assumes p: "pre data ps l" and s: "hp_state ps = s_chunk_size_start"
  shows "good_res data s0 (lp l) (step_chunk_size_start ch ps l)"
proof -
  have b: "hp_state ps \<in> body_states" using s by simp
  note f = pre_body [OF p b]
  have "word_of_int (unhex_at ch) \<noteq> ULLONG_MAX" if "unhex_at ch \<noteq> - 1"
  proof -
    have "uint (word_of_int (unhex_at ch) :: 64 word) = unhex_at ch"
      by (subst uint_word_of_int) (use unhex_range [of ch] that in simp)
    then show ?thesis using unhex_range [of ch] by (auto simp: ULLONG_MAX_def unsigned_minus_1_eq_mask mask_eq_exp_minus_1)
  qed
  then have "good_res data s0 (lp l)
      (Inr (Break (ps\<lparr>hp_content_length := word_of_int (unhex_at ch), hp_state := s_chunk_size\<rparr>) l))"
    if "unhex_at ch \<noteq> - 1"
    using that f s by (intro body_go [OF p]) (auto simp: hp_wf_body)
  then show ?thesis
    using f s by (auto simp: step_chunk_size_start_def hp_wf_body intro!: pre_fail [OF p] simp del: good_res_Inr)
qed

lemma length_digit_not_max: "length_digit base d old = Some t \<Longrightarrow> t \<noteq> ULLONG_MAX"
  by (auto simp: length_digit_def Let_def split: if_splits)

lemma step_chunk_size_good:
  assumes p: "pre data ps l" and s: "hp_state ps = s_chunk_size"
  shows "good_res data s0 (lp l) (step_chunk_size ch ps l)"
proof -
  have b: "hp_state ps \<in> body_states" using s by simp
  note f = pre_body [OF p b]
  have 1: "good_res data s0 (lp l) (Inr (Break (ps\<lparr>hp_state := s'\<rparr>) l))"
    if "s' \<in> {s_chunk_size_almost_done, s_chunk_parameters}" for s'
    using that f s by (intro body_go [OF p]) (auto simp: hp_wf_body)
  have 2: "good_res data s0 (lp l) (Inr (Break (ps\<lparr>hp_content_length := t\<rparr>) l))" if "t \<noteq> ULLONG_MAX" for t
    using that f s by (intro body_go [OF p]) (auto simp: hp_wf_body)
  show ?thesis
    using f s unfolding step_chunk_size_def
    by (auto simp: hp_wf_body intro!: 1 2 pre_fail [OF p] dest: length_digit_not_max
        split: option.split simp del: good_res_Inr)
qed

lemma step_chunk_parameters_good:
  assumes p: "pre data ps l" and s: "hp_state ps = s_chunk_parameters"
  shows "good_res data s0 (lp l) (step_chunk_parameters ch ps l)"
proof -
  have b: "hp_state ps \<in> body_states" using s by simp
  note f = pre_body [OF p b]
  have 1: "good_res data s0 (lp l) (Inr (Break (ps\<lparr>hp_state := s_chunk_size_almost_done\<rparr>) l))"
    using f s by (intro body_go [OF p]) (auto simp: hp_wf_body)
  have 2: "good_res data s0 (lp l) (Inr (Break ps l))"
    using f s by (intro body_go [OF p]) (auto simp: hp_wf_body)
  show ?thesis using f s 1 2 by (simp add: step_chunk_parameters_def hp_wf_body del: good_res_Inr)
qed

lemma step_chunk_size_almost_done_good:
  assumes p: "pre data ps l" and s: "hp_state ps = s_chunk_size_almost_done"
  shows "good_res data s0 (lp l) (step_chunk_size_almost_done ch ps l)"
proof -
  have b: "hp_state ps \<in> body_states" using s by simp
  note f = pre_body [OF p b]
  have m: "header_field_mark l = None \<and> header_value_mark l = None \<and> url_mark l = None \<and> body_mark l = None"
    using f s by (intro no_marks_body) auto
  have 1: "good_res data s0 (lp l) (Inr (Break (ps\<lparr>hp_nread := 0, hp_flags := insert F_TRAILING (hp_flags ps),
      hp_state := s_header_field_start\<rparr>) l))"
    using f s m by (auto simp: pinv_header hp_wf_header hdr_phase_def marks_ok_header)
  have 2: "good_res data s0 (lp l) (Inr (Break (ps\<lparr>hp_nread := 0, hp_state := s_chunk_data\<rparr>) l))"
    if "hp_content_length ps \<noteq> 0"
    using that f s by (intro body_go [OF p]) (auto simp: hp_wf_body)
  show ?thesis
    using f s 1 2 by (auto simp: step_chunk_size_almost_done_def STRICT_CHECK_def Let_def hp_wf_body
        intro!: pre_fail [OF p] simp del: good_res_Inr)
qed

lemma step_chunk_data_good:
  assumes p: "pre data ps l" and s: "hp_state ps = s_chunk_data"
  shows "good_res data s0 (lp l) (step_chunk_data data ps l)"
proof -
  have b: "hp_state ps \<in> body_states" using s by simp
  note f = pre_body [OF p b]
  let ?r = "body_to_read data ps l"
  let ?l = "(MARK M_body l)\<lparr>lp := lp l + (uint ?r - 1)\<rparr>" and ?c = "hp_content_length ps - ?r"
  have c: "hp_content_length ps \<noteq> 0" "hp_content_length ps \<noteq> ULLONG_MAX" "F_CHUNKED \<in> hp_flags ps"
    using f s by (auto simp: hp_wf_body)
  have r: "1 \<le> uint ?r" "lp l + uint ?r \<le> int (length data)" "?r \<le> hp_content_length ps"
    using to_read_bounds [OF _ _ _ c(1)] f s by auto
  have l: "lp (MARK M_body l) = lp l" by (simp add: MARK_def)
  have m: "header_field_mark ?l = None \<and> header_value_mark ?l = None \<and> url_mark ?l = None
      \<and> (\<exists>at. body_mark ?l = Some at \<and> 0 \<le> at \<and> at \<le> lp l)"
    using f s by (auto simp: MARK_def marks_ok_body)
  have "good_res data s0 (lp l) (Inr (Break (ps\<lparr>hp_content_length := ?c, hp_state := s_chunk_data_almost_done\<rparr>) ?l))"
    if "?c = 0"
    using f s m r c that by (auto simp: body_pinv hp_wf_body marks_ok_body)
  moreover have "good_res data s0 (lp l) (Inr (Break (ps\<lparr>hp_content_length := ?c\<rparr>) ?l))" if "?c \<noteq> 0"
    using f s m r c that content_length_after [OF c(2) r(3)] by (auto simp: body_pinv hp_wf_body marks_ok_body)
  ultimately show ?thesis
    using c by (cases "?c = 0") (simp_all add: step_chunk_data_def Let_def l del: good_res_Inr right_minus_eq)
qed

lemma step_chunk_data_almost_done_good:
  assumes p: "pre data ps l" and s: "hp_state ps = s_chunk_data_almost_done"
  shows "good_res data s0 (lp l) (step_chunk_data_almost_done S data ch ps l)"
proof -
  have b: "hp_state ps \<in> body_states" using s by simp
  note f = pre_body [OF p b]
  have inv: "pinv 0 (ps\<lparr>hp_state := s_chunk_data_done, hp_data := d\<rparr>)" if "I Body d" for d
    using f s that by (subst body_pinv) (auto simp: hp_wf_body)
  have "good_res data s0 (lp l) (CALLBACK_DATA S data M_body (ps\<lparr>hp_state := s_chunk_data_done\<rparr>) l)"
    unfolding CALLBACK_DATA_def using f s inv
    by (intro data_good [where P = "I Body" and R = "I Body" and N = "\<lambda>bs. bs \<noteq> []"])
      (auto simp: body_law marks_ok_body intro!: marks_ok_empty)
  then show ?thesis
    using f s by (auto simp: step_chunk_data_almost_done_def STRICT_CHECK_def hp_wf_body intro!: pre_fail [OF p])
qed

lemma step_chunk_data_done_good:
  assumes p: "pre data ps l" and s: "hp_state ps = s_chunk_data_done"
  shows "good_res data s0 (lp l) (step_chunk_data_done ch ps l)"
proof -
  have b: "hp_state ps \<in> body_states" using s by simp
  note f = pre_body [OF p b]
  have "good_res data s0 (lp l) (Inr (Break (ps\<lparr>hp_nread := 0, hp_state := s_chunk_size_start\<rparr>) l))"
    using f s by (intro body_go [OF p]) (auto simp: hp_wf_body)
  then show ?thesis
    using f s by (auto simp: step_chunk_data_done_def STRICT_CHECK_def hp_wf_body intro!: pre_fail [OF p] simp del: good_res_Inr)
qed

section \<open>The switch and the loops\<close>

lemma http_step_good:
  assumes p: "pre data ps l"
  shows "good_res data (hp_state ps) (cursor (hp_state ps) l) (http_step S data ch ps l)"
proof -
  note url = step_req_schema_good [OF p] step_req_url_good [OF p]
  note line = step_constant_good [OF p] step_first_http_major_good [OF p] step_http_major_good [OF p]
    step_first_http_minor_good [OF p] step_http_minor_good [OF p] step_res_first_status_code_good [OF p]
    step_res_status_code_good [OF p] step_res_status_good [OF p] step_req_line_good [OF p]
  note rest = step_dead_good [OF p] step_start_req_or_res_good [OF p] step_res_or_resp_H_good [OF p]
    step_start_res_good [OF p] step_res_line_almost_done_good [OF p] step_start_req_good [OF p]
    step_req_method_good [OF p] step_req_spaces_before_url_good [OF p]
    step_header_field_start_good [OF p] step_header_field_good [OF p] step_header_value_start_good [OF p]
    step_header_value_good [OF p] step_header_value_lws_good [OF p] step_header_almost_done_good [OF p]
    step_headers_almost_done_good [OF p] step_headers_done_good [OF p] step_body_identity_good [OF p]
    step_body_identity_eof_good [OF p] step_message_done_good [OF p] step_chunk_size_start_good [OF p]
    step_chunk_size_good [OF p] step_chunk_parameters_good [OF p] step_chunk_size_almost_done_good [OF p]
    step_chunk_data_good [OF p] step_chunk_data_almost_done_good [OF p] step_chunk_data_done_good [OF p]
  have c: "cursor s l = lp l" if "s \<noteq> s_headers_done" for s using that by (simp add: cursor_def)
  show ?thesis
    by (cases "hp_state ps") (simp_all add: http_step_def c url line rest plain_def url_state_def)
qed

lemma good_rank_mono: "good data s1 c1 x \<Longrightarrow> rank s1 \<le> rank s0 \<Longrightarrow> c0 \<le> c1 \<Longrightarrow> good data s0 c0 x"
  by (cases x) auto

lemma reexecute_byte_good:
  "pre data ps l \<Longrightarrow> rank (hp_state ps) \<le> fuel \<Longrightarrow>
     \<exists>x. reexecute_byte fuel S data ch ps l = Some (Inr x) \<and> good data (hp_state ps) (cursor (hp_state ps) l) x
       \<and> (\<forall>ps' l'. x \<noteq> Reexec ps' l')"
proof (induction fuel arbitrary: ps l)
  case 0
  then show ?case by (simp add: rank_def split: if_splits)
next
  case (Suc fuel)
  obtain x where x: "http_step S data ch ps l = Inr x" "good data (hp_state ps) (cursor (hp_state ps) l) x"
    using http_step_good [OF Suc.prems(1), of ch] by (auto simp: good_res_def)
  show ?case
  proof (cases x)
    case (Reexec ps' l')
    then have "pre data ps' l'" "rank (hp_state ps') < rank (hp_state ps)"
      and c: "cursor (hp_state ps) l \<le> cursor (hp_state ps') l'" using x(2) by auto
    moreover from this Suc.prems(2) have "rank (hp_state ps') \<le> fuel" by simp
    ultimately obtain y where "reexecute_byte fuel S data ch ps' l' = Some (Inr y)"
        "good data (hp_state ps') (cursor (hp_state ps') l') y" "\<forall>ps' l'. y \<noteq> Reexec ps' l'"
      using Suc.IH by blast
    with c x(1) Reexec \<open>rank (hp_state ps') < rank (hp_state ps)\<close> good_rank_mono show ?thesis
      by (auto intro: good_rank_mono)
  qed (use x in auto)
qed

text \<open>Between bytes: the invariant with the count of a chunk-size line at zero.\<close>

definition at_byte :: "char list \<Rightarrow> 'd http_parser \<Rightarrow> locals \<Rightarrow> bool" where
  "at_byte data ps l \<longleftrightarrow> hp_errno ps = HPE_OK \<and> pinv 0 ps \<and> marks_ok (hp_state ps) l
     \<and> (hp_state ps = s_header_field \<longrightarrow> header_field_mark l \<noteq> None)
     \<and> 0 \<le> lp l \<and> lp l \<le> int (length data) \<and> int (length data) < 2 ^ 63"

lemma count_nread_simps [simp]:
  "hp_state (count_nread ps) = hp_state ps" "hp_flags (count_nread ps) = hp_flags ps"
  "hp_header_state (count_nread ps) = hp_header_state ps" "hp_index (count_nread ps) = hp_index ps"
  "hp_content_length (count_nread ps) = hp_content_length ps" "hp_method (count_nread ps) = hp_method ps"
  "hp_errno (count_nread ps) = hp_errno ps" "hp_data (count_nread ps) = hp_data ps"
  "hp_type (count_nread ps) = hp_type ps"
  by (simp_all add: count_nread_def)

lemma phase_of_upd [simp]:
  "phase_of (count_nread ps) = phase_of ps" "phase_of (ps\<lparr>hp_data := d\<rparr>) = phase_of ps"
  by (simp_all add: phase_of_def)

lemma hp_wf_data [simp]: "hp_wf n (ps\<lparr>hp_data := d\<rparr>) = hp_wf n ps"
  by (simp add: hp_wf_def)

lemma count_nread_wf: "hp_wf 0 ps \<Longrightarrow> hp_wf 1 (count_nread ps)"
proof (cases "hp_state ps = s_chunk_size_start")
  case True
  then have "hp_nread (count_nread ps) = hp_nread ps + 1" by (simp add: count_nread_def PARSING_HEADER_def)
  then show "hp_wf 0 ps \<Longrightarrow> hp_wf 1 (count_nread ps)" using True by (simp add: hp_wf_def)
qed (simp add: hp_wf_def)

lemma count_nread_pre:
  assumes "at_byte data ps l" and "lp l < int (length data)"
  shows "pre data (count_nread ps) l"
  using assms count_nread_wf [of ps] by (auto simp: at_byte_def pre_def pinv_def)

lemma execute_loop_good:
  assumes "at_byte data ps l"
    and "length data - nat (lp l) + (if hp_state ps = s_headers_done then 1 else 0) < fuel"
  shows "\<exists>x. execute_loop fuel S data ps l = Some (Inr x) \<and> (case x of
      Break ps' l' \<Rightarrow> at_byte data ps' l' \<and> lp l' = int (length data)
    | Reexec ps' l' \<Rightarrow> False
    | _ \<Rightarrow> good data s0 0 x)"
  using assms
proof (induction fuel arbitrary: ps l)
  case 0
  then show ?case by simp
next
  case (Suc fuel)
  show ?case
  proof (cases "lp l = int (length data)")
    case True
    then show ?thesis using Suc.prems(1) by simp
  next
    case False
    then have lt: "lp l < int (length data)" "0 \<le> lp l" using Suc.prems(1) by (auto simp: at_byte_def)
    note pre = count_nread_pre [OF Suc.prems(1) lt(1)]
    let ?ch = "data ! nat (lp l)" and ?ps = "count_nread ps"
    have "rank (hp_state ?ps) \<le> 5" by (simp add: rank_def)
    then obtain x where x: "reexecute_byte 5 S data ?ch ?ps l = Some (Inr x)"
        "good data (hp_state ps) (cursor (hp_state ps) l) x" "\<forall>ps' l'. x \<noteq> Reexec ps' l'"
      using reexecute_byte_good [OF pre, of 5 ?ch] by auto
    show ?thesis
    proof (cases "PARSING_HEADER (hp_state ps) \<and> hp_nread ?ps > HTTP_MAX_HEADER_SIZE")
      case True
      then show ?thesis using lt by (simp add: fail_def)
    next
      case no: False
      show ?thesis
      proof (cases x)
        case (Break ps2 l2)
        let ?l = "l2\<lparr>lp := lp l2 + 1\<rparr>"
        have g: "at_byte data ps2 ?l" "hp_state ps2 \<noteq> s_headers_done" "cursor (hp_state ps) l \<le> lp l2"
          using x(2) Break Suc.prems(1) lt by (auto simp: at_byte_def cursor_def split: if_splits)
        have "length data - nat (lp ?l) < fuel"
          using Suc.prems(2) g(2,3) lt by (simp add: cursor_def split: if_splits)
        then obtain y where "execute_loop fuel S data ps2 ?l = Some (Inr y)" "case y of
            Break ps' l' \<Rightarrow> at_byte data ps' l' \<and> lp l' = int (length data)
          | Reexec ps' l' \<Rightarrow> False | _ \<Rightarrow> good data s0 0 y"
          using Suc.IH [OF g(1)] g(2) by auto
        then show ?thesis using x(1) Break no False lt by (auto simp: Let_def)
      next
        case (Reexec ps2 l2)
        then show ?thesis using x(3) by simp
      next
        case (Return ps2 n)
        then show ?thesis using x no False lt by (auto simp: Let_def)
      next
        case (Error ps2 n)
        then show ?thesis using x no False lt by (auto simp: Let_def)
      qed
    qed
  qed
qed

section \<open>The function\<close>

text \<open>What a call leaves behind: a parser in error, or one a later call may go on with.\<close>

definition parser_ok :: "'d http_parser \<Rightarrow> bool" where
  "parser_ok ps \<longleftrightarrow> (hp_errno ps \<in> {HPE_OK, HPE_PAUSED} \<longrightarrow> pinv 0 ps)"

lemma marks_at_most_one: "marks_ok s l \<Longrightarrow> mark_count l \<le> 1"
  by (auto simp: marks_ok_def mark_count_def url_state_def split: if_splits)

lemma finish_data_good:
  assumes "hp_errno ps = HPE_OK" and "pinv 0 ps" and "marks_ok (hp_state ps) l" and "lp l = int (length data)"
    and ret: "\<And>ps'. hp_errno ps' \<noteq> HPE_OK \<Longrightarrow> (hp_errno ps' = HPE_PAUSED \<Longrightarrow> pinv 0 ps') \<Longrightarrow> Q (Inr (Return ps' (lp l)))"
    and k: "\<And>d. pinv 0 (ps\<lparr>hp_data := d\<rparr>) \<Longrightarrow> Q (k (ps\<lparr>hp_data := d\<rparr>) (set_mark m None l))"
  shows "Q (CALLBACK_DATA_NOADVANCE S data m ps l k)"
proof (cases "get_mark m l")
  case None
  then have "set_mark m None l = l" by (cases m) auto
  then show ?thesis
    using k [of "hp_data ps"] None assms by (simp add: CALLBACK_DATA_NOADVANCE_def CALLBACK_DATA_ER_def)
next
  case (Some at)
  let ?N = "if m = M_body then (\<lambda>bs. bs \<noteq> []) else (\<lambda>_ :: char list. True)"
  have keep: "pinv 0 (ps\<lparr>hp_data := d\<rparr>)" if "I (phase_of ps) d" "hp_state ps \<in> value_states \<Longrightarrow> F (phase_of ps) d" for d
    using that assms(2) by (simp add: pinv_def)
  have "\<exists>P R. data_ok (mark_cb m S) ?N P R \<and> P (hp_data ps) \<and> (\<forall>d. R d \<longrightarrow> pinv 0 (ps\<lparr>hp_data := d\<rparr>))"
  proof (cases m)
    case M_header_field
    then have s: "hp_state ps = s_header_field" using assms(3) Some by (auto simp: marks_ok_def)
    then have "phase_of ps \<noteq> Idle" by (simp add: phase_of_def state_sets)
    then show ?thesis
      using M_header_field field_law [of "phase_of ps"] keep named_law assms(2) s
      by (intro exI [of _ "I (phase_of ps)"] exI [of _ "F (phase_of ps)"]) (auto simp: pinv_def)
  next
    case M_header_value
    then have s: "hp_state ps = s_header_value" using assms(3) Some by (auto simp: marks_ok_def)
    then have "phase_of ps \<noteq> Idle" by (simp add: phase_of_def state_sets)
    then show ?thesis
      using M_header_value value_law [of "phase_of ps"] keep named_law assms(2) s
      by (intro exI [of _ "F (phase_of ps)"]) (auto simp: pinv_def)
  next
    case M_url
    then have u: "url_state (hp_state ps)" using assms(3) Some by (auto simp: marks_ok_def)
    have "phase_of ps = Head"
      using url_stateD [OF u] assms(2) by (simp add: phase_of_def pinv_def hp_wf_def)
    then show ?thesis
      using M_url url_law url_stateD [OF u] keep assms(2) by (intro exI [of _ "I Head"]) (auto simp: pinv_def)
  next
    case M_body
    then have "hp_state ps \<in> body_states" "hp_state ps \<notin> value_states"
      using assms(3) Some by (auto simp: marks_ok_def value_states_def)
    moreover from this have "phase_of ps = Body" by (auto simp: phase_of_def state_sets)
    ultimately show ?thesis
      using M_body body_law keep assms(2) by (intro exI [of _ "I Body"]) (auto simp: pinv_def)
  qed
  then obtain P R where law: "data_ok (mark_cb m S) ?N P R" and P: "P (hp_data ps)"
    and inv: "\<And>d. R d \<Longrightarrow> pinv 0 (ps\<lparr>hp_data := d\<rparr>)" by blast
  have rng: "0 \<le> at \<and> at \<le> lp l \<and> (m = M_body \<longrightarrow> at < lp l)"
    using assms(3) Some by (cases m) (auto simp: marks_ok_def)
  show ?thesis
    unfolding CALLBACK_DATA_NOADVANCE_def
    by (rule data_gen [OF assms(1) law P]) (use assms(4) rng Some inv k ret in auto)
qed

lemma marks_ok_set: "marks_ok s l \<Longrightarrow> marks_ok s (set_mark m None l)"
  by (cases m) (auto simp: marks_ok_def)

lemma lp_set_mark [simp]: "lp (set_mark m v l) = lp l"
  by (cases m) auto

lemma execute_finish_good:
  assumes "at_byte data ps l" and "lp l = int (length data)"
  shows "\<exists>ps'. execute_finish S data ps l = Inr (Return ps' (int (length data))) \<and> parser_ok ps'"
proof -
  define Q where "Q r \<longleftrightarrow> (\<exists>ps'. r = Inr (Return ps' (int (length data))) \<and> parser_ok ps')" for r :: "'d outcome res"
  have ret: "Q (Inr (Return ps' n))"
    if "n = int (length data)" "hp_errno ps' \<noteq> HPE_OK" "hp_errno ps' = HPE_PAUSED \<Longrightarrow> pinv 0 ps'" for ps' n
    using that by (auto simp: Q_def parser_ok_def)
  have fin: "Q (Inr (Return ps' (int (length data))))" if "pinv 0 ps'" for ps'
    using that by (auto simp: Q_def parser_ok_def)
  have "Q (execute_finish S data ps l)"
    unfolding execute_finish_def using assms marks_at_most_one [of "hp_state ps" l]
    by (auto simp: at_byte_def intro!: finish_data_good [where Q = Q] ret fin marks_ok_set)
  then show ?thesis by (simp add: Q_def)
qed

lemma execute_eof_good:
  assumes "hp_errno ps = HPE_OK" and "pinv 0 ps"
  shows "\<exists>ps' n. execute_eof S ps = Inr (ps', n) \<and> n \<in> {0, 1} \<and> (n = 1 \<longrightarrow> hp_errno ps' = HPE_INVALID_EOF_STATE)"
proof (cases "hp_state ps \<in> {s_headers_done, s_body_identity_eof}")
  case True
  then have "I Body (hp_data ps)" using assms(2) by (auto simp: pinv_def phase_of_def state_sets)
  then have "case on_message_complete S of None \<Rightarrow> True | Some f \<Rightarrow> \<exists>d pz rc. f ps = Inr (d, pz, rc)"
    using message_complete_law notify_okD [of _ "I Body" "I Idle" ps]
    by (cases "on_message_complete S") (simp_all, blast)
  then show ?thesis
    using True assms(1) by (auto simp: execute_eof_def CALLBACK_NOTIFY_ER_def Let_def split: option.splits)
next
  case False
  then show ?thesis by (auto simp: execute_eof_def)
qed

lemma at_byte_init: "hp_errno ps = HPE_OK \<Longrightarrow> pinv 0 ps \<Longrightarrow> int (length data) < 2 ^ 63 \<Longrightarrow>
  at_byte data ps (init_locals (hp_state ps))"
  by (auto simp: at_byte_def init_locals_def marks_ok_def)

theorem execute_good:
  assumes "parser_ok ps" and "int (length data) < 2 ^ 63" and "data \<noteq> []"
  shows "\<exists>ps' n. http_parser_execute S data ps = Some (Inr (ps', n)) \<and> parser_ok ps' \<and> 0 \<le> n \<and> n \<le> int (length data)
    \<and> (hp_errno ps' = HPE_OK \<longrightarrow> n = int (length data))"
proof (cases "hp_errno ps = HPE_OK")
  case False
  then show ?thesis using assms by (simp add: http_parser_execute_def)
next
  case True
  let ?l = "init_locals (hp_state ps)"
  have b: "at_byte data ps ?l" using assms True at_byte_init by (simp add: parser_ok_def)
  have "length data - nat (lp ?l) + (if hp_state ps = s_headers_done then 1 else 0) < length data + 2"
    by (simp add: init_locals_def)
  from execute_loop_good [OF b this, of s_dead] obtain x where x: "execute_loop (length data + 2) S data ps ?l = Some (Inr x)" "case x of
      Break ps' l' \<Rightarrow> at_byte data ps' l' \<and> lp l' = int (length data)
    | Reexec ps' l' \<Rightarrow> False | _ \<Rightarrow> good data s_dead 0 x" by blast
  show ?thesis
  proof (cases x)
    case (Break ps' l')
    then obtain ps2 where "execute_finish S data ps' l' = Inr (Return ps2 (int (length data)))" "parser_ok ps2"
      using execute_finish_good [of data ps' l'] x(2) by auto
    then show ?thesis using x Break True assms(3) by (simp add: http_parser_execute_def)
  next
    case (Reexec ps' l')
    then show ?thesis using x(2) by simp
  next
    case (Return ps' n)
    then show ?thesis using x True assms(3) by (auto simp: http_parser_execute_def parser_ok_def)
  next
    case (Error ps' n)
    then show ?thesis
      using x True assms(3) by (auto simp: http_parser_execute_def error_errno_def parser_ok_def)
  qed
qed

text \<open>A fresh parser for a user's object that is idle.\<close>

lemma init_ok:
  "I Idle d \<Longrightarrow> t = HTTP_REQUEST \<or> (\<forall>d. I Head d \<longrightarrow> I Idle d) \<Longrightarrow> parser_ok (http_parser_init t d)"
  by (auto simp: parser_ok_def pinv_def http_parser_init_def hp_wf_def phase_of_def state_sets)

lemma unpause_ok: "parser_ok ps \<Longrightarrow> http_parser_pause ps False = Inr ps' \<Longrightarrow> parser_ok ps'"
  by (auto simp: parser_ok_def http_parser_pause_def split: if_splits)

end

end
