(* ===== verification/Http_Parser_Props.thy ===== *)
theory Http_Parser_Props
  imports Http_Parser_Safe
begin

text \<open>
  The properties of the HTTP parser: it is total and safe for every user whose callbacks return, it
  calls them in the order of the protocol, it reads lengths and bodies exactly, and the places
  where it is more lenient than it means to be.
\<close>

section \<open>Users that log\<close>

text \<open>
  The most general user: it records every callback, and decides by an arbitrary function of the record
  whether to pause and what to return.
\<close>

datatype http_event =
    Message_Begin | Url string | Status_Complete | Header_Field string | Header_Value string
  | Headers_Complete | Body_Data string | Message_Complete

type_synonym policy = "http_event list \<Rightarrow> bool \<times> int"

definition log_event :: "policy \<Rightarrow> http_event list \<Rightarrow> http_event \<Rightarrow> http_event list cb_result" where
  "log_event pol d e = Inr (d @ [e], pol (d @ [e]))"

definition log_settings :: "policy \<Rightarrow> http_event list http_parser_settings" where
  "log_settings pol =
     \<lparr>on_message_begin = Some (\<lambda>ps. log_event pol (hp_data ps) Message_Begin),
      on_url = Some (\<lambda>ps bs. log_event pol (hp_data ps) (Url bs)),
      on_status_complete = Some (\<lambda>ps. log_event pol (hp_data ps) Status_Complete),
      on_header_field = Some (\<lambda>ps bs. log_event pol (hp_data ps) (Header_Field bs)),
      on_header_value = Some (\<lambda>ps bs. log_event pol (hp_data ps) (Header_Value bs)),
      on_headers_complete = Some (\<lambda>ps. log_event pol (hp_data ps) Headers_Complete),
      on_body = Some (\<lambda>ps bs. log_event pol (hp_data ps) (Body_Data bs)),
      on_message_complete = Some (\<lambda>ps. log_event pol (hp_data ps) Message_Complete)\<rparr>"

text \<open>
  The protocol as an automaton: the phase, and whether the name of a header has been delivered, without which no
  value may come.  A response parser may announce a message again before its status line
  (it calls \<^verbatim>\<open>on_message_begin\<close> for every blank line there); a request parser may not.
\<close>

fun protocol_step :: "bool \<Rightarrow> (phase \<times> bool) option \<Rightarrow> http_event \<Rightarrow> (phase \<times> bool) option" where
  "protocol_step r (Some (Idle, n)) Message_Begin = Some (Head, False)"
| "protocol_step r (Some (Head, n)) Message_Begin = (if r then Some (Head, False) else None)"
| "protocol_step r (Some (Head, n)) (Url u) = Some (Head, n)"
| "protocol_step r (Some (Head, n)) Status_Complete = Some (Head, n)"
| "protocol_step r (Some (Head, n)) (Header_Field f) = Some (Head, True)"
| "protocol_step r (Some (Head, n)) (Header_Value v) = (if n then Some (Head, True) else None)"
| "protocol_step r (Some (Head, n)) Headers_Complete = Some (Body, False)"
| "protocol_step r (Some (Body, n)) (Header_Field f) = Some (Body, True)"
| "protocol_step r (Some (Body, n)) (Header_Value v) = (if n then Some (Body, True) else None)"
| "protocol_step r (Some (Body, n)) (Body_Data b) = (if b = [] then None else Some (Body, False))"
| "protocol_step r (Some (Body, n)) Message_Complete = Some (Idle, False)"
| "protocol_step r _ _ = None"

definition protocol_phase :: "bool \<Rightarrow> http_event list \<Rightarrow> (phase \<times> bool) option" where
  "protocol_phase r es = foldl (protocol_step r) (Some (Idle, False)) es"

definition log_inv :: "bool \<Rightarrow> phase \<Rightarrow> http_event list \<Rightarrow> bool" where
  "log_inv r ph es \<longleftrightarrow> (\<exists>n. protocol_phase r es = Some (ph, n))
     \<or> (r \<and> ph = Idle \<and> (\<exists>n. protocol_phase r es = Some (Head, n)))"

definition log_named :: "bool \<Rightarrow> phase \<Rightarrow> http_event list \<Rightarrow> bool" where
  "log_named r ph es \<longleftrightarrow> protocol_phase r es = Some (ph, True)"

lemma protocol_step_header:
  "ph \<noteq> Idle \<Longrightarrow> protocol_step r (Some (ph, n)) (Header_Field f) = Some (ph, True)"
  "ph \<noteq> Idle \<Longrightarrow> protocol_step r (Some (ph, True)) (Header_Value f) = Some (ph, True)"
  by (cases ph; simp)+

interpretation log_user: http_callbacks "log_settings pol" "log_inv r" "log_named r" for pol r
  by unfold_locales
    (auto simp: notify_ok_def data_ok_def log_settings_def log_event_def log_inv_def log_named_def protocol_phase_def
      protocol_step_header split: if_splits)

text \<open>A connection: buffers are handed to the parser one after the other.\<close>

fun feed :: "'d http_parser_settings \<Rightarrow> char list list \<Rightarrow> 'd http_parser \<Rightarrow> 'd http_parser res option" where
  "feed S [] ps = Some (Inr ps)"
| "feed S (b # bs) ps =
     (case http_parser_execute S b ps of
        None \<Rightarrow> None
      | Some (Inl e) \<Rightarrow> Some (Inl e)
      | Some (Inr (ps', n)) \<Rightarrow> feed S bs ps')"

context http_callbacks
begin

lemma feed_good:
  "parser_ok ps \<Longrightarrow> \<forall>b \<in> set bs. b \<noteq> [] \<and> int (length b) < 2 ^ 63 \<Longrightarrow>
     \<exists>ps'. feed S bs ps = Some (Inr ps') \<and> parser_ok ps'"
proof (induction bs arbitrary: ps)
  case Nil
  then show ?case by simp
next
  case (Cons b bs)
  obtain ps' n where "http_parser_execute S b ps = Some (Inr (ps', n))" "parser_ok ps'"
    using execute_good [OF Cons.prems(1), of b] Cons.prems(2) by auto
  with Cons show ?case by auto
qed

end

section \<open>Totality and safety\<close>

text \<open>The callbacks of \<open>S\<close> always return (they may fail, or pause the parser).\<close>

definition callbacks_return :: "'d http_parser_settings \<Rightarrow> bool" where
  "callbacks_return S \<longleftrightarrow>
     (\<forall>f ps. Some f \<in> {on_message_begin S, on_status_complete S, on_headers_complete S, on_message_complete S}
        \<longrightarrow> is_ok (f ps))
   \<and> (\<forall>f ps bs. Some f \<in> {on_url S, on_header_field S, on_header_value S, on_body S} \<longrightarrow> is_ok (f ps bs))"

definition parser_wf :: "'d http_parser \<Rightarrow> bool" where
  "parser_wf ps \<longleftrightarrow> (hp_errno ps \<in> {HPE_OK, HPE_PAUSED} \<longrightarrow> hp_wf 0 ps)"

lemma is_ok_triple: "is_ok r \<Longrightarrow> \<exists>a b c. r = Inr (a, b, c)"
  by (cases r) auto

lemma callbacks_return_locale: "callbacks_return S \<Longrightarrow> http_callbacks S (\<lambda>_ _. True) (\<lambda>_ _. True)"
  unfolding callbacks_return_def
  by unfold_locales (auto simp: notify_ok_def data_ok_def split: option.split intro!: is_ok_triple)





section \<open>Lengths\<close>

text \<open>A length read digit by digit, as the states \<^verbatim>\<open>s_header_value\<close> and \<^verbatim>\<open>s_chunk_size\<close> read it.\<close>

fun read_length :: "64 word \<Rightarrow> int list \<Rightarrow> 64 word \<Rightarrow> 64 word option" where
  "read_length base [] n = Some n"
| "read_length base (d # ds) n = Option.bind (length_digit base d n) (read_length base ds)"

definition digits_value :: "int \<Rightarrow> int \<Rightarrow> int list \<Rightarrow> int" where
  "digits_value base n ds = foldl (\<lambda>a d. a * base + d) n ds"

lemma digits_value_mono:
  "1 \<le> base \<Longrightarrow> 0 \<le> n \<Longrightarrow> \<forall>d \<in> set ds. 0 \<le> d \<Longrightarrow> n \<le> digits_value base n ds"
proof (induction ds arbitrary: n)
  case Nil
  then show ?case by (simp add: digits_value_def)
next
  case (Cons d ds)
  have "n * 1 \<le> n * base" using Cons.prems by (intro mult_left_mono) auto
  then have "n \<le> n * base + d" "0 \<le> n * base + d" using Cons.prems by auto
  with Cons.IH [of "n * base + d"] Cons.prems show ?case by (simp add: digits_value_def)
qed

lemma uint_length_step:
  fixes base n :: "64 word"
  assumes "0 \<le> d" and "uint n * uint base + d < 2 ^ 64"
  shows "uint (n * base + word_of_int d) = uint n * uint base + d"
proof -
  have "0 \<le> uint n * uint base" by simp
  then have b: "uint n * uint base < 2 ^ 64" "d < 2 ^ 64" using assms by linarith+
  have "uint (n * base) = uint n * uint base" using b by (simp add: uint_word_ariths)
  moreover have "uint (word_of_int d :: 64 word) = d" by (subst uint_word_of_int) (use b assms in simp)
  ultimately show ?thesis using assms by (simp add: uint_word_ariths)
qed

lemma read_length_value:
  fixes base n :: "64 word"
  assumes "1 \<le> uint base" and "\<forall>d \<in> set ds. 0 \<le> d" and "digits_value (uint base) (uint n) ds < 2 ^ 64 - 1"
  shows "\<exists>m. read_length base ds n = Some m \<and> uint m = digits_value (uint base) (uint n) ds"
  using assms
proof (induction ds arbitrary: n)
  case Nil
  then show ?case by (simp add: digits_value_def)
next
  case (Cons d ds)
  let ?t = "n * base + word_of_int d" and ?v = "uint n * uint base + d"
  have dv: "digits_value (uint base) (uint n) (d # ds) = digits_value (uint base) ?v ds"
    by (simp add: digits_value_def)
  have "uint n * 1 \<le> uint n * uint base" using Cons.prems(1) by (intro mult_left_mono) auto
  then have v: "uint n \<le> ?v" using Cons.prems(2) by auto
  have "?v \<le> digits_value (uint base) ?v ds" using Cons.prems v by (intro digits_value_mono) auto
  then have lt: "?v < 2 ^ 64 - 1" using Cons.prems(3) dv by linarith
  have t: "uint ?t = ?v" using lt Cons.prems(2) by (intro uint_length_step) auto
  have "?t \<noteq> ULLONG_MAX"
    using t lt by (auto simp: ULLONG_MAX_def unsigned_minus_1_eq_mask mask_eq_exp_minus_1)
  moreover have "\<not> ?t < n" using t v by (simp add: word_less_def)
  ultimately have "length_digit base d n = Some ?t" by (simp add: length_digit_def Let_def)
  moreover obtain m where "read_length base ds ?t = Some m" "uint m = digits_value (uint base) (uint ?t) ds"
    using Cons.IH [of ?t] Cons.prems dv t by auto
  ultimately show ?case using dv t by simp
qed

subsection \<open>Runs of the loop without callbacks\<close>

text \<open>\<open>steps\<close>: bytes that are each consumed by one execution of the switch that leaves the marks alone.\<close>

fun steps :: "'d http_parser_settings \<Rightarrow> char list \<Rightarrow> char list \<Rightarrow> 'd http_parser \<Rightarrow> locals \<Rightarrow> 'd http_parser option" where
  "steps S data [] ps l = Some ps"
| "steps S data (ch # bs) ps l =
     (if PARSING_HEADER (hp_state ps) \<and> hp_nread (count_nread ps) > HTTP_MAX_HEADER_SIZE then None
      else case http_step S data ch (count_nread ps) l of
        Inr (Break ps' l') \<Rightarrow> if l' = l then steps S data bs ps' (l\<lparr>lp := lp l + 1\<rparr>) else None
      | _ \<Rightarrow> None)"

lemma execute_loop_steps:
  assumes "steps S data bs ps l = Some ps'" and "data = pre @ bs @ post" and "lp l = int (length pre)"
  shows "execute_loop (length bs + fuel) S data ps l = execute_loop fuel S data ps' (l\<lparr>lp := lp l + int (length bs)\<rparr>)"
  using assms
proof (induction bs arbitrary: ps l pre)
  case Nil
  then show ?case by (cases l) simp
next
  case (Cons ch bs)
  from Cons.prems(1) obtain ps2 where s: "http_step S data ch (count_nread ps) l = Inr (Break ps2 l)"
      "steps S data bs ps2 (l\<lparr>lp := lp l + 1\<rparr>) = Some ps'"
      "\<not> (PARSING_HEADER (hp_state ps) \<and> hp_nread (count_nread ps) > HTTP_MAX_HEADER_SIZE)"
    by (auto split: if_splits sum.splits outcome.splits)
  have ch: "data ! nat (lp l) = ch" "lp l < int (length data)" "0 \<le> lp l" using Cons.prems by auto
  have "reexecute_byte 5 S data ch (count_nread ps) l = Some (Inr (Break ps2 l))"
    using s(1) by (simp add: numeral_eq_Suc)
  moreover have "execute_loop (length bs + fuel) S data ps2 (l\<lparr>lp := lp l + 1\<rparr>)
      = execute_loop fuel S data ps' (l\<lparr>lp := lp l + 1 + int (length bs)\<rparr>)"
    using Cons.IH [OF s(2), of "pre @ [ch]"] Cons.prems by simp
  ultimately show ?case using ch s(3) by (auto simp: Let_def algebra_simps)
qed

lemma digit_range: "IS_NUM ch \<Longrightarrow> 0 \<le> uchar ch - 48 \<and> uchar ch - 48 < 10"
proof -
  have "schar (CHR ''0'') = 48" "schar (CHR ''9'') = 57" by (simp_all add: schar_def uchar_def)
  then show "IS_NUM ch \<Longrightarrow> 0 \<le> uchar ch - 48 \<and> uchar ch - 48 < 10"
    using uchar_range(2) [of ch] by (auto simp: IS_NUM_def schar_def simp del: uchar_range split: if_splits)
qed

lemma IS_NUM_not: "IS_NUM ch \<Longrightarrow> ch \<noteq> CR \<and> ch \<noteq> LF \<and> ch \<noteq> SP \<and> ch \<noteq> TAB"
  by (auto simp: IS_NUM_def schar_def uchar_def)

definition digit_values :: "string \<Rightarrow> int list" where
  "digit_values s = map (\<lambda>c. uchar c - 48) s"

lemma nread_count:
  assumes "uint (hp_nread ps) + 1 \<le> 81920"
  shows "uint (hp_nread ps + 1) = uint (hp_nread ps) + 1 \<and> \<not> hp_nread ps + 1 > HTTP_MAX_HEADER_SIZE"
proof -
  have "uint (hp_nread ps + 1) = uint (hp_nread ps) + 1" using assms by (simp add: uint_word_ariths)
  then show ?thesis using assms by (simp add: HTTP_MAX_HEADER_SIZE_def word_less_def)
qed

lemma steps_append:
  "steps S data (as @ bs) ps l =
     (case steps S data as ps l of None \<Rightarrow> None | Some ps' \<Rightarrow> steps S data bs ps' (l\<lparr>lp := lp l + int (length as)\<rparr>))"
  by (induction as arbitrary: ps l) (auto simp: ac_simps split: sum.splits outcome.splits option.split)

lemma steps_seq:
  "steps S data as ps l = Some ps1 \<Longrightarrow> steps S data bs ps1 (l\<lparr>lp := lp l + int (length as)\<rparr>) = Some ps2 \<Longrightarrow>
     steps S data (as @ bs) ps l = Some ps2"
  by (simp add: steps_append)

text \<open>
  A run of digits in a state \<open>P\<close> whose step is \<open>length_digit\<close>: if the value fits, every digit is accepted
  and the value is exact.
\<close>

lemma length_steps:
  fixes base :: "64 word"
  assumes step: "\<And>ps c l t. P ps \<Longrightarrow> C c \<Longrightarrow> length_digit base (v c) (hp_content_length ps) = Some t \<Longrightarrow>
      http_step S data c (count_nread ps) l = Inr (Break ((count_nread ps)\<lparr>hp_content_length := t\<rparr>) l)"
    and hdr: "\<And>ps. P ps \<Longrightarrow> PARSING_HEADER (hp_state ps)"
    and pres: "\<And>ps t. P ps \<Longrightarrow> P ((count_nread ps)\<lparr>hp_content_length := t\<rparr>)"
    and base: "1 \<le> uint base" and pos: "\<And>c. C c \<Longrightarrow> 0 \<le> v c"
    and "P ps" and "\<forall>c \<in> set ds. C c"
    and "digits_value (uint base) (uint (hp_content_length ps)) (map v ds) < 2 ^ 64 - 1"
    and "uint (hp_nread ps) + int (length ds) \<le> 81920"
  shows "\<exists>ps'. steps S data ds ps l = Some ps' \<and> P ps'
    \<and> uint (hp_content_length ps') = digits_value (uint base) (uint (hp_content_length ps)) (map v ds)
    \<and> uint (hp_nread ps') = uint (hp_nread ps) + int (length ds)
    \<and> hp_errno ps' = hp_errno ps \<and> hp_data ps' = hp_data ps"
  using assms(6-9)
proof (induction ds arbitrary: ps l)
  case Nil
  then show ?case by (simp add: digits_value_def)
next
  case (Cons c ds)
  let ?n = "hp_content_length ps" and ?d = "v c"
  have d: "0 \<le> ?d" "\<forall>x \<in> set (map v ds). 0 \<le> x" using pos Cons.prems(2) by auto
  obtain m where m: "read_length base (map v (c # ds)) ?n = Some m"
    using read_length_value [OF base, of "map v (c # ds)" ?n] Cons.prems(3) d by auto
  then obtain t where t: "length_digit base ?d ?n = Some t" by (auto split: bind_splits)
  note nr = nread_count [of ps]
  let ?ps = "(count_nread ps)\<lparr>hp_content_length := t\<rparr>"
  have nread: "count_nread ps = ps\<lparr>hp_nread := hp_nread ps + 1\<rparr>"
    using hdr [OF Cons.prems(1)] by (simp add: count_nread_def)
  have st: "http_step S data c (count_nread ps) l = Inr (Break ?ps l)"
    using step [OF Cons.prems(1) _ t] Cons.prems(2) by simp
  have tv: "digits_value (uint base) (uint t) (map v ds) = digits_value (uint base) (uint ?n) (map v (c # ds))"
  proof -
    have "uint ?n * uint base + ?d \<le> digits_value (uint base) (uint ?n * uint base + ?d) (map v ds)"
      using base d by (intro digits_value_mono) auto
    also have "\<dots> = digits_value (uint base) (uint ?n) (map v (c # ds))" by (simp add: digits_value_def)
    finally have "uint (?n * base + word_of_int ?d) = uint ?n * uint base + ?d"
      using Cons.prems(3) d by (intro uint_length_step) auto
    moreover have "t = ?n * base + word_of_int ?d" using t by (simp add: length_digit_def Let_def split: if_splits)
    ultimately show ?thesis by (simp add: digits_value_def)
  qed
  have "\<exists>ps'. steps S data ds ?ps (l\<lparr>lp := lp l + 1\<rparr>) = Some ps' \<and> P ps'
    \<and> uint (hp_content_length ps') = digits_value (uint base) (uint (hp_content_length ?ps)) (map v ds)
    \<and> uint (hp_nread ps') = uint (hp_nread ?ps) + int (length ds)
    \<and> hp_errno ps' = hp_errno ?ps \<and> hp_data ps' = hp_data ?ps"
    using Cons.prems tv nr pres [OF Cons.prems(1)] by (intro Cons.IH) (auto simp: nread)
  then show ?case using st tv nr Cons.prems(4) by (auto simp: nread)
qed

lemma content_length_steps:
  assumes "hp_state ps = s_header_value" and "hp_header_state ps = h_content_length"
    and "\<forall>c \<in> set ds. IS_NUM c"
    and "digits_value 10 (uint (hp_content_length ps)) (digit_values ds) < 2 ^ 64 - 1"
    and "uint (hp_nread ps) + int (length ds) \<le> 81920"
  shows "\<exists>ps'. steps S data ds ps l = Some ps'
    \<and> uint (hp_content_length ps') = digits_value 10 (uint (hp_content_length ps)) (digit_values ds)
    \<and> hp_state ps' = s_header_value \<and> hp_errno ps' = hp_errno ps \<and> hp_data ps' = hp_data ps"
  using length_steps [of "\<lambda>ps. hp_state ps = s_header_value \<and> hp_header_state ps = h_content_length" IS_NUM 10
      "\<lambda>c. uchar c - 48" S data ps ds l] assms digit_range IS_NUM_not
  by (auto simp: digit_values_def http_step_def step_header_value_def value_char_def Let_def PARSING_HEADER_def)

definition quiet :: policy where
  "quiet es = (False, 0)"

text \<open>Input that ends inside a header value: the value so far is delivered.\<close>

lemma execute_value_steps:
  assumes "hp_state ps = s_header_value" and "hp_errno ps = HPE_OK" and "data \<noteq> []"
    and "steps (log_settings quiet) data data ps (init_locals s_header_value) = Some ps'"
    and "hp_state ps' = s_header_value" and "hp_errno ps' = HPE_OK"
  shows "http_parser_execute (log_settings quiet) data ps
    = Some (Inr (ps'\<lparr>hp_data := hp_data ps' @ [Header_Value data]\<rparr>, int (length data)))"
proof -
  let ?l = "init_locals s_header_value"
  have "execute_loop (length data + 2) (log_settings quiet) data ps ?l
      = execute_loop 2 (log_settings quiet) data ps' (?l\<lparr>lp := lp ?l + int (length data)\<rparr>)"
    by (rule execute_loop_steps [OF assms(4), of "[]" "[]"]) (simp_all add: init_locals_def)
  also have "\<dots> = Some (Inr (Break ps' (?l\<lparr>lp := int (length data)\<rparr>)))"
    by (simp add: numeral_2_eq_2 init_locals_def)
  finally have e: "execute_loop (length data + 2) (log_settings quiet) data ps ?l
      = Some (Inr (Break ps' (?l\<lparr>lp := int (length data)\<rparr>)))" .
  show ?thesis
    using assms e
    by (simp add: http_parser_execute_def execute_finish_def mark_count_def init_locals_def url_state_def
        CALLBACK_DATA_NOADVANCE_def CALLBACK_DATA_ER_def log_settings_def log_event_def quiet_def mem_read_def
        after_cb_def Let_def)
qed




subsection \<open>Chunk sizes\<close>

text \<open>The digits \<^verbatim>\<open>"%X"\<close> prints are the digits the parser reads back.\<close>

lemma unhex_hex_digit: "d < 16 \<Longrightarrow> unhex_at (hex_digit d) = int d"
proof -
  have "list_all (\<lambda>d. unhex_at (hex_digit d) = int d) [0..<16]" by code_simp
  then show "d < 16 \<Longrightarrow> unhex_at (hex_digit d) = int d" by (simp add: list_all_iff)
qed

lemma hex_digit_not_CR: "d < 16 \<Longrightarrow> hex_digit d \<noteq> CR"
proof -
  have "list_all (\<lambda>d. hex_digit d \<noteq> CR) [0..<16]" by code_simp
  then show "d < 16 \<Longrightarrow> hex_digit d \<noteq> CR" by (simp add: list_all_iff)
qed

definition is_hex :: "char \<Rightarrow> bool" where
  "is_hex c \<longleftrightarrow> (\<exists>d < 16. c = hex_digit d)"

lemma is_hexD: "is_hex c \<Longrightarrow> 0 \<le> unhex_at c \<and> unhex_at c \<noteq> - 1 \<and> c \<noteq> CR"
  using unhex_hex_digit hex_digit_not_CR by (auto simp: is_hex_def)

lemma fmt_X_hex: "(\<forall>c \<in> set (fmt_X n). is_hex c) \<and> fmt_X n \<noteq> []"
proof (induction n rule: fmt_X.induct)
  case (1 n)
  then show ?case
    by (subst (1 2) fmt_X.simps) (auto simp: is_hex_def intro: exI [of _ "n mod 16"])
qed

lemma fmt_X_value: "digits_value 16 0 (map unhex_at (fmt_X n)) = int n"
proof (induction n rule: fmt_X.induct)
  case (1 n)
  show ?case
  proof (cases "n < 16")
    case True
    then show ?thesis by (simp add: fmt_X.simps digits_value_def unhex_hex_digit)
  next
    case False
    then have "digits_value 16 0 (map unhex_at (fmt_X n)) = int (n div 16) * 16 + int (n mod 16)"
      using 1 by (subst fmt_X.simps) (simp add: digits_value_def unhex_hex_digit)
    then show ?thesis by presburger
  qed
qed

lemma fmt_X_length: "n < 16 ^ k \<Longrightarrow> 0 < k \<Longrightarrow> length (fmt_X n) \<le> k"
proof (induction k arbitrary: n)
  case 0
  then show ?case by simp
next
  case (Suc k)
  show ?case
  proof (cases "n < 16")
    case True
    then show ?thesis by (simp add: fmt_X.simps)
  next
    case False
    then have "n div 16 < 16 ^ k" "0 < k" using Suc.prems by (cases k; simp add: less_mult_imp_div_less mult.commute)+
    from Suc.IH [OF this] False show ?thesis by (subst fmt_X.simps) simp
  qed
qed

lemma chunk_size_steps:
  assumes "hp_state ps = s_chunk_size" and "F_CHUNKED \<in> hp_flags ps" and "\<forall>c \<in> set ds. is_hex c"
    and "digits_value 16 (uint (hp_content_length ps)) (map unhex_at ds) < 2 ^ 64 - 1"
    and "uint (hp_nread ps) + int (length ds) \<le> 81920"
  shows "\<exists>ps'. steps S data ds ps l = Some ps'
    \<and> uint (hp_content_length ps') = digits_value 16 (uint (hp_content_length ps)) (map unhex_at ds)
    \<and> uint (hp_nread ps') = uint (hp_nread ps) + int (length ds)
    \<and> hp_state ps' = s_chunk_size \<and> F_CHUNKED \<in> hp_flags ps' \<and> hp_errno ps' = hp_errno ps \<and> hp_data ps' = hp_data ps"
  using length_steps [of "\<lambda>ps. hp_state ps = s_chunk_size \<and> F_CHUNKED \<in> hp_flags ps" is_hex 16
      unhex_at S data ps ds l] assms is_hexD
  by (auto simp: http_step_def step_chunk_size_def PARSING_HEADER_def)

section \<open>Bodies\<close>

lemmas log_simps = log_settings_def log_event_def quiet_def after_cb_def

lemma body_read_all:
  assumes "uint (hp_content_length ps) = int (length data) + r" and "0 \<le> r" and "uint (hp_content_length ps) < 2 ^ 63"
  shows "uint (body_to_read data ps (init_locals s)) = int (length data)
    \<and> uint (hp_content_length ps - body_to_read data ps (init_locals s)) = r"
proof -
  let ?w = "word_of_int (int (length data)) :: 64 word"
  have u: "uint ?w = int (length data)" by (subst uint_word_of_int) (use assms in simp)
  have "?w \<le> hp_content_length ps" using u assms by (simp only: word_le_def)
  then have t: "body_to_read data ps (init_locals s) = ?w"
    by (simp add: body_to_read_def init_locals_def min_absorb2)
  have "uint (hp_content_length ps - ?w) = r"
    using u assms by (subst uint_sub_if') (simp del: of_int_of_nat_eq)
  with t u show ?thesis by simp
qed

text \<open>
  Claim C20.  A body of known length is delivered exactly: given input no longer than what the body still lacks, the
  parser hands all of it to \<^verbatim>\<open>on_body\<close> in one piece, keeps what is then still missing, and when nothing
  is missing completes the message.
\<close>

theorem body_identity_exact:
  assumes "hp_state ps = s_body_identity" and "hp_errno ps = HPE_OK" and "data \<noteq> []"
    and "uint (hp_content_length ps) = int (length data) + r" and "0 \<le> r" and "uint (hp_content_length ps) < 2 ^ 63"
  shows "\<exists>ps'. http_parser_execute (log_settings quiet) data ps = Some (Inr (ps', int (length data)))
    \<and> hp_errno ps' = HPE_OK \<and> uint (hp_content_length ps') = r
    \<and> (if r = 0 then hp_data ps' = hp_data ps @ [Body_Data data, Message_Complete]
           \<and> hp_state ps' \<in> {s_dead, s_start_req, s_start_res}
       else hp_data ps' = hp_data ps @ [Body_Data data] \<and> hp_state ps' = s_body_identity)"
proof -
  let ?S = "log_settings quiet" and ?l = "init_locals s_body_identity"
  define tr where "tr = body_to_read data ps ?l"
  define c where "c = hp_content_length ps - tr"
  have tr: "uint tr = int (length data)" and c: "uint c = r"
    using body_read_all [OF assms(4-6), of s_body_identity] by (simp_all add: tr_def c_def)
  have len: "0 < length data" using assms(3) by simp
  have "0 < uint (hp_content_length ps)" using assms(4,5) len by linarith
  then have cl: "hp_content_length ps \<noteq> 0" "hp_content_length ps \<noteq> ULLONG_MAX"
    using assms(6) by (auto simp: ULLONG_MAX_def unsigned_minus_1_eq_mask mask_eq_exp_minus_1)
  have cn: "count_nread ps = ps" using assms(1) by (simp add: count_nread_def PARSING_HEADER_def)
  have np: "\<not> PARSING_HEADER (hp_state ps)" using assms(1) by (simp add: PARSING_HEADER_def)
  let ?l2 = "?l\<lparr>body_mark := Some 0, lp := int (length data) - 1\<rparr>"
  have l2: "(MARK M_body ?l)\<lparr>lp := lp (MARK M_body ?l) + (uint tr - 1)\<rparr> = ?l2"
    by (simp add: MARK_def init_locals_def tr)
  have mr: "mem_read data 0 (int (length data)) = Inr data" by (simp add: mem_read_def)
  have step: "http_step ?S data ch ps ?l = (if c = 0
      then Inr (Reexec (ps\<lparr>hp_content_length := 0, hp_state := s_message_done, hp_data := hp_data ps @ [Body_Data data]\<rparr>)
                 (?l2\<lparr>body_mark := None\<rparr>))
      else Inr (Break (ps\<lparr>hp_content_length := c\<rparr>) ?l2))" for ch
    using assms(1,2) cl mr
    by (simp add: http_step_def step_body_identity_def Let_def tr_def [symmetric] c_def [symmetric] l2
        CALLBACK_DATA_ER_def log_simps del: right_minus_eq)
  show ?thesis
  proof (cases "r = 0")
    case True
    then have c0: "c = 0" using c by (simp add: uint_0_iff)
    let ?ps2 = "ps\<lparr>hp_content_length := 0, hp_state := s_message_done, hp_data := hp_data ps @ [Body_Data data]\<rparr>"
    let ?ps3 = "?ps2\<lparr>hp_state := NEW_MESSAGE ?ps2, hp_data := hp_data ps @ [Body_Data data, Message_Complete]\<rparr>"
    have "reexecute_byte 5 ?S data ch ps ?l = Some (Inr (Break ?ps3 (?l2\<lparr>body_mark := None\<rparr>)))" for ch
      using step [of ch] c0 assms(2)
      by (simp add: numeral_eq_Suc http_step_def step_message_done_def CALLBACK_NOTIFY_def CALLBACK_NOTIFY_ER_def
          log_simps Let_def)
    then have "http_parser_execute ?S data ps = Some (Inr (?ps3, int (length data)))"
      using assms(1,2,3) cn np len
      by (simp add: http_parser_execute_def init_locals_def url_state_def Let_def execute_finish_def mark_count_def
          CALLBACK_DATA_NOADVANCE_def CALLBACK_DATA_ER_def)
    then show ?thesis using True assms(2) by (simp add: NEW_MESSAGE_def start_state_def)
  next
    case False
    then have c0: "c \<noteq> 0" using c by auto
    have "reexecute_byte 5 ?S data ch ps ?l = Some (Inr (Break (ps\<lparr>hp_content_length := c\<rparr>) ?l2))" for ch
      using step [of ch] c0 by (simp add: numeral_eq_Suc)
    then have "http_parser_execute ?S data ps
        = Some (Inr (ps\<lparr>hp_content_length := c, hp_data := hp_data ps @ [Body_Data data]\<rparr>, int (length data)))"
      using assms(1,2,3) cn np len mr
      by (simp add: http_parser_execute_def init_locals_def url_state_def Let_def execute_finish_def mark_count_def
          CALLBACK_DATA_NOADVANCE_def CALLBACK_DATA_ER_def log_simps)
    then show ?thesis using False c assms(1,2) by simp
  qed
qed

theorem body_identity_exact_witness:
  "\<exists>ps'. http_parser_execute (log_settings quiet) ''abc''
      ((http_parser_init HTTP_REQUEST [])\<lparr>hp_state := s_body_identity, hp_content_length := 3\<rparr>) = Some (Inr (ps', 3))
    \<and> hp_data ps' = [Body_Data ''abc'', Message_Complete]"
  using body_identity_exact [of "(http_parser_init HTTP_REQUEST [])\<lparr>hp_state := s_body_identity, hp_content_length := 3\<rparr>"
      "''abc''" 0]
  by (simp add: http_parser_init_def) blast

section \<open>Request methods\<close>

text \<open>
  At the third character of a method a mismatch is not an error: for every method but \<^verbatim>\<open>CONNECT\<close>, \<^verbatim>\<open>MKCOL\<close>
  and \<^verbatim>\<open>SUBSCRIBE\<close> the parser accepts any character there, so that \<^verbatim>\<open>GEX\<close> is taken for \<^verbatim>\<open>GET\<close>.
\<close>

lemma method_third_character:
  assumes "hp_index ps = 2" and "hp_method ps \<notin> {HTTP_CONNECT, HTTP_MKCOL, HTTP_SUBSCRIBE}" and "ch \<noteq> NUL"
  shows "\<exists>m. step_req_method ch ps l = Inr (Break (ps\<lparr>hp_method := m, hp_index := 3\<rparr>) l)
    \<and> (m = hp_method ps \<or> (hp_method ps, m) \<in> {(HTTP_PUT, HTTP_PURGE), (HTTP_UNLOCK, HTTP_UNSUBSCRIBE)})"
proof -
  have l: "2 < length (method_strings (hp_method ps))" using log_user.method_length by blast
  have nn: "method_strings (hp_method ps) ! 2 \<noteq> NUL"
    using log_user.method_strings_no_nul [of "hp_method ps"] l nth_mem [OF l] by metis
  let ?m = "if hp_method ps = HTTP_PUT then (if ch = CHR ''R'' then HTTP_PURGE else HTTP_PUT)
    else if hp_method ps = HTTP_UNLOCK then (if ch = CHR ''S'' then HTTP_UNSUBSCRIBE else HTTP_UNLOCK) else hp_method ps"
  have nx: "next_method (hp_method ps) 2 ch = Inr ?m"
    using assms(2) by (simp add: next_method_def)
  have st: "step_req_method ch ps l = (if ch = method_strings (hp_method ps) ! 2 then Inr (Break (ps\<lparr>hp_index := 3\<rparr>) l)
      else Inr (Break (ps\<lparr>hp_method := ?m, hp_index := 3\<rparr>) l))"
    unfolding step_req_method_def Let_def using assms(1,3) l nn nx by (simp add: nth_append)
  show ?thesis
  proof (cases "ch = method_strings (hp_method ps) ! 2")
    case True
    then show ?thesis using st by (intro exI [of _ "hp_method ps"]) simp
  next
    case False
    then show ?thesis using st by (intro exI [of _ ?m]) simp
  qed
qed

end
