(* ===== verification/Http_Parser_Chunks.thy ===== *)
theory Http_Parser_Chunks
  imports Http_Parser_Props
begin

text \<open>
  Chunked bodies: the parser against the encoder of the proxy.  The size of a chunk as \<^verbatim>\<open>"%X"\<close> prints it is read back, the data is
  delivered in one piece, and the last chunk completes the message, so that parsing inverts the chunked_body coding.
\<close>

text \<open>A parser that expects a chunk.\<close>

definition chunk_ready :: "'d http_parser \<Rightarrow> bool" where
  "chunk_ready ps \<longleftrightarrow> hp_state ps = s_chunk_size_start \<and> F_CHUNKED \<in> hp_flags ps \<and> hp_nread ps = 0 \<and> hp_errno ps = HPE_OK"

lemma chunk_line_steps:
  assumes "chunk_ready ps" and "n < 2 ^ 64 - 1"
  shows "\<exists>ps'. steps S data (fmt_X n @ CRLF) ps l = Some ps' \<and> uint (hp_content_length ps') = int n \<and> hp_nread ps' = 0
    \<and> F_CHUNKED \<in> hp_flags ps' \<and> hp_errno ps' = HPE_OK \<and> hp_data ps' = hp_data ps
    \<and> (if n = 0 then hp_state ps' = s_header_field_start \<and> F_TRAILING \<in> hp_flags ps' else hp_state ps' = s_chunk_data)"
proof -
  obtain c cs where f: "fmt_X n = c # cs" using fmt_X_hex [of n] by (cases "fmt_X n") auto
  have hex: "is_hex c" "\<forall>c \<in> set cs. is_hex c" using fmt_X_hex [of n] f by auto
  have len: "length cs \<le> 15" using fmt_X_length [of n 16] assms(2) f by simp
  let ?ps = "ps\<lparr>hp_nread := 1, hp_content_length := word_of_int (unhex_at c), hp_state := s_chunk_size\<rparr>"
  have u: "uint (word_of_int (unhex_at c) :: 64 word) = unhex_at c"
    by (subst uint_word_of_int) (use is_hexD [OF hex(1)] log_user.unhex_range [of c] in simp)
  have val: "digits_value 16 (unhex_at c) (map unhex_at cs) = int n"
    using fmt_X_value [of n] f by (simp add: digits_value_def)
  have 1: "steps S data [c] ps l = Some ?ps"
    using assms(1) is_hexD [OF hex(1)] by (simp add: chunk_ready_def http_step_def step_chunk_size_start_def count_nread_def
        PARSING_HEADER_def HTTP_MAX_HEADER_SIZE_def)
  obtain ps2 where 2: "steps S data cs ?ps (l\<lparr>lp := lp l + 1\<rparr>) = Some ps2" "uint (hp_content_length ps2) = int n"
      "uint (hp_nread ps2) = 1 + int (length cs)" "hp_state ps2 = s_chunk_size" "F_CHUNKED \<in> hp_flags ps2"
      "hp_errno ps2 = HPE_OK" "hp_data ps2 = hp_data ps"
    using chunk_size_steps [of ?ps cs S data "l\<lparr>lp := lp l + 1\<rparr>"] hex(2) val u len assms by (auto simp: chunk_ready_def)
  note nr = nread_count [of ps2] and nr2 = nread_count [of "ps2\<lparr>hp_nread := hp_nread ps2 + 1\<rparr>"]
  have small: "\<not> HTTP_MAX_HEADER_SIZE < hp_nread ps2 + 1" "\<not> HTTP_MAX_HEADER_SIZE < hp_nread ps2 + 1 + 1"
    using nr nr2 2(3) len by simp_all
  have "hp_content_length ps2 = 0 \<longleftrightarrow> n = 0" using 2(2) by (auto simp: uint_0_iff)
  then have 3: "steps S data CRLF ps2 m = Some (ps2\<lparr>hp_nread := 0, hp_flags := (if n = 0 then {F_TRAILING} else {}) \<union> hp_flags ps2,
      hp_state := if n = 0 then s_header_field_start else s_chunk_data\<rparr>)" for m
    using 2 small by (simp add: http_step_def step_chunk_size_def step_chunk_size_almost_done_def STRICT_CHECK_def
        count_nread_def PARSING_HEADER_def Let_def)
  have "steps S data ([c] @ cs @ CRLF) ps l = Some (ps2\<lparr>hp_nread := 0,
      hp_flags := (if n = 0 then {F_TRAILING} else {}) \<union> hp_flags ps2, hp_state := if n = 0 then s_header_field_start else s_chunk_data\<rparr>)"
    using 2(1) by (intro steps_seq [OF 1] steps_seq [OF _ 3]) simp
  then show ?thesis using 2 f by (simp del: steps.simps)
qed

lemma last_chunk_steps:
  assumes "chunk_ready ps"
  shows "\<exists>ps'. steps (log_settings quiet) data (''0'' @ CRLF @ CRLF) ps l = Some ps' \<and> hp_errno ps' = HPE_OK
    \<and> hp_state ps' \<in> {s_dead, s_start_req, s_start_res} \<and> hp_data ps' = hp_data ps @ [Message_Complete]"
proof -
  let ?S = "log_settings quiet"
  have z: "fmt_X 0 = ''0''" by code_simp
  obtain ps1 where 1: "steps ?S data (''0'' @ CRLF) ps l = Some ps1" "hp_nread ps1 = 0" "hp_errno ps1 = HPE_OK"
    "hp_data ps1 = hp_data ps" "hp_state ps1 = s_header_field_start" "F_TRAILING \<in> hp_flags ps1"
    using chunk_line_steps [OF assms, of 0 ?S data l] z by auto
  obtain ps2 where 2: "steps ?S data CRLF ps1 (l\<lparr>lp := lp l + int (length (''0'' @ CRLF))\<rparr>) = Some ps2" "hp_errno ps2 = HPE_OK"
    "hp_state ps2 \<in> {s_dead, s_start_req, s_start_res}" "hp_data ps2 = hp_data ps @ [Message_Complete]"
    using 1 by (simp add: http_step_def step_header_field_start_def step_headers_almost_done_def STRICT_CHECK_def count_nread_def
        PARSING_HEADER_def HTTP_MAX_HEADER_SIZE_def CALLBACK_NOTIFY_def CALLBACK_NOTIFY_ER_def log_simps Let_def
        NEW_MESSAGE_def start_state_def)
  show ?thesis using steps_seq [OF 1(1) 2(1)] 2(2-4) by auto
qed

lemma body_to_read_all:
  assumes "uint (hp_content_length ps) = int n" and "lp l + int n \<le> int (length data)" and "0 \<le> lp l" and "length data < 2 ^ 63"
  shows "body_to_read data ps l = hp_content_length ps"
proof -
  have "uint (word_of_int (int (length data) - lp l) :: 64 word) = int (length data) - lp l"
    by (subst uint_word_of_int) (use assms in simp)
  then have "hp_content_length ps \<le> word_of_int (int (length data) - lp l)" using assms by (simp add: word_le_def)
  then show ?thesis by (simp add: body_to_read_def min_absorb1)
qed

text \<open>One byte of the loop that ends with a \<^verbatim>\<open>break\<close> in a state outside the headers.\<close>

lemma execute_loop_break:
  assumes "data = pre @ ch # post" and "lp l = int (length pre)" and "\<not> PARSING_HEADER (hp_state ps)"
    and "http_step S data ch ps l = Inr (Break ps2 l2)"
  shows "execute_loop (Suc fuel) S data ps l = execute_loop fuel S data ps2 (l2\<lparr>lp := lp l2 + 1\<rparr>)"
proof -
  have "data ! nat (lp l) = ch" "lp l < int (length data)" "0 \<le> lp l" using assms(1,2) by auto
  then show ?thesis using assms(3,4) by (simp add: Let_def count_nread_def numeral_eq_Suc)
qed

lemma chunk_data_loop:
  assumes "hp_state ps = s_chunk_data" and "F_CHUNKED \<in> hp_flags ps" and "hp_errno ps = HPE_OK"
    and "uint (hp_content_length ps) = int (length d)" and "d \<noteq> []" and data: "data = pre @ d @ CRLF @ post"
    and "length data < 2 ^ 63" and "lp l = int (length pre)" and "body_mark l = None"
  shows "execute_loop (Suc (Suc (Suc fuel))) (log_settings quiet) data ps l = execute_loop fuel (log_settings quiet) data
    (ps\<lparr>hp_content_length := 0, hp_nread := 0, hp_state := s_chunk_size_start, hp_data := hp_data ps @ [Body_Data d]\<rparr>)
    (l\<lparr>lp := lp l + int (length d) + 2\<rparr>)"
proof -
  let ?S = "log_settings quiet" and ?i = "int (length pre)" and ?n = "int (length d)"
  obtain c cs where d: "d = c # cs" using assms(5) by (cases d) auto
  have n: "0 < ?n" "?n < 2 ^ 63" using assms(5,7) data by auto
  then have cl: "hp_content_length ps \<noteq> 0" "hp_content_length ps \<noteq> ULLONG_MAX"
    using assms(4) by (auto simp: ULLONG_MAX_def unsigned_minus_1_eq_mask mask_eq_exp_minus_1)
  have "body_to_read data ps l = hp_content_length ps"
    using body_to_read_all [OF assms(4), of l data] assms(7,8) data by simp
  then have 1: "http_step ?S data c ps l = Inr (Break (ps\<lparr>hp_content_length := 0, hp_state := s_chunk_data_almost_done\<rparr>)
      (l\<lparr>body_mark := Some ?i, lp := ?i + (?n - 1)\<rparr>))"
    using assms(1-4,8,9) cl by (simp add: http_step_def step_chunk_data_def Let_def MARK_def)
  have "mem_read data ?i ?n = Inr d" using data by (simp add: mem_read_def nat_add_distrib)
  then have 2: "http_step ?S data CR (ps\<lparr>hp_content_length := 0, hp_state := s_chunk_data_almost_done\<rparr>)
      (l\<lparr>body_mark := Some ?i, lp := ?i + ?n\<rparr>) = Inr (Break (ps\<lparr>hp_content_length := 0, hp_state := s_chunk_data_done,
        hp_data := hp_data ps @ [Body_Data d]\<rparr>) (l\<lparr>lp := ?i + ?n\<rparr>))"
    using assms(2,3,9) by (simp add: http_step_def step_chunk_data_almost_done_def STRICT_CHECK_def CALLBACK_DATA_def
        CALLBACK_DATA_ER_def log_simps Let_def)
  have 3: "http_step ?S data LF (ps\<lparr>hp_content_length := 0, hp_state := s_chunk_data_done, hp_data := hp_data ps @ [Body_Data d]\<rparr>) m
      = Inr (Break (ps\<lparr>hp_content_length := 0, hp_nread := 0, hp_state := s_chunk_size_start,
          hp_data := hp_data ps @ [Body_Data d]\<rparr>) m)" for m
    using assms(2) by (simp add: http_step_def step_chunk_data_done_def STRICT_CHECK_def)
  show ?thesis
    using execute_loop_break [of data pre c "cs @ CRLF @ post" l ps, OF _ assms(8) _ 1]
      execute_loop_break [of data "pre @ d" CR "LF # post", OF _ _ _ 2] execute_loop_break [of data "pre @ d @ [CR]" LF post, OF _ _ _ 3]
      assms(1,8) data d
    by (simp add: PARSING_HEADER_def ac_simps del: execute_loop.simps)
qed

lemma chunk_loop:
  assumes "chunk_ready ps" and "d \<noteq> []" and "data = pre @ chunk d @ post" and "length data < 2 ^ 63"
    and "lp l = int (length pre)" and "body_mark l = None" and "length (chunk d) + length post + 2 \<le> fuel"
  shows "\<exists>ps' fuel'. execute_loop fuel (log_settings quiet) data ps l
      = execute_loop fuel' (log_settings quiet) data ps' (l\<lparr>lp := int (length (pre @ chunk d))\<rparr>)
    \<and> length post + 2 \<le> fuel' \<and> chunk_ready ps' \<and> hp_data ps' = hp_data ps @ [Body_Data d]"
proof -
  let ?S = "log_settings quiet" and ?size = "fmt_X (length d) @ CRLF"
  have n: "length d < 2 ^ 64 - 1" using assms(3,4) by (simp add: chunk_def)
  obtain ps1 where 1: "steps ?S data ?size ps l = Some ps1" "uint (hp_content_length ps1) = int (length d)" "hp_nread ps1 = 0"
    "F_CHUNKED \<in> hp_flags ps1" "hp_errno ps1 = HPE_OK" "hp_data ps1 = hp_data ps" "hp_state ps1 = s_chunk_data"
    using chunk_line_steps [OF assms(1) n, of ?S data l] assms(2) by auto
  obtain k where k: "fuel = length ?size + Suc (Suc (Suc k))" "length post + 2 \<le> k"
    using assms(2,7) that [of "fuel - length ?size - 3"] by (cases d) (auto simp: chunk_def)
  let ?l = "l\<lparr>lp := lp l + int (length ?size)\<rparr>"
  let ?ps = "ps1\<lparr>hp_content_length := 0, hp_nread := 0, hp_state := s_chunk_size_start, hp_data := hp_data ps1 @ [Body_Data d]\<rparr>"
  have "execute_loop fuel ?S data ps l = execute_loop (Suc (Suc (Suc k))) ?S data ps1 ?l"
    unfolding k(1) by (rule execute_loop_steps [OF 1(1) _ assms(5)]) (simp add: assms(3) chunk_def)
  also have "\<dots> = execute_loop k ?S data ?ps (?l\<lparr>lp := lp ?l + int (length d) + 2\<rparr>)"
    by (rule chunk_data_loop [OF 1(7,4,5,2) assms(2) _ assms(4), of "pre @ ?size" post])
      (simp_all add: assms(3,5,6) chunk_def)
  also have "?l\<lparr>lp := lp ?l + int (length d) + 2\<rparr> = l\<lparr>lp := int (length (pre @ chunk d))\<rparr>"
    using assms(5) by (simp add: chunk_def)
  finally have "execute_loop fuel ?S data ps l = execute_loop k ?S data ?ps (l\<lparr>lp := int (length (pre @ chunk d))\<rparr>)" .
  moreover have "chunk_ready ?ps" "hp_data ?ps = hp_data ps @ [Body_Data d]" using 1 by (simp_all add: chunk_ready_def)
  ultimately show ?thesis using k(2) by blast
qed

text \<open>The chunked coding of a body: its pieces as chunks and the last chunk.\<close>

definition chunked_body :: "char list list \<Rightarrow> char list" where
  "chunked_body ds = concat (map chunk ds) @ ''0'' @ CRLF @ CRLF"

lemma chunked_body_loop:
  assumes "chunk_ready ps" and "list_all (\<lambda>d. d \<noteq> []) ds" and "data = pre @ chunked_body ds" and "length data < 2 ^ 63"
    and "lp l = int (length pre)" and "body_mark l = None" and "length (chunked_body ds) + 2 \<le> fuel"
  shows "\<exists>ps'. execute_loop fuel (log_settings quiet) data ps l = Some (Inr (Break ps' (l\<lparr>lp := int (length data)\<rparr>)))
    \<and> hp_errno ps' = HPE_OK \<and> hp_state ps' \<in> {s_dead, s_start_req, s_start_res}
    \<and> hp_data ps' = hp_data ps @ map Body_Data ds @ [Message_Complete]"
  using assms
proof (induction ds arbitrary: ps pre l fuel)
  case Nil
  let ?S = "log_settings quiet" and ?z = "''0'' @ CRLF @ CRLF"
  obtain ps' where ps': "steps ?S data ?z ps l = Some ps'" "hp_errno ps' = HPE_OK" "hp_state ps' \<in> {s_dead, s_start_req, s_start_res}"
    "hp_data ps' = hp_data ps @ [Message_Complete]"
    using last_chunk_steps [OF Nil.prems(1)] by blast
  obtain k where k: "fuel = length ?z + Suc k" using Nil.prems(7) that [of "fuel - 6"] by (simp add: chunked_body_def)
  have "execute_loop fuel ?S data ps l = execute_loop (Suc k) ?S data ps' (l\<lparr>lp := lp l + int (length ?z)\<rparr>)"
    unfolding k by (rule execute_loop_steps [OF ps'(1) _ Nil.prems(5), of "[]"]) (simp add: Nil.prems(3) chunked_body_def)
  also have "\<dots> = Some (Inr (Break ps' (l\<lparr>lp := int (length data)\<rparr>)))"
    using Nil.prems(3,5) by (simp add: chunked_body_def)
  finally show ?case using ps'(2-4) by auto
next
  case (Cons d ds)
  have data: "data = pre @ chunk d @ chunked_body ds" using Cons.prems(3) by (simp add: chunked_body_def)
  obtain ps1 k where 1: "execute_loop fuel (log_settings quiet) data ps l
      = execute_loop k (log_settings quiet) data ps1 (l\<lparr>lp := int (length (pre @ chunk d))\<rparr>)"
    "length (chunked_body ds) + 2 \<le> k" "chunk_ready ps1" "hp_data ps1 = hp_data ps @ [Body_Data d]"
    using chunk_loop [OF Cons.prems(1) _ data Cons.prems(4-6), of fuel] Cons.prems(2,7) by (auto simp: chunked_body_def)
  show ?case
    using Cons.IH [OF 1(3) _ _ Cons.prems(4) _ _ 1(2), of "pre @ chunk d" "l\<lparr>lp := int (length (pre @ chunk d))\<rparr>"]
      Cons.prems(2,6) data 1 by (simp del: execute_loop.simps)
qed

lemma parse_chunked_body:
  assumes "chunk_ready ps" and "list_all (\<lambda>d. d \<noteq> []) ds" and "length (chunked_body ds) < 2 ^ 63"
  shows "\<exists>ps'. http_parser_execute (log_settings quiet) (chunked_body ds) ps = Some (Inr (ps', int (length (chunked_body ds))))
    \<and> hp_errno ps' = HPE_OK \<and> hp_state ps' \<in> {s_dead, s_start_req, s_start_res}
    \<and> hp_data ps' = hp_data ps @ map Body_Data ds @ [Message_Complete]"
proof -
  let ?l = "init_locals s_chunk_size_start"
  obtain ps' where ps': "execute_loop (length (chunked_body ds) + 2) (log_settings quiet) (chunked_body ds) ps ?l
      = Some (Inr (Break ps' (?l\<lparr>lp := int (length (chunked_body ds))\<rparr>)))" "hp_errno ps' = HPE_OK"
    "hp_state ps' \<in> {s_dead, s_start_req, s_start_res}" "hp_data ps' = hp_data ps @ map Body_Data ds @ [Message_Complete]"
    using chunked_body_loop [of ps ds "chunked_body ds" "[]" ?l "length (chunked_body ds) + 2"] assms
    by (auto simp: init_locals_def)
  moreover have "chunked_body ds \<noteq> []" by (simp add: chunked_body_def)
  ultimately show ?thesis
    using assms(1) by (simp add: chunk_ready_def http_parser_execute_def execute_finish_def mark_count_def init_locals_def
        url_state_def CALLBACK_DATA_NOADVANCE_def CALLBACK_DATA_ER_def del: execute_loop.simps)
qed

text \<open>
  Claim C21.  Parsing inverts the chunked coding: of a body in non-empty pieces, each behind its length as \<^verbatim>\<open>"%X"\<close> prints it, and the
  last chunk, a parser that expects a chunk consumes every byte, delivers exactly the pieces in their order, completes the
  message and is ready for the next one or closed.
\<close>

theorem chunked_roundtrip:
  assumes "hp_state ps = s_chunk_size_start" and "F_CHUNKED \<in> hp_flags ps" and "hp_nread ps = 0" and "hp_errno ps = HPE_OK"
    and "list_all (\<lambda>d. d \<noteq> []) ds" and "length (chunked_body ds) < 2 ^ 63"
  shows "\<exists>ps'. http_parser_execute (log_settings quiet) (chunked_body ds) ps = Some (Inr (ps', int (length (chunked_body ds))))
    \<and> hp_errno ps' = HPE_OK \<and> hp_state ps' \<in> {s_dead, s_start_req, s_start_res}
    \<and> hp_data ps' = hp_data ps @ map Body_Data ds @ [Message_Complete]"
  using assms by (intro parse_chunked_body) (simp_all add: chunk_ready_def)

theorem chunked_roundtrip_witness:
  "\<exists>ps'. http_parser_execute (log_settings quiet) (chunked_body [''hello'', ''!''])
      ((http_parser_init HTTP_RESPONSE [])\<lparr>hp_state := s_chunk_size_start, hp_flags := {F_CHUNKED}\<rparr>)
    = Some (Inr (ps', 21)) \<and> hp_data ps' = [Body_Data ''hello'', Body_Data ''!'', Message_Complete]"
proof -
  let ?ps = "(http_parser_init HTTP_RESPONSE ([] :: http_event list))\<lparr>hp_state := s_chunk_size_start, hp_flags := {F_CHUNKED}\<rparr>"
  have n: "length (chunked_body [''hello'', ''!'']) = 21" by code_simp
  show ?thesis
    using chunked_roundtrip [of ?ps "[''hello'', ''!'']"] n by (simp add: http_parser_init_def) blast
qed

end
