(* ===== verification/Http_Parser_Data.thy ===== *)
theory Http_Parser_Data
  imports Http_Parser
begin

text \<open>
  What the parser does to its user: nothing but call the callbacks.  Whatever property of the user's data
  every callback keeps, if it returns, an execution of the parser keeps, if it returns.  Components that put their
  whole state behind \<^verbatim>\<open>parser->data\<close> get their invariants through the parser with this rule.
\<close>

definition notify_keeps :: "('d \<Rightarrow> bool) \<Rightarrow> 'd http_cb option \<Rightarrow> bool" where
  "notify_keeps J cb \<longleftrightarrow> (\<forall>f ps. cb = Some f \<longrightarrow> J (hp_data ps) \<longrightarrow> res_all (\<lambda>r. J (fst r)) (f ps))"

definition data_keeps :: "('d \<Rightarrow> bool) \<Rightarrow> 'd http_data_cb option \<Rightarrow> bool" where
  "data_keeps J cb \<longleftrightarrow> (\<forall>f ps bs. cb = Some f \<longrightarrow> J (hp_data ps) \<longrightarrow> res_all (\<lambda>r. J (fst r)) (f ps bs))"

lemma notify_keepsD: "notify_keeps J (Some f) \<Longrightarrow> J (hp_data ps) \<Longrightarrow> f ps = Inr (d, r) \<Longrightarrow> J d"
  by (auto simp: notify_keeps_def dest!: spec [of _ ps])

lemma data_keepsD: "data_keeps J (Some f) \<Longrightarrow> J (hp_data ps) \<Longrightarrow> f ps bs = Inr (d, r) \<Longrightarrow> J d"
  by (auto simp: data_keeps_def dest!: spec [of _ ps] spec [of _ bs])

text \<open>The contract of a user, as far as its data is concerned.\<close>

locale parser_user =
  fixes S :: "'d http_parser_settings"
    and J :: "'d \<Rightarrow> bool"
  assumes notify_J: "notify_keeps J (on_message_begin S)" "notify_keeps J (on_status_complete S)"
      "notify_keeps J (on_headers_complete S)" "notify_keeps J (on_message_complete S)"
    and data_J: "data_keeps J (on_url S)" "data_keeps J (on_header_field S)" "data_keeps J (on_header_value S)"
      "data_keeps J (on_body S)"
begin

primrec out_parser :: "'d outcome \<Rightarrow> 'd http_parser" where
  "out_parser (Break ps l) = ps"
| "out_parser (Reexec ps l) = ps"
| "out_parser (Return ps n) = ps"
| "out_parser (Error ps n) = ps"

definition keeps :: "'d outcome res \<Rightarrow> bool" where
  "keeps r \<longleftrightarrow> res_all (\<lambda>o'. J (hp_data (out_parser o'))) r"

lemma keeps_simps [simp]:
  "keeps (Inr (Break ps l)) = J (hp_data ps)" "keeps (Inr (Reexec ps l)) = J (hp_data ps)"
  "keeps (Inr (Return ps n)) = J (hp_data ps)" "keeps (Inr (Error ps n)) = J (hp_data ps)" "keeps (Inl e)"
  "keeps (fail er ps l) = J (hp_data ps)"
  by (simp_all add: keeps_def fail_def)

lemma keeps_bind: "(\<And>x. m = Inr x \<Longrightarrow> keeps (k x)) \<Longrightarrow> keeps (rbind m k)"
  by (cases m) (auto simp: keeps_def)

lemma keeps_bindP: "res_all Q m \<Longrightarrow> (\<And>x. Q x \<Longrightarrow> keeps (k x)) \<Longrightarrow> keeps (rbind m k)"
  by (cases m) (auto simp: keeps_def)

lemma after_cb_data [simp]: "hp_data (after_cb e ps r) = fst r"
  by (cases r) (simp add: after_cb_def Let_def)

lemma notify_er_keeps:
  assumes "notify_keeps J cb" and "J (hp_data ps)" and "\<And>q. J (hp_data q) \<Longrightarrow> keeps (k q)"
  shows "keeps (CALLBACK_NOTIFY_ER cb e er ps k)"
  using assms unfolding CALLBACK_NOTIFY_ER_def
  by (auto simp: Let_def split: option.split intro!: keeps_bind dest: notify_keepsD)

lemma notify_keeps' [intro]:
  "notify_keeps J cb \<Longrightarrow> J (hp_data ps) \<Longrightarrow> keeps (CALLBACK_NOTIFY cb e ps l)"
  unfolding CALLBACK_NOTIFY_def by (auto intro: notify_er_keeps)

lemma mark_cb_keeps: "data_keeps J (mark_cb m S)"
  using data_J by (cases m) simp_all

lemma mark_cb_J: "mark_cb m S = Some f \<Longrightarrow> J (hp_data ps) \<Longrightarrow> f ps bs = Inr (d, r) \<Longrightarrow> J d"
  using mark_cb_keeps [of m] data_keepsD [of J f ps bs d r] by simp

lemma data_er_keeps:
  assumes "J (hp_data ps)" and "\<And>q l. J (hp_data q) \<Longrightarrow> keeps (k q l)"
  shows "keeps (CALLBACK_DATA_ER S data m len er ps l k)"
  using assms unfolding CALLBACK_DATA_ER_def
  by (auto simp: Let_def split: option.split intro!: keeps_bind dest: mark_cb_J)

lemma data_keeps' [intro]: "J (hp_data ps) \<Longrightarrow> keeps (CALLBACK_DATA S data m ps l)"
  unfolding CALLBACK_DATA_def by (auto intro: data_er_keeps)

lemma data_noadvance_keeps:
  "J (hp_data ps) \<Longrightarrow> (\<And>q l. J (hp_data q) \<Longrightarrow> keeps (k q l)) \<Longrightarrow> keeps (CALLBACK_DATA_NOADVANCE S data m ps l k)"
  unfolding CALLBACK_DATA_NOADVANCE_def by (rule data_er_keeps)

lemma strict_keeps [simp]: "keeps (STRICT_CHECK c ps l k) \<longleftrightarrow> (if c then J (hp_data ps) else keeps k)"
  by (simp add: STRICT_CHECK_def)

lemmas step_keeps = notify_J keeps_bind data_er_keeps notify_er_keeps data_noadvance_keeps data_keeps' notify_keeps'

lemma match_step_data [simp]: "hp_data (match_step c h x ps) = hp_data ps"
  by (simp add: match_step_def Let_def)

lemma field_token_data: "field_token ch c ps = Inr q \<Longrightarrow> hp_data q = hp_data ps"
  by (cases "hp_header_state ps") (auto simp: field_token_def Let_def split: if_splits)

lemma step_dead_keeps: "J (hp_data ps) \<Longrightarrow> keeps (step_dead ch ps l)"
  unfolding step_dead_def Let_def by (auto split: option.split sum.split intro!: step_keeps)

lemma step_start_req_or_res_keeps: "J (hp_data ps) \<Longrightarrow> keeps (step_start_req_or_res S ch ps l)"
  unfolding step_start_req_or_res_def Let_def by (auto split: option.split sum.split intro!: step_keeps)

lemma step_res_or_resp_H_keeps: "J (hp_data ps) \<Longrightarrow> keeps (step_res_or_resp_H ch ps l)"
  unfolding step_res_or_resp_H_def Let_def by (auto split: option.split sum.split intro!: step_keeps)

lemma step_start_res_keeps: "J (hp_data ps) \<Longrightarrow> keeps (step_start_res S ch ps l)"
  unfolding step_start_res_def Let_def by (auto split: option.split sum.split intro!: step_keeps)

lemma step_constant_keeps: "J (hp_data ps) \<Longrightarrow> keeps (step_constant want nxt ch ps l)"
  unfolding step_constant_def Let_def by (auto split: option.split sum.split intro!: step_keeps)

lemma step_res_first_http_major_keeps: "J (hp_data ps) \<Longrightarrow> keeps (step_res_first_http_major ch ps l)"
  unfolding step_res_first_http_major_def Let_def by (auto split: option.split sum.split intro!: step_keeps)

lemma step_http_major_keeps: "J (hp_data ps) \<Longrightarrow> keeps (step_http_major first_minor ch ps l)"
  unfolding step_http_major_def Let_def by (auto split: option.split sum.split intro!: step_keeps)

lemma step_first_http_minor_keeps: "J (hp_data ps) \<Longrightarrow> keeps (step_first_http_minor minor ch ps l)"
  unfolding step_first_http_minor_def Let_def by (auto split: option.split sum.split intro!: step_keeps)

lemma step_http_minor_digit_keeps [intro]: "J (hp_data ps) \<Longrightarrow> keeps (step_http_minor_digit ch ps l)"
  unfolding step_http_minor_digit_def Let_def by (auto split: option.split sum.split intro!: step_keeps)

lemma step_res_http_minor_keeps: "J (hp_data ps) \<Longrightarrow> keeps (step_res_http_minor ch ps l)"
  unfolding step_res_http_minor_def Let_def by (auto split: option.split sum.split intro!: step_keeps)

lemma step_res_first_status_code_keeps: "J (hp_data ps) \<Longrightarrow> keeps (step_res_first_status_code ch ps l)"
  unfolding step_res_first_status_code_def Let_def by (auto split: option.split sum.split intro!: step_keeps)

lemma step_res_status_code_keeps: "J (hp_data ps) \<Longrightarrow> keeps (step_res_status_code ch ps l)"
  unfolding step_res_status_code_def Let_def by (auto split: option.split sum.split intro!: step_keeps)

lemma step_res_status_keeps: "J (hp_data ps) \<Longrightarrow> keeps (step_res_status ch ps l)"
  unfolding step_res_status_def Let_def by (auto split: option.split sum.split intro!: step_keeps)

lemma step_res_line_almost_done_keeps: "J (hp_data ps) \<Longrightarrow> keeps (step_res_line_almost_done S ch ps l)"
  unfolding step_res_line_almost_done_def Let_def by (auto split: option.split sum.split intro!: step_keeps)

lemma step_start_req_keeps: "J (hp_data ps) \<Longrightarrow> keeps (step_start_req S ch ps l)"
  unfolding step_start_req_def Let_def by (auto split: option.split sum.split intro!: step_keeps)

lemma step_req_method_keeps: "J (hp_data ps) \<Longrightarrow> keeps (step_req_method ch ps l)"
  unfolding step_req_method_def Let_def by (auto split: option.split sum.split intro!: step_keeps)

lemma step_url_char_keeps [intro]: "J (hp_data ps) \<Longrightarrow> keeps (step_url_char ch ps l)"
  unfolding step_url_char_def Let_def by (auto split: option.split sum.split intro!: step_keeps)

lemma step_req_spaces_before_url_keeps: "J (hp_data ps) \<Longrightarrow> keeps (step_req_spaces_before_url ch ps l)"
  unfolding step_req_spaces_before_url_def Let_def by (auto split: option.split sum.split intro!: step_keeps)

lemma step_req_schema_keeps: "J (hp_data ps) \<Longrightarrow> keeps (step_req_schema ch ps l)"
  unfolding step_req_schema_def Let_def by (auto split: option.split sum.split intro!: step_keeps)

lemma step_req_url_keeps: "J (hp_data ps) \<Longrightarrow> keeps (step_req_url S data ch ps l)"
  unfolding step_req_url_def Let_def by (auto split: option.split sum.split intro!: step_keeps)

lemma step_req_http_start_keeps: "J (hp_data ps) \<Longrightarrow> keeps (step_req_http_start ch ps l)"
  unfolding step_req_http_start_def Let_def by (auto split: option.split sum.split intro!: step_keeps)

lemma step_req_first_http_major_keeps: "J (hp_data ps) \<Longrightarrow> keeps (step_req_first_http_major ch ps l)"
  unfolding step_req_first_http_major_def Let_def by (auto split: option.split sum.split intro!: step_keeps)

lemma step_req_http_minor_keeps: "J (hp_data ps) \<Longrightarrow> keeps (step_req_http_minor ch ps l)"
  unfolding step_req_http_minor_def Let_def by (auto split: option.split sum.split intro!: step_keeps)

lemma step_req_line_almost_done_keeps: "J (hp_data ps) \<Longrightarrow> keeps (step_req_line_almost_done ch ps l)"
  unfolding step_req_line_almost_done_def Let_def by (auto split: option.split sum.split intro!: step_keeps)

lemma step_header_field_start_keeps: "J (hp_data ps) \<Longrightarrow> keeps (step_header_field_start ch ps l)"
  unfolding step_header_field_start_def Let_def by (auto split: option.split sum.split intro!: step_keeps)

lemma step_header_field_keeps: "J (hp_data ps) \<Longrightarrow> keeps (step_header_field S data ch ps l)"
  unfolding step_header_field_def Let_def by (auto intro!: keeps_bind dest: field_token_data)

lemma step_header_value_start_keeps: "J (hp_data ps) \<Longrightarrow> keeps (step_header_value_start S data ch ps l)"
  unfolding step_header_value_start_def Let_def by (cases "hp_header_state ps") (auto split: option.split)

lemma value_char_keeps: "J (hp_data ps) \<Longrightarrow> keeps (value_char ch ps l)"
  unfolding value_char_def Let_def by (cases "hp_header_state ps") (simp_all split: option.split)

lemma step_header_value_keeps: "J (hp_data ps) \<Longrightarrow> keeps (step_header_value S data ch ps l)"
  unfolding step_header_value_def by (auto intro!: data_noadvance_keeps value_char_keeps)

lemma step_header_almost_done_keeps: "J (hp_data ps) \<Longrightarrow> keeps (step_header_almost_done ch ps l)"
  unfolding step_header_almost_done_def Let_def by (auto split: option.split sum.split intro!: step_keeps)

lemma step_header_value_lws_keeps: "J (hp_data ps) \<Longrightarrow> keeps (step_header_value_lws ch ps l)"
  unfolding step_header_value_lws_def Let_def by (auto split: option.split sum.split intro!: step_keeps)

lemma step_headers_almost_done_keeps: "J (hp_data ps) \<Longrightarrow> keeps (step_headers_almost_done S ch ps l)"
proof -
  assume J: "J (hp_data ps)"
  let ?q = "ps\<lparr>hp_state := s_headers_done, hp_upgrade := F_UPGRADE \<in> hp_flags ps \<or> hp_method ps = HTTP_CONNECT\<rparr>"
  have "J d" if "on_headers_complete S = Some f" "f ?q = Inr (d, r)" for f d r
    using that J notify_J(3) notify_keepsD [of J f ?q d r] by simp
  then have "res_all (\<lambda>r. J (hp_data (case r of Inl q \<Rightarrow> q | Inr q \<Rightarrow> q)))
      (case on_headers_complete S of
         None \<Rightarrow> Inr (Inr ?q)
       | Some f \<Rightarrow> rbind (f ?q) (\<lambda>(d, paused, rc).
           let ps = ?q\<lparr>hp_data := d\<rparr>; ps = (if paused then ps\<lparr>hp_errno := HPE_PAUSED\<rparr> else ps)
           in Inr (if rc = 0 then Inr ps
                   else if rc = 1 then Inr (ps\<lparr>hp_flags := insert F_SKIPBODY (hp_flags ps)\<rparr>)
                   else Inl (ps\<lparr>hp_errno := HPE_CB_headers_complete\<rparr>))))"
    using J by (auto simp: Let_def rbind_eq_Inr split: option.split intro!: res_allI)
  then show ?thesis
    using J notify_J(4) unfolding step_headers_almost_done_def
    by (auto simp: Let_def [of ?q] intro!: keeps_bindP split: sum.splits)
qed

lemma step_headers_done_keeps: "J (hp_data ps) \<Longrightarrow> keeps (step_headers_done S ps l)"
  unfolding step_headers_done_def Let_def by (auto split: option.split sum.split intro!: step_keeps)

lemma step_body_identity_keeps: "J (hp_data ps) \<Longrightarrow> keeps (step_body_identity S data ps l)"
  unfolding step_body_identity_def Let_def by (auto split: option.split sum.split intro!: step_keeps)

lemma step_body_identity_eof_keeps: "J (hp_data ps) \<Longrightarrow> keeps (step_body_identity_eof data ps l)"
  unfolding step_body_identity_eof_def Let_def by (auto split: option.split sum.split intro!: step_keeps)

lemma step_message_done_keeps: "J (hp_data ps) \<Longrightarrow> keeps (step_message_done S ps l)"
  unfolding step_message_done_def Let_def by (auto split: option.split sum.split intro!: step_keeps)

lemma step_chunk_size_start_keeps: "J (hp_data ps) \<Longrightarrow> keeps (step_chunk_size_start ch ps l)"
  unfolding step_chunk_size_start_def Let_def by (auto split: option.split sum.split intro!: step_keeps)

lemma step_chunk_size_keeps: "J (hp_data ps) \<Longrightarrow> keeps (step_chunk_size ch ps l)"
  unfolding step_chunk_size_def Let_def by (auto split: option.split sum.split intro!: step_keeps)

lemma step_chunk_parameters_keeps: "J (hp_data ps) \<Longrightarrow> keeps (step_chunk_parameters ch ps l)"
  unfolding step_chunk_parameters_def Let_def by (auto split: option.split sum.split intro!: step_keeps)

lemma step_chunk_size_almost_done_keeps: "J (hp_data ps) \<Longrightarrow> keeps (step_chunk_size_almost_done ch ps l)"
  unfolding step_chunk_size_almost_done_def Let_def by (auto split: option.split sum.split intro!: step_keeps)

lemma step_chunk_data_keeps: "J (hp_data ps) \<Longrightarrow> keeps (step_chunk_data data ps l)"
  unfolding step_chunk_data_def Let_def by (auto split: option.split sum.split intro!: step_keeps)

lemma step_chunk_data_almost_done_keeps: "J (hp_data ps) \<Longrightarrow> keeps (step_chunk_data_almost_done S data ch ps l)"
  unfolding step_chunk_data_almost_done_def Let_def by (auto split: option.split sum.split intro!: step_keeps)

lemma step_chunk_data_done_keeps: "J (hp_data ps) \<Longrightarrow> keeps (step_chunk_data_done ch ps l)"
  unfolding step_chunk_data_done_def Let_def by (auto split: option.split sum.split intro!: step_keeps)

section \<open>The whole parser\<close>

lemmas all_steps_keep = step_dead_keeps step_start_req_or_res_keeps step_res_or_resp_H_keeps step_start_res_keeps
  step_constant_keeps step_res_first_http_major_keeps step_http_major_keeps step_first_http_minor_keeps
  step_res_http_minor_keeps step_res_first_status_code_keeps step_res_status_code_keeps step_res_status_keeps
  step_res_line_almost_done_keeps step_start_req_keeps step_req_method_keeps step_req_spaces_before_url_keeps
  step_req_schema_keeps step_req_url_keeps step_req_http_start_keeps step_req_first_http_major_keeps
  step_req_http_minor_keeps step_req_line_almost_done_keeps step_header_field_start_keeps step_header_field_keeps
  step_header_value_start_keeps step_header_value_keeps step_header_almost_done_keeps step_header_value_lws_keeps
  step_headers_almost_done_keeps step_headers_done_keeps step_body_identity_keeps step_body_identity_eof_keeps
  step_message_done_keeps step_chunk_size_start_keeps step_chunk_size_keeps step_chunk_parameters_keeps
  step_chunk_size_almost_done_keeps step_chunk_data_keeps step_chunk_data_almost_done_keeps step_chunk_data_done_keeps

lemma http_step_keeps: "J (hp_data ps) \<Longrightarrow> keeps (http_step S data ch ps l)"
  unfolding http_step_def by (cases "hp_state ps") (simp_all only: state.case all_steps_keep)

lemma reexecute_keeps: "J (hp_data ps) \<Longrightarrow> reexecute_byte n S data ch ps l = Some r \<Longrightarrow> keeps r"
proof (induction n arbitrary: ps l)
  case (Suc n)
  have k: "keeps (http_step S data ch ps l)" using http_step_keeps Suc.prems(1) .
  show ?case
  proof (cases "http_step S data ch ps l")
    case (Inl e)
    with Suc.prems show ?thesis by auto
  next
    case (Inr x)
    with k Suc show ?thesis by (cases x) auto
  qed
qed simp

lemma loop_keeps: "J (hp_data ps) \<Longrightarrow> execute_loop n S data ps l = Some r \<Longrightarrow> keeps r"
proof (induction n arbitrary: ps l)
  case (Suc n)
  let ?ch = "data ! nat (lp l)"
  have c: "J (hp_data (count_nread ps))" using Suc.prems(1) by (simp add: count_nread_def)
  show ?case
  proof (cases "reexecute_byte 5 S data ?ch (count_nread ps) l")
    case None
    with Suc.prems c show ?thesis by (auto simp: Let_def split: if_splits)
  next
    case (Some q)
    note q = reexecute_keeps [OF c Some]
    show ?thesis
    proof (cases q)
      case (Inl e)
      with Suc.prems Some c show ?thesis by (auto simp: Let_def split: if_splits)
    next
      case (Inr x)
      with Suc Some q c show ?thesis by (cases x) (auto simp: Let_def split: if_splits)
    qed
  qed
qed simp

lemma finish_keeps: "J (hp_data ps) \<Longrightarrow> keeps (execute_finish S data ps l)"
  unfolding execute_finish_def by (auto intro!: step_keeps)

lemma finish_outcome_keeps: "keeps r \<Longrightarrow> res_all (\<lambda>(q, n). J (hp_data q)) (rbind r finish_outcome)"
proof (cases r)
  case (Inr x)
  then show "keeps r \<Longrightarrow> ?thesis" by (cases x) (auto simp: error_errno_def)
qed simp

theorem execute_keeps:
  assumes "J (hp_data ps)" and "http_parser_execute S data ps = Some (Inr (q, n))"
  shows "J (hp_data q)"
proof (cases "hp_errno ps \<noteq> HPE_OK \<or> data = []")
  case True
  have "keeps (CALLBACK_NOTIFY_ER (on_message_complete S) HPE_CB_message_complete 0 ps (\<lambda>ps. Inr (Return ps 0)))"
    using assms(1) notify_J(4) by (intro notify_er_keeps) auto
  from finish_outcome_keeps [OF this] True assms show ?thesis
    by (auto simp: http_parser_execute_def execute_eof_def split: if_splits dest: res_allD)
next
  case False
  let ?l = "init_locals (hp_state ps)"
  obtain r where r: "execute_loop (length data + 2) S data ps ?l = Some (Inr r)"
    using False assms(2) by (auto simp: http_parser_execute_def split: option.splits sum.splits)
  note k = loop_keeps [OF assms(1) r]
  show ?thesis
  proof (cases r)
    case (Break ps' l)
    then have "keeps (execute_finish S data ps' l)" using k by (intro finish_keeps) simp
    from finish_outcome_keeps [OF this] Break r False assms(2) show ?thesis
      by (auto simp: http_parser_execute_def dest: res_allD)
  qed (use k r False assms(2) in \<open>auto simp: http_parser_execute_def error_errno_def split: if_splits\<close>)
qed

end

end
