(* ===== verification/Http_Parser_Run.thy ===== *)
theory Http_Parser_Run
  imports Http_Parser_Safe Http_Parser_Data
begin

text \<open>
  Running the parser inside a program.  The structures of the program own their parser, and the callbacks reach
  the whole program through \<^verbatim>\<open>parser->data\<close>; so a stored parser carries no data, and a run supplies it.
\<close>

definition with_data :: "'e \<Rightarrow> 'd http_parser \<Rightarrow> 'e http_parser" where
  "with_data d ps =
     \<lparr>hp_type = hp_type ps, hp_flags = hp_flags ps, hp_state = hp_state ps, hp_header_state = hp_header_state ps,
      hp_index = hp_index ps, hp_nread = hp_nread ps, hp_content_length = hp_content_length ps,
      hp_http_major = hp_http_major ps, hp_http_minor = hp_http_minor ps, hp_status_code = hp_status_code ps,
      hp_method = hp_method ps, hp_errno = hp_errno ps, hp_upgrade = hp_upgrade ps, hp_data = d\<rparr>"

definition run_parser :: "'d http_parser_settings \<Rightarrow> char list \<Rightarrow> unit http_parser \<Rightarrow> 'd
    \<Rightarrow> ('d \<times> unit http_parser \<times> int) res" where
  "run_parser S data ps d =
     (case http_parser_execute S data (with_data d ps) of
        None \<Rightarrow> Inl No_Return
      | Some r \<Rightarrow> rbind r (\<lambda>(q, n). Inr (hp_data q, with_data () q, n)))"

lemma with_data_simps [simp]:
  "hp_type (with_data d ps) = hp_type ps" "hp_flags (with_data d ps) = hp_flags ps"
  "hp_state (with_data d ps) = hp_state ps" "hp_header_state (with_data d ps) = hp_header_state ps"
  "hp_index (with_data d ps) = hp_index ps" "hp_nread (with_data d ps) = hp_nread ps"
  "hp_content_length (with_data d ps) = hp_content_length ps" "hp_method (with_data d ps) = hp_method ps"
  "hp_errno (with_data d ps) = hp_errno ps" "hp_data (with_data d ps) = d"
  by (simp_all add: with_data_def)

lemma with_data_again [simp]: "with_data d (with_data e ps) = with_data d ps"
  by (simp add: with_data_def)

lemma with_data_id [simp]: "with_data (hp_data ps) ps = ps"
  by (cases ps) (simp add: with_data_def)

lemma with_data_hp_wf [simp]: "hp_wf n (with_data d ps) = hp_wf n ps"
  by (simp add: hp_wf_def)

lemma with_data_phase [simp]: "phase_of (with_data d ps) = phase_of ps"
  by (simp add: phase_of_def)

lemma with_data_init: "with_data d (http_parser_init t e) = http_parser_init t d"
  by (simp add: with_data_def http_parser_init_def)

section \<open>Callbacks that work on a state and an object of it\<close>

text \<open>
  The programs pass a pointer as \<^verbatim>\<open>parser->data\<close>: the data of a run is the state and the pointer.  A callback
  runs an operation on the state and returns 0.
\<close>

definition cb_notify :: "'st \<Rightarrow> nat \<Rightarrow> 'st res \<Rightarrow> ('st \<times> nat) cb_result" where
  "cb_notify b p r = rbind r (\<lambda>b'. Inr ((b', p), False, 0))"

lemma cb_data_ok:
  fixes f :: "('st \<times> nat) http_data_cb"
  assumes "\<And>ps d. f ps d = (let (b, p) = hp_data ps in cb_notify b p (g p d b))"
    and "\<And>b p d. P (b, p) \<Longrightarrow> \<exists>b'. g p d b = Inr b' \<and> Q (b', p)"
  shows "data_ok (Some f) N P Q"
  unfolding data_ok_def
proof (intro allI impI)
  fix ps :: "('st \<times> nat) http_parser" and bs :: "char list"
  obtain b p where d: "hp_data ps = (b, p)" by fastforce
  assume "P (hp_data ps)"
  with assms(2) [of b p bs] d show "case Some f of None \<Rightarrow> Q (hp_data ps) | Some f \<Rightarrow> \<exists>d pz rc. f ps bs = Inr (d, pz, rc) \<and> Q d"
    by (auto simp: assms(1) cb_notify_def)
qed

lemma cb_notify_ok:
  fixes f :: "('st \<times> nat) http_cb"
  assumes "\<And>ps. f ps = (let (b, p) = hp_data ps in cb_notify b p (g ps p b))"
    and "\<And>ps b p. P (b, p) \<Longrightarrow> \<exists>b'. g ps p b = Inr b' \<and> Q (b', p)"
  shows "notify_ok (Some f) P Q"
  unfolding notify_ok_def
proof (intro allI impI)
  fix ps :: "('st \<times> nat) http_parser"
  obtain b p where d: "hp_data ps = (b, p)" by fastforce
  assume "P (hp_data ps)"
  with assms(2) [of b p ps] d show "case Some f of None \<Rightarrow> Q (hp_data ps) | Some f \<Rightarrow> \<exists>d pz rc. f ps = Inr (d, pz, rc) \<and> Q d"
    by (auto simp: assms(1) cb_notify_def)
qed

lemma cb_data_keeps:
  fixes f :: "('st \<times> nat) http_data_cb"
  assumes "\<And>ps d. f ps d = (let (b, p) = hp_data ps in cb_notify b p (g p d b))"
    and "\<And>b p d. J (b, p) \<Longrightarrow> res_all (\<lambda>b'. J (b', p)) (g p d b)"
  shows "data_keeps J (Some f)"
  unfolding data_keeps_def
proof (intro allI impI)
  fix h and ps :: "('st \<times> nat) http_parser" and bs :: "char list"
  obtain b p where d: "hp_data ps = (b, p)" by fastforce
  have "f ps bs = rbind (g p bs b) (\<lambda>b'. Inr ((b', p), False, 0))"
    using d by (simp add: assms(1) cb_notify_def)
  moreover assume "Some f = Some h" "J (hp_data ps)"
  ultimately have "h ps bs = rbind (g p bs b) (\<lambda>b'. Inr ((b', p), False, 0))" "J (b, p)" using d by auto
  with assms(2) [of b p bs] show "res_all (\<lambda>r. J (fst r)) (h ps bs)" by (auto intro: res_all_bind)
qed

lemma cb_notify_keeps:
  fixes f :: "('st \<times> nat) http_cb"
  assumes "\<And>ps. f ps = (let (b, p) = hp_data ps in cb_notify b p (g ps p b))"
    and "\<And>ps b p. J (b, p) \<Longrightarrow> res_all (\<lambda>b'. J (b', p)) (g ps p b)"
  shows "notify_keeps J (Some f)"
  unfolding notify_keeps_def
proof (intro allI impI)
  fix h and ps :: "('st \<times> nat) http_parser"
  obtain b p where d: "hp_data ps = (b, p)" by fastforce
  have "f ps = rbind (g ps p b) (\<lambda>b'. Inr ((b', p), False, 0))"
    using d by (simp add: assms(1) cb_notify_def)
  moreover assume "Some f = Some h" "J (hp_data ps)"
  ultimately have "h ps = rbind (g ps p b) (\<lambda>b'. Inr ((b', p), False, 0))" "J (b, p)" using d by auto
  with assms(2) [of b p ps] show "res_all (\<lambda>r. J (fst r)) (h ps)" by (auto intro: res_all_bind)
qed

section \<open>Runs\<close>

context http_callbacks
begin

lemma run_good:
  assumes "parser_ok (with_data d ps)" and "int (length data) < 2 ^ 63" and "data \<noteq> []"
  shows "\<exists>d' q n. run_parser S data ps d = Inr (d', q, n) \<and> parser_ok (with_data d' q) \<and> 0 \<le> n \<and> n \<le> int (length data)"
proof -
  obtain q n where "http_parser_execute S data (with_data d ps) = Some (Inr (q, n))" "parser_ok q" "0 \<le> n" "n \<le> int (length data)"
    using execute_good [OF assms] by blast
  then show ?thesis by (simp add: run_parser_def)
qed

end

context parser_user
begin

lemma run_keeps: "J d \<Longrightarrow> res_all (\<lambda>r. J (fst r)) (run_parser S data ps d)"
  using execute_keeps [of "with_data d ps" data]
  by (auto simp: run_parser_def rbind_eq_Inr split: option.split intro!: res_allI)

end

end
