(* ===== verification/Util.thy ===== *)
theory Util
  imports Ep_Buffer
begin

text \<open>
  The helpers of \<^verbatim>\<open>util.c\<close>: the formatted append every request and status line is built with, the table
  of status lines, and the two socket set-up functions with the results of the system calls they make
  as parameters.
\<close>

section \<open>append\_format\<close>

text \<open>
  \<^verbatim>\<open>append_format(buf, len, format, ...)\<close> formats into a temporary of 81920 bytes (\<^verbatim>\<open>vsnprintf\<close> cuts at
  81919) and appends with \<^verbatim>\<open>strncat(buf, tmp, len)\<close>.  The formatted text is computed by the caller.
  \<^verbatim>\<open>len\<close> bounds what is appended, not what fits: the callers pass the size of the whole buffer.
\<close>

definition tmp_buf :: "string \<Rightarrow> string" where
  "tmp_buf s = (if int (length s) \<le> 81919 then s else take (nat 81919) s)"

definition append_format :: "char list \<Rightarrow> nat \<Rightarrow> string \<Rightarrow> char list res" where
  "append_format buf len s = strncat buf (c_str (tmp_buf s)) len"

section \<open>Status lines\<close>

text \<open>The cases of the \<^verbatim>\<open>switch\<close>; 200 has a second text for upgraded connections.\<close>

definition status_table :: "(int \<times> string) list" where
  "status_table =
     [(100, ''100 Continue''),
      (101, ''101 Switching Protocols''),
      (200, ''200 OK''),
      (201, ''201 Created''),
      (202, ''202 Accepted''),
      (203, ''203 Non-Authoritative Information''),
      (204, ''204 No Content''),
      (205, ''205 Reset Content''),
      (206, ''206 Partial Content''),
      (300, ''300 Multiple Choices''),
      (301, ''301 Moved Permanently''),
      (302, ''302 Found''),
      (303, ''303 See Other''),
      (304, ''304 Not Modified''),
      (305, ''305 Use Proxy''),
      (306, ''306 (Unused)''),
      (307, ''307 Temporary Redirect''),
      (400, ''400 Bad Request''),
      (401, ''401 Unauthorized''),
      (402, ''402 Payment Required''),
      (403, ''403 Forbidden''),
      (404, ''404 Not Found''),
      (405, ''405 Method Not Allowed''),
      (406, ''406 Not Acceptable''),
      (407, ''407 Proxy Authentication Required''),
      (408, ''408 Request Timeout''),
      (409, ''409 Conflict''),
      (410, ''410 Gone''),
      (411, ''411 Length Required''),
      (412, ''412 Precondition Failed''),
      (413, ''413 Request Entity Too Large''),
      (414, ''414 Request-URI Too Long''),
      (415, ''415 Unsupported Media Type''),
      (416, ''416 Requested Range Not Satisfiable''),
      (417, ''417 Expectation Failed''),
      (425, ''425 Bad Host''),
      (500, ''500 Internal Server Error''),
      (501, ''501 Not Implemented''),
      (502, ''502 Bad Gateway''),
      (503, ''503 Service Unavailable''),
      (504, ''504 Gateway Timeout''),
      (505, ''505 HTTP Version Not Supported'')]"

definition get_status_string :: "int \<Rightarrow> int \<Rightarrow> string" where
  "get_status_string status_code upgrade =
     (if status_code = 200 \<and> upgrade \<noteq> 0 then ''200 Connection established''
      else case map_of status_table status_code of Some s \<Rightarrow> s | None \<Rightarrow> [])"

section \<open>Sockets\<close>

definition O_NONBLOCK :: int where
  "O_NONBLOCK = 2048"

text \<open>\<open>getfl\<close> is what \<^verbatim>\<open>fcntl(fd, F_GETFL)\<close> returns, \<open>setfl\<close> what \<^verbatim>\<open>fcntl(fd, F_SETFL, flags)\<close> returns.\<close>

definition make_socket_nonblocking :: "int \<Rightarrow> (int \<Rightarrow> int) \<Rightarrow> int" where
  "make_socket_nonblocking getfl setfl =
     (if getfl < 0 then - 1 else if setfl (or getfl O_NONBLOCK) = - 1 then - 1 else 0)"

text \<open>
  \<open>fd\<close>, \<open>bind\<close> and \<open>listen\<close> are the results of \<^verbatim>\<open>socket\<close>, \<^verbatim>\<open>bind\<close> and \<^verbatim>\<open>listen\<close>.  The result is what is returned
  and whether the descriptor was closed.
\<close>

definition server_create_listen_fd :: "int \<Rightarrow> int \<Rightarrow> int \<Rightarrow> int \<times> bool" where
  "server_create_listen_fd fd bind listen =
     (if bind \<noteq> 0 then (- 1, True) else if listen \<noteq> 0 then (- 1, True) else (fd, False))"

section \<open>Properties\<close>

lemma tmp_buf_short: "int (length s) \<le> 81919 \<Longrightarrow> tmp_buf s = s"
  by (simp add: tmp_buf_def)

lemma append_format_fits:
  assumes "no_nul s" and "NUL \<in> set buf" and "int (length s) \<le> 81919"
    and "length (c_str buf) + length s < length buf" and "length s \<le> len"
  shows "\<exists>buf'. append_format buf len s = Inr buf' \<and> c_str buf' = c_str buf @ s
    \<and> length buf' = length buf \<and> NUL \<in> set buf'"
  using strncat_c_str [of s buf len] assms
  by (simp add: append_format_def tmp_buf_short cstr_simps)

lemma append_format_overflows:
  assumes "no_nul s" and "NUL \<in> set buf" and "int (length s) \<le> 81919"
    and "length buf \<le> length (c_str buf) + length s"
  shows "append_format buf (length buf) s = Inl Out_Of_Bounds"
  using assms
  by (auto simp: append_format_def tmp_buf_short cstr_simps strncat_def c_strlen_def memcpy_at_def)

text \<open>
  Claim C33.  \<^verbatim>\<open>append_format\<close> with the buffer's size for \<^verbatim>\<open>len\<close>, as every caller passes it, appends the formatted
  text exactly when text and terminator fit behind what the buffer holds; when they do not fit it writes
  past the end of the buffer.
\<close>

theorem append_format_bounds:
  assumes "no_nul s" and "NUL \<in> set buf" and "int (length s) \<le> 81919"
  shows "if length (c_str buf) + length s < length buf
    then \<exists>buf'. append_format buf (length buf) s = Inr buf' \<and> c_str buf' = c_str buf @ s
    else append_format buf (length buf) s = Inl Out_Of_Bounds"
  using append_format_fits [OF assms, of "length buf"] append_format_overflows [OF assms] by auto

theorem append_format_bounds_witness:
  "append_format [CHR ''a'', NUL, NUL] 3 ''bc'' = Inl Out_Of_Bounds
   \<and> (\<exists>buf'. append_format [CHR ''a'', NUL, NUL] 3 ''b'' = Inr buf' \<and> c_str buf' = ''ab'')"
  using append_format_bounds [of "''bc''" "[CHR ''a'', NUL, NUL]"]
    append_format_bounds [of "''b''" "[CHR ''a'', NUL, NUL]"]
  by (simp add: c_str_def numeral_3_eq_3)

text \<open>
  Every status line starts with its own three-digit code; for a code outside the table it is empty.
\<close>

lemma get_status_string_code:
  "get_status_string c u = [] \<or> take 4 (get_status_string c u) = fmt_d (nat c) @ [SP]"
proof (cases "c = 200 \<and> u \<noteq> 0")
  case True
  moreover have "take 4 ''200 Connection established'' = fmt_d (nat 200) @ [SP]" by code_simp
  ultimately show ?thesis by (simp add: get_status_string_def)
next
  case False
  have "list_all (\<lambda>(c, s). take 4 s = fmt_d (nat c) @ [SP]) status_table" by code_simp
  then show ?thesis
    using False by (auto simp: get_status_string_def list_all_iff split: option.split dest!: map_of_SomeD)
qed

end
