(* ===== verification/Http_Url_Parts.thy ===== *)
theory Http_Url_Parts
  imports Http_Url
begin

text \<open>
  The URL parser as the inverse of URL construction: an absolute URL put together from a host, an
  optional port, an optional path and an optional query is parsed into exactly those parts.
\<close>

section \<open>Runs of characters inside one field\<close>

definition put_field :: "http_parser_url_fields \<Rightarrow> nat \<Rightarrow> nat \<Rightarrow> http_parser_url \<Rightarrow> http_parser_url" where
  "put_field f i n u = mark_field f (set_len f (word_of_nat n) (set_off f i u))"

lemma put_field_sel [simp]:
  "field_set (put_field f i n u) = insert f (field_set u)"
  "uf_get (fd_off (put_field f i n u)) g = (if g = f then word_of_nat i else uf_get (fd_off u) g)"
  "uf_get (fd_len (put_field f i n u)) g = (if g = f then word_of_nat n else uf_get (fd_len u) g)"
  "port (put_field f i n u) = port u"
  by (simp_all add: put_field_def url_upd_defs)

lemma inc_len_put_field: "inc_len f (put_field f i n u) = put_field f i (Suc n) u"
  by (cases "fd_len u"; cases "fd_off u"; cases f) (simp_all add: put_field_def url_upd_defs add.commute)

lemma url_loop_field:
  assumes "\<forall>c \<in> set cs. parse_url_char s c = s" and "url_uf s = Some f" and "\<not> url_delimiter s"
    and "s \<noteq> s_dead" and "s \<noteq> s_req_server_with_at"
  shows "url_loop (cs @ rest) i s (Some f) fa (put_field f j n u)
    = url_loop rest (i + length cs) s (Some f) fa (put_field f j (n + length cs) u)"
  using assms(1)
proof (induction cs arbitrary: i n)
  case Nil
  then show ?case by simp
next
  case (Cons c cs)
  then have "parse_url_char s c = s" by simp
  with Cons assms(2-) show ?case by (simp add: Let_def inc_len_put_field)
qed

text \<open>A field is entered at its first character and runs to the last one that keeps the state.\<close>

lemma url_loop_enter:
  assumes "parse_url_char s0 c = s" and "\<forall>d \<in> set cs. parse_url_char s d = s" and "url_uf s = Some f"
    and "\<not> url_delimiter s" and "s \<noteq> s_dead" and "s \<noteq> s_req_server_with_at" and "old \<noteq> Some f"
  shows "url_loop ((c # cs) @ rest) i s0 old fa u
    = url_loop rest (i + length (c # cs)) s (Some f) fa (put_field f i (length (c # cs)) u)"
proof -
  have "url_loop ((c # cs) @ rest) i s0 old fa u = url_loop (cs @ rest) (Suc i) s (Some f) fa (put_field f i 1 u)"
    using assms by (simp add: Let_def put_field_def)
  also have "\<dots> = url_loop rest (Suc i + length cs) s (Some f) fa (put_field f i (1 + length cs) u)"
    using assms by (intro url_loop_field)
  finally show ?thesis by simp
qed

lemma url_loop_delim:
  assumes "parse_url_char s c = s'" and "url_delimiter s'"
  shows "url_loop (c # cs) i s old fa u = url_loop cs (Suc i) s' old fa u"
  using assms by (auto simp: Let_def url_delimiter_def)

section \<open>The transitions taken\<close>

lemma server_char:
  assumes "IS_USERINFO_CHAR c" and "c \<notin> {CHR ''/'', CHR ''?'', CHR ''@''}"
  shows "parse_url_char s_req_server_start c = s_req_server" "parse_url_char s_req_server c = s_req_server"
  using assms parse_url_char_no_space [OF class_no_space(5) [OF assms(1)]]
  by (simp_all add: parse_url_char_def url_server_char_def)

lemma path_char: "IS_URL_CHAR c \<Longrightarrow> parse_url_char s_req_path c = s_req_path"
  using parse_url_char_no_space [OF class_no_space(3), of c] by (simp add: parse_url_char_def)

lemma query_char:
  assumes "IS_URL_CHAR c"
  shows "parse_url_char s_req_query_string_start c = s_req_query_string"
    and "parse_url_char s_req_query_string c = s_req_query_string"
  using assms parse_url_char_no_space [OF class_no_space(3) [OF assms]]
  by (simp_all add: parse_url_char_def)

lemma server_exits:
  "parse_url_char s_req_server (CHR ''/'') = s_req_path"
  "parse_url_char s_req_server (CHR ''?'') = s_req_query_string_start"
  "parse_url_char s_req_path (CHR ''?'') = s_req_query_string_start"
  by (simp_all add: parse_url_char_def url_server_char_def IS_URL_CHAR_def BIT_AT_def normal_url_char_def uchar_def)

lemma scheme_chars:
  "parse_url_char s_req_spaces_before_url (CHR ''h'') = s_req_schema"
  "parse_url_char s_req_schema (CHR ''t'') = s_req_schema"
  "parse_url_char s_req_schema (CHR ''p'') = s_req_schema"
  "parse_url_char s_req_schema (CHR '':'') = s_req_schema_slash"
  "parse_url_char s_req_schema_slash (CHR ''/'') = s_req_schema_slash_slash"
  "parse_url_char s_req_schema_slash_slash (CHR ''/'') = s_req_server_start"
  by (simp_all add: parse_url_char_def char_defs)

lemmas state_facts = url_delimiter_def url_uf_def

section \<open>The URL\<close>

text \<open>The text of an absolute URL; empty lists stand for absent parts.\<close>

definition server_text :: "string \<Rightarrow> string \<Rightarrow> string" where
  "server_text host ds = host @ (if ds = [] then [] else CHR '':'' # ds)"

definition url_text :: "string \<Rightarrow> string \<Rightarrow> string \<Rightarrow> string \<Rightarrow> string" where
  "url_text host ds path query =
     ''http://'' @ server_text host ds @ path @ (if query = [] then [] else CHR ''?'' # query)"

definition wf_parts :: "string \<Rightarrow> string \<Rightarrow> string \<Rightarrow> string \<Rightarrow> bool" where
  "wf_parts host ds path query \<longleftrightarrow>
     host \<noteq> [] \<and> list_all IS_HOST_CHAR host \<and> list_all IS_NUM ds \<and> strtoul ds \<le> 0xffff
     \<and> list_all IS_URL_CHAR path \<and> (path = [] \<or> hd path = CHR ''/'') \<and> list_all IS_URL_CHAR query"

lemma server_text_chars:
  assumes "list_all IS_HOST_CHAR host" and "list_all IS_NUM ds" and "c \<in> set (server_text host ds)"
  shows "IS_USERINFO_CHAR c" and "c \<notin> {CHR ''/'', CHR ''?'', CHR ''@''}"
proof -
  have "IS_HOST_CHAR c \<or> IS_NUM c \<or> c = CHR '':''"
    using assms by (auto simp: server_text_def list_all_iff split: if_splits)
  then show "IS_USERINFO_CHAR c" and "c \<notin> {CHR ''/'', CHR ''?'', CHR ''@''}"
    using host_is_userinfo class_not_punct [of c] by auto
qed

lemma url_loop_scheme:
  "url_loop (''http://'' @ rest) 0 s_req_spaces_before_url None False u
   = url_loop rest 7 s_req_server_start (Some UF_SCHEMA) False (put_field UF_SCHEMA 0 4 u)"
proof -
  have "url_loop ((CHR ''h'' # ''ttp'') @ ''://'' @ rest) 0 s_req_spaces_before_url None False u
      = url_loop (''://'' @ rest) 4 s_req_schema (Some UF_SCHEMA) False (put_field UF_SCHEMA 0 4 u)"
    by (subst url_loop_enter [where s = s_req_schema and f = UF_SCHEMA])
      (simp_all add: scheme_chars state_facts eval_nat_numeral)
  also have "\<dots> = url_loop rest 7 s_req_server_start (Some UF_SCHEMA) False (put_field UF_SCHEMA 0 4 u)"
    by (simp add: scheme_chars state_facts Let_def eval_nat_numeral)
  finally show ?thesis by simp
qed

lemma url_loop_server:
  assumes "host \<noteq> []" and "list_all IS_HOST_CHAR host" and "list_all IS_NUM ds" and "old \<noteq> Some UF_HOST"
  shows "url_loop (server_text host ds @ rest) i s_req_server_start old fa u
    = url_loop rest (i + length (server_text host ds)) s_req_server (Some UF_HOST) fa
        (put_field UF_HOST i (length (server_text host ds)) u)"
proof -
  obtain c cs where st: "server_text host ds = c # cs"
    using assms(1) by (cases "server_text host ds") (auto simp: server_text_def)
  have ch: "parse_url_char s_req_server_start d = s_req_server \<and> parse_url_char s_req_server d = s_req_server"
    if "d \<in> set (server_text host ds)" for d
    using server_char server_text_chars [OF assms(2,3) that] by blast
  show ?thesis
    unfolding st using ch assms(4) st
    by (intro url_loop_enter) (auto simp: state_facts)
qed

definition put_path :: "nat \<Rightarrow> string \<Rightarrow> http_parser_url \<Rightarrow> http_parser_url" where
  "put_path i path u = (if path = [] then u else put_field UF_PATH i (length path) u)"

definition put_query :: "nat \<Rightarrow> string \<Rightarrow> http_parser_url \<Rightarrow> http_parser_url" where
  "put_query i query u = (if query = [] then u else put_field UF_QUERY (Suc i) (length query) u)"

lemma url_loop_query:
  assumes "list_all IS_URL_CHAR query" and "s \<in> {s_req_server, s_req_path}" and "old \<noteq> Some UF_QUERY"
  shows "url_loop (if query = [] then [] else CHR ''?'' # query) i s old fa u
    = Inr (Some fa, put_query i query u)"
proof (cases query)
  case (Cons c cs)
  have d: "parse_url_char s (CHR ''?'') = s_req_query_string_start"
    using assms(2) by (auto simp: server_exits)
  have "url_loop ((c # cs) @ []) (Suc i) s_req_query_string_start old fa u
      = url_loop [] (Suc i + length (c # cs)) s_req_query_string (Some UF_QUERY) fa
          (put_field UF_QUERY (Suc i) (length (c # cs)) u)"
    using assms Cons query_char by (intro url_loop_enter) (auto simp: state_facts list_all_iff)
  with Cons d show ?thesis
    by (simp add: put_query_def url_loop_delim [OF d] state_facts del: url_loop.simps(2))
qed (simp add: put_query_def)

lemma url_loop_tail:
  assumes "list_all IS_URL_CHAR path" and "path = [] \<or> hd path = CHR ''/''" and "list_all IS_URL_CHAR query"
  shows "url_loop (path @ (if query = [] then [] else CHR ''?'' # query)) i s_req_server (Some UF_HOST) fa u
    = Inr (Some fa, put_query (i + length path) query (put_path i path u))"
proof (cases path)
  case Nil
  with assms(3) show ?thesis by (simp add: url_loop_query put_path_def)
next
  case (Cons c cs)
  have "url_loop ((c # cs) @ rest) i s_req_server (Some UF_HOST) fa u
      = url_loop rest (i + length (c # cs)) s_req_path (Some UF_PATH) fa (put_field UF_PATH i (length (c # cs)) u)"
    for rest
    using assms Cons path_char by (intro url_loop_enter) (auto simp: state_facts list_all_iff server_exits)
  with Cons assms(3) show ?thesis by (simp add: url_loop_query put_path_def del: url_loop.simps(2))
qed

section \<open>The host loop\<close>

lemma put_field_start:
  "UF_HOST \<in> field_set u \<Longrightarrow> inc_len UF_HOST (set_off UF_HOST i (set_len UF_HOST 0 u)) = put_field UF_HOST i 1 u"
  "inc_len UF_PORT (mark_field UF_PORT (set_len UF_PORT 0 (set_off UF_PORT i u))) = put_field UF_PORT i 1 u"
  by (cases "fd_len u"; cases "fd_off u"; simp add: put_field_def url_upd_defs insert_absorb)+

lemma host_char_step: "IS_HOST_CHAR c \<Longrightarrow> http_parse_host_char s_http_host c = s_http_host"
  by (simp add: http_parse_host_char_def)

lemma host_char_start: "IS_HOST_CHAR c \<Longrightarrow> http_parse_host_char s_http_host_start c = s_http_host"
  using class_not_punct(1) [of c] by (simp add: http_parse_host_char_def)

lemma port_char_step:
  "IS_NUM c \<Longrightarrow> http_parse_host_char s_http_host_port c = s_http_host_port"
  "IS_NUM c \<Longrightarrow> http_parse_host_char s_http_host_port_start c = s_http_host_port"
  by (simp_all add: http_parse_host_char_def)

lemma host_colon: "http_parse_host_char s_http_host (CHR '':'') = s_http_host_port_start"
  by (simp add: http_parse_host_char_def char_defs)

lemma host_loop_run:
  "list_all IS_HOST_CHAR cs \<Longrightarrow>
     host_loop (cs @ rest) i s_http_host (put_field UF_HOST j n u)
     = host_loop rest (i + length cs) s_http_host (put_field UF_HOST j (n + length cs) u)"
  by (induction cs arbitrary: i n) (simp_all add: host_char_step host_step_def inc_len_put_field)

lemma host_loop_port_run:
  "list_all IS_NUM ds \<Longrightarrow>
     host_loop ds i s_http_host_port (put_field UF_PORT j n u)
     = (s_http_host_port, put_field UF_PORT j (n + length ds) u)"
  by (induction ds arbitrary: i n) (simp_all add: port_char_step host_step_def inc_len_put_field)

lemma host_loop_host:
  assumes "host \<noteq> []" and "list_all IS_HOST_CHAR host" and "UF_HOST \<in> field_set u"
  shows "host_loop (host @ rest) i s_http_host_start (set_len UF_HOST 0 u)
    = host_loop rest (i + length host) s_http_host (put_field UF_HOST i (length host) u)"
proof -
  obtain c cs where c: "host = c # cs" using assms(1) by (cases host) auto
  have "host_loop (host @ rest) i s_http_host_start (set_len UF_HOST 0 u)
      = host_loop (cs @ rest) (Suc i) s_http_host (put_field UF_HOST i 1 u)"
    using assms c by (simp add: host_char_start host_step_def put_field_start)
  also have "\<dots> = host_loop rest (Suc i + length cs) s_http_host (put_field UF_HOST i (1 + length cs) u)"
    using assms c by (intro host_loop_run) simp
  finally show ?thesis using c by simp
qed

definition put_port :: "nat \<Rightarrow> string \<Rightarrow> http_parser_url \<Rightarrow> http_parser_url" where
  "put_port i ds u = (if ds = [] then u else put_field UF_PORT (Suc i) (length ds) u)"

lemma host_loop_port:
  assumes "list_all IS_NUM ds"
  shows "\<exists>s \<in> {s_http_host, s_http_host_port}.
    host_loop (if ds = [] then [] else CHR '':'' # ds) i s_http_host u = (s, put_port i ds u)"
proof (cases ds)
  case (Cons d es)
  have "host_loop (CHR '':'' # ds) i s_http_host u
      = host_loop es (Suc (Suc i)) s_http_host_port (put_field UF_PORT (Suc i) 1 u)"
    using assms Cons by (simp add: host_colon port_char_step host_step_def put_field_start)
  also have "\<dots> = (s_http_host_port, put_field UF_PORT (Suc i) (1 + length es) u)"
    using assms Cons by (intro host_loop_port_run) simp
  finally show ?thesis using Cons by (simp add: put_port_def)
qed (simp add: put_port_def)

lemma http_parse_host_server:
  assumes "host \<noteq> []" and "list_all IS_HOST_CHAR host" and "list_all IS_NUM ds" and "UF_HOST \<in> field_set u"
    and "take (length (server_text host ds)) (drop i buf) = server_text host ds"
    and "i + length (server_text host ds) \<le> length buf" and "length buf < 65536"
    and "uf_get (fd_off u) UF_HOST = word_of_nat i"
    and "uf_get (fd_len u) UF_HOST = word_of_nat (length (server_text host ds))"
  shows "http_parse_host buf u False
    = Inr (0, put_port (i + length host) ds (put_field UF_HOST i (length host) u))"
proof -
  obtain s where s: "s \<in> {s_http_host, s_http_host_port}"
    "host_loop (if ds = [] then [] else CHR '':'' # ds) (i + length host) s_http_host
       (put_field UF_HOST i (length host) u)
     = (s, put_port (i + length host) ds (put_field UF_HOST i (length host) u))"
    using host_loop_port [OF assms(3)] by blast
  have "host_loop (server_text host ds) i s_http_host_start (set_len UF_HOST 0 u)
      = (s, put_port (i + length host) ds (put_field UF_HOST i (length host) u))"
    using host_loop_host [OF assms(1,2,4)] s(2) by (simp add: server_text_def)
  moreover have "unat (word_of_nat i :: 16 word) = i"
    "unat (word_of_nat (length (server_text host ds)) :: 16 word) = length (server_text host ds)"
    using assms(6,7) by (simp_all add: unat_of_nat16)
  ultimately show ?thesis
    using s(1) assms(5,6,8,9) by (auto simp: http_parse_host_def Let_def)
qed

section \<open>The whole parser\<close>

definition parts_parsed :: "string \<Rightarrow> string \<Rightarrow> string \<Rightarrow> string \<Rightarrow> http_parser_url \<Rightarrow> http_parser_url" where
  "parts_parsed host ds path query u =
     (let n = 7 + length (server_text host ds)
      in put_port (7 + length host) ds (put_field UF_HOST 7 (length host)
           (put_query (n + length path) query (put_path n path
             (put_field UF_HOST 7 (length (server_text host ds))
               (put_field UF_SCHEMA 0 4 (u\<lparr>port := 0, field_set := {}\<rparr>)))))))"

lemma url_loop_parts:
  assumes "wf_parts host ds path query"
  shows "url_loop (url_text host ds path query) 0 s_req_spaces_before_url None False u
    = Inr (Some False, put_query (7 + length (server_text host ds) + length path) query
        (put_path (7 + length (server_text host ds)) path
          (put_field UF_HOST 7 (length (server_text host ds)) (put_field UF_SCHEMA 0 4 u))))"
proof -
  note wf = assms [unfolded wf_parts_def]
  show ?thesis
    unfolding url_text_def url_loop_scheme using wf
    by (subst url_loop_server) (simp_all only: url_loop_tail, simp_all)
qed

lemma strtoul_stop:
  "list_all IS_NUM ds \<Longrightarrow> rest = [] \<or> \<not> IS_NUM (hd rest) \<Longrightarrow> strtoul (ds @ rest) = strtoul ds"
proof -
  assume "list_all IS_NUM ds" and "rest = [] \<or> \<not> IS_NUM (hd rest)"
  then have "takeWhile IS_NUM (ds @ rest) = ds" "takeWhile IS_NUM ds = ds"
    by (cases rest; simp add: list_all_iff takeWhile_append)+
  then show "strtoul (ds @ rest) = strtoul ds" unfolding strtoul_def by (simp only:)
qed

lemma strtoul_nonneg: "0 \<le> strtoul s"
proof -
  have "0 \<le> foldl (\<lambda>v c. v * 10 + int (digit_val c)) a cs" if "0 \<le> a" for a cs
    using that by (induction cs arbitrary: a) auto
  then show ?thesis by (simp add: strtoul_def)
qed

lemma drop_url_text:
  "drop (7 + n) (url_text host ds path query)
   = drop n (server_text host ds @ path @ (if query = [] then [] else CHR ''?'' # query))"
  by (subst add.commute, subst drop_drop [symmetric]) (simp add: url_text_def)

lemma put_sel [simp]:
  "field_set (put_path i p u) = (if p = [] then {} else {UF_PATH}) \<union> field_set u"
  "field_set (put_query i q u) = (if q = [] then {} else {UF_QUERY}) \<union> field_set u"
  "field_set (put_port i ds u) = (if ds = [] then {} else {UF_PORT}) \<union> field_set u"
  "g \<noteq> UF_PATH \<Longrightarrow> uf_get (fd_off (put_path i p u)) g = uf_get (fd_off u) g
     \<and> uf_get (fd_len (put_path i p u)) g = uf_get (fd_len u) g"
  "g \<noteq> UF_QUERY \<Longrightarrow> uf_get (fd_off (put_query i q u)) g = uf_get (fd_off u) g
     \<and> uf_get (fd_len (put_query i q u)) g = uf_get (fd_len u) g"
  "g \<noteq> UF_PORT \<Longrightarrow> uf_get (fd_off (put_port i ds u)) g = uf_get (fd_off u) g
     \<and> uf_get (fd_len (put_port i ds u)) g = uf_get (fd_len u) g"
  by (simp_all add: put_path_def put_query_def put_port_def)

lemma http_parse_url_parts:
  assumes "wf_parts host ds path query" and "length (url_text host ds path query) < 65536"
  shows "http_parser_parse_url (url_text host ds path query) False u
    = Inr (0, if ds = [] then parts_parsed host ds path query u
        else (parts_parsed host ds path query u)\<lparr>port := word_of_int (strtoul ds)\<rparr>)"
proof -
  let ?url = "url_text host ds path query" and ?st = "server_text host ds"
  let ?u0 = "u\<lparr>port := 0, field_set := {}\<rparr>"
  let ?u1 = "put_query (7 + length ?st + length path) query (put_path (7 + length ?st) path
    (put_field UF_HOST 7 (length ?st) (put_field UF_SCHEMA 0 4 ?u0)))"
  note wf = assms(1) [unfolded wf_parts_def]
  have dr: "drop 7 ?url = ?st @ path @ (if query = [] then [] else CHR ''?'' # query)"
    by (simp add: url_text_def)
  have host: "http_parse_host ?url ?u1 False = Inr (0, parts_parsed host ds path query u)"
    unfolding parts_parsed_def Let_def
    using wf assms(2) dr by (intro http_parse_host_server) (simp_all add: url_text_def)
  have port: "parse_url_port ?url (parts_parsed host ds path query u)
      = (0, if ds = [] then parts_parsed host ds path query u
          else (parts_parsed host ds path query u)\<lparr>port := word_of_int (strtoul ds)\<rparr>)"
  proof (cases "ds = []")
    case True
    then show ?thesis by (simp add: parse_url_port_def parts_parsed_def Let_def)
  next
    case False
    let ?rest = "path @ (if query = [] then [] else CHR ''?'' # query)"
    have "?rest = [] \<or> \<not> IS_NUM (hd ?rest)"
      using wf by (cases path) (auto simp: char_defs)
    then have "strtoul (ds @ ?rest) = strtoul ds" using wf strtoul_stop by blast
    moreover have "Suc (7 + length host) < 65536"
      using assms(2) False by (simp add: url_text_def server_text_def)
    then have "unat (word_of_nat (Suc (7 + length host)) :: 16 word) = Suc (7 + length host)"
      by (rule unat_of_nat16)
    moreover have "drop (Suc (7 + length host)) ?url = ds @ ?rest"
      using False drop_url_text [of "Suc (length host)" host ds path query] by (simp add: server_text_def)
    ultimately show ?thesis
      using False wf by (simp add: parse_url_port_def parts_parsed_def Let_def put_port_def)
  qed
  show ?thesis
    using url_loop_parts [OF assms(1), of ?u0] host port
    by (simp add: http_parser_parse_url_def Let_def)
qed

lemma parse_url_fields:
  assumes "wf_parts host ds path query" and "length (url_text host ds path query) < 65536"
  shows "\<exists>u'. http_parser_parse_url (url_text host ds path query) False u = Inr (0, u')
    \<and> field_set u' = {UF_SCHEMA, UF_HOST} \<union> (if ds = [] then {} else {UF_PORT})
        \<union> (if path = [] then {} else {UF_PATH}) \<union> (if query = [] then {} else {UF_QUERY})
    \<and> url_field (url_text host ds path query) u' UF_SCHEMA = ''http''
    \<and> url_field (url_text host ds path query) u' UF_HOST = host
    \<and> (ds \<noteq> [] \<longrightarrow> url_field (url_text host ds path query) u' UF_PORT = ds \<and> uint (port u') = strtoul ds)
    \<and> (path \<noteq> [] \<longrightarrow> url_field (url_text host ds path query) u' UF_PATH = path)
    \<and> (query \<noteq> [] \<longrightarrow> url_field (url_text host ds path query) u' UF_QUERY = query)
    \<and> (\<forall>f \<in> field_set u'. unat (uf_get (fd_len u') f) = length (url_field (url_text host ds path query) u' f))"
proof -
  let ?url = "url_text host ds path query" and ?p = "parts_parsed host ds path query u"
  let ?u = "if ds = [] then ?p else ?p\<lparr>port := word_of_int (strtoul ds)\<rparr>"
  have len: "length host < 65536" "length ds < 65536" "length path < 65536" "length query < 65536"
    "7 + length host + length ds < 65536"
    "ds \<noteq> [] \<Longrightarrow> Suc (7 + length host) < 65536"
    "7 + length (server_text host ds) < 65536"
    "query \<noteq> [] \<Longrightarrow> Suc (7 + length (server_text host ds) + length path) < 65536"
    using assms(2) by (auto simp: url_text_def server_text_def split: if_splits)
  have pt: "uint (word_of_int (strtoul ds) :: 16 word) = strtoul ds"
    using assms(1) strtoul_nonneg [of ds] by (simp add: wf_parts_def uint_word_of_int)
  have fs: "field_set ?u = {UF_SCHEMA, UF_HOST} \<union> (if ds = [] then {} else {UF_PORT})
      \<union> (if path = [] then {} else {UF_PATH}) \<union> (if query = [] then {} else {UF_QUERY})"
    by (auto simp: parts_parsed_def Let_def)
  have f1: "url_field ?url ?u UF_SCHEMA = ''http''"
    by (cases "ds = []") (simp_all add: url_field_def parts_parsed_def Let_def url_text_def)
  have f2: "url_field ?url ?u UF_HOST = host"
    using len(1) drop_url_text [of 0 host ds path query]
    by (cases "ds = []") (simp_all add: url_field_def parts_parsed_def Let_def unat_of_nat16 server_text_def)
  have f3: "ds \<noteq> [] \<longrightarrow> url_field ?url ?u UF_PORT = ds"
    using len(2,6) unat_of_nat16 [of "8 + length host"] drop_url_text [of "Suc (length host)" host ds path query]
    by (auto simp: url_field_def parts_parsed_def Let_def put_port_def unat_of_nat16 server_text_def)
  have f4: "path \<noteq> [] \<longrightarrow> url_field ?url ?u UF_PATH = path"
    using len(3,7) unat_of_nat16 [of "7 + length (server_text host ds)"] drop_url_text [of "length (server_text host ds)" host ds path query]
    by (auto simp: url_field_def parts_parsed_def Let_def put_path_def unat_of_nat16)
  have f5: "query \<noteq> [] \<longrightarrow> url_field ?url ?u UF_QUERY = query"
    using len(4,8) unat_of_nat16 [of "8 + length (server_text host ds) + length path"] drop_url_text [of "Suc (length (server_text host ds) + length path)" host ds path query]
    by (auto simp: url_field_def parts_parsed_def Let_def put_query_def unat_of_nat16 add.assoc)
  have n: "unat (uf_get (fd_len ?u) UF_SCHEMA) = 4" "unat (uf_get (fd_len ?u) UF_HOST) = length host"
    "ds \<noteq> [] \<longrightarrow> unat (uf_get (fd_len ?u) UF_PORT) = length ds" "path \<noteq> [] \<longrightarrow> unat (uf_get (fd_len ?u) UF_PATH) = length path"
    "query \<noteq> [] \<longrightarrow> unat (uf_get (fd_len ?u) UF_QUERY) = length query"
    using len by (auto simp: parts_parsed_def Let_def put_port_def put_path_def put_query_def unat_of_nat16)
  have "\<forall>f \<in> field_set ?u. unat (uf_get (fd_len ?u) f) = length (url_field ?url ?u f)"
  proof -
    obtain v where v: "v = ?u" by simp
    note f = f1 [folded v] f2 [folded v] f3 [folded v] f4 [folded v] f5 [folded v] n [folded v]
    show ?thesis unfolding v [symmetric] fs [folded v] using f by (auto split: if_splits)
  qed
  with fs pt f1 f2 f3 f4 f5 show ?thesis
    using http_parse_url_parts [OF assms] by (intro exI [of _ ?u]) simp
qed

text \<open>
  Claim C22.  An absolute URL built from a host, an optional port, an optional path and an optional query is
  parsed without error, whatever the struct held before, into exactly those parts: the fields set are
  those present, the bytes of each field are the part it was built from, and the port is the number its
  digits denote.
\<close>

theorem http_parser_parse_url_parts:
  assumes "wf_parts host ds path query" and "length (url_text host ds path query) < 65536"
  shows "\<exists>u'. http_parser_parse_url (url_text host ds path query) False u = Inr (0, u')
    \<and> field_set u' = {UF_SCHEMA, UF_HOST} \<union> (if ds = [] then {} else {UF_PORT})
        \<union> (if path = [] then {} else {UF_PATH}) \<union> (if query = [] then {} else {UF_QUERY})
    \<and> url_field (url_text host ds path query) u' UF_HOST = host
    \<and> (ds \<noteq> [] \<longrightarrow> url_field (url_text host ds path query) u' UF_PORT = ds \<and> uint (port u') = strtoul ds)
    \<and> (path \<noteq> [] \<longrightarrow> url_field (url_text host ds path query) u' UF_PATH = path)
    \<and> (query \<noteq> [] \<longrightarrow> url_field (url_text host ds path query) u' UF_QUERY = query)"
  using parse_url_fields [OF assms, of u] by blast

theorem http_parser_parse_url_parts_witness:
  "\<exists>u'. http_parser_parse_url ''http://a.b:8080/x?y=1'' False url_zero = Inr (0, u')
    \<and> url_field ''http://a.b:8080/x?y=1'' u' UF_HOST = ''a.b'' \<and> uint (port u') = 8080
    \<and> url_field ''http://a.b:8080/x?y=1'' u' UF_QUERY = ''y=1''"
proof -
  have "wf_parts ''a.b'' ''8080'' ''/x'' ''y=1''" and "strtoul ''8080'' = 8080" by code_simp+
  moreover have "url_text ''a.b'' ''8080'' ''/x'' ''y=1'' = ''http://a.b:8080/x?y=1''" by code_simp
  ultimately show ?thesis
    using http_parser_parse_url_parts [of "''a.b''" "''8080''" "''/x''" "''y=1''" url_zero] by auto
qed

end
