(* ===== verification/Header.thy ===== *)
theory Header
  imports Util Http_Url_Parts "HOL-Library.Multiset"
begin

text \<open>
  The message headers of \<^verbatim>\<open>header.c\<close>.  A header owns two fixed arrays (\<^verbatim>\<open>method[10]\<close>, \<^verbatim>\<open>version[4]\<close>), a URL, a
  field and a value under construction, and a list of finished pairs.  C strings on the heap are their
  contents (\<open>None\<close> is the null pointer); the arrays are byte lists of their size, because \<^verbatim>\<open>strncpy\<close> can
  leave them without a terminator.
\<close>

section \<open>The structure\<close>

record header =
  hd_method :: "char list"
  hd_version :: "char list"
  hd_url :: "string option"
  hd_last_field :: "string option"
  hd_last_value :: "string option"
  hd_is_last_value :: bool
  hd_list_headers :: "(string \<times> string) list"
  hd_headers :: "string list option"
  hd_header_changed :: bool
  hd_status_code :: int
  hd_field_count :: int
  hd_is_upgrade :: bool

definition header_new :: header where
  "header_new =
     \<lparr>hd_method = replicate 10 NUL, hd_version = replicate 4 NUL, hd_url = None, hd_last_field = None,
      hd_last_value = None, hd_is_last_value = False, hd_list_headers = [], hd_headers = None,
      hd_header_changed = False, hd_status_code = 0, hd_field_count = 0,
      hd_is_upgrade = False\<rparr>"

text \<open>The string an array holds, for a function that reads it up to the terminator.\<close>

definition cstr_at :: "char list \<Rightarrow> string res" where
  "cstr_at buf = (if NUL \<in> set buf then Inr (c_str buf) else Inl Out_Of_Bounds)"

definition deref :: "'a option \<Rightarrow> 'a res" where
  "deref p = (case p of None \<Rightarrow> Inl Bad_Pointer | Some x \<Rightarrow> Inr x)"

section \<open>Accessors\<close>

definition header_method :: "header \<Rightarrow> char list" where
  "header_method h = hd_method h"

definition header_url :: "header \<Rightarrow> string option" where
  "header_url h = hd_url h"

definition header_status_code :: "header \<Rightarrow> int" where
  "header_status_code h = hd_status_code h"

definition headr_version :: "header \<Rightarrow> char list" where
  "headr_version h = hd_version h"

fun value_in :: "(string \<times> string) list \<Rightarrow> string \<Rightarrow> string option" where
  "value_in [] f = None"
| "value_in ((g, v) # ps) f = (if strcaseeq g f then Some v else value_in ps f)"

definition header_value :: "header \<Rightarrow> string \<Rightarrow> string option" where
  "header_value h f = value_in (hd_list_headers h) f"

text \<open>
  \<^verbatim>\<open>header_fields\<close> allocates \<^verbatim>\<open>field_count * 2 + 1\<close> bytes and stores two pointers of eight bytes for every
  pair of the list.
\<close>

definition header_fields :: "header \<Rightarrow> (string list \<times> header) res" where
  "header_fields h =
     (let ptrs = concat (map (\<lambda>(f, v). [f, v]) (hd_list_headers h))
      in if 8 * int (length ptrs) \<le> hd_field_count h * 2 + 1
         then Inr (ptrs, h\<lparr>hd_header_changed := False, hd_headers := Some ptrs\<rparr>)
         else Inl Out_Of_Bounds)"

section \<open>Setters\<close>

definition headr_set_version :: "header \<Rightarrow> string \<Rightarrow> header res" where
  "headr_set_version h s = rbind (strncpy (hd_version h) s 4) (\<lambda>b. Inr (h\<lparr>hd_version := b\<rparr>))"

definition header_set_status_code :: "header \<Rightarrow> int \<Rightarrow> header" where
  "header_set_status_code h code = h\<lparr>hd_status_code := code\<rparr>"

definition header_set_method :: "header \<Rightarrow> string \<Rightarrow> header res" where
  "header_set_method h s = rbind (strncpy (hd_method h) s 10) (\<lambda>b. Inr (h\<lparr>hd_method := b\<rparr>))"

text \<open>\<^verbatim>\<open>strndup(data, len)\<close> copies up to \<open>len\<close> bytes and stops at a NUL; \<open>d\<close> is the block of \<open>len\<close> bytes.\<close>

definition header_set_url :: "header \<Rightarrow> char list \<Rightarrow> header" where
  "header_set_url h d = h\<lparr>hd_url := Some (c_str d)\<rparr>"

definition header_add_pair :: "header \<Rightarrow> string \<Rightarrow> string \<Rightarrow> header" where
  "header_add_pair h f v =
     h\<lparr>hd_field_count := hd_field_count h + 1, hd_list_headers := hd_list_headers h @ [(f, v)]\<rparr>"

section \<open>Building a header from the parser's callbacks\<close>

definition header_append_complete :: "header \<Rightarrow> header res" where
  "header_append_complete h =
     (if \<not> hd_is_last_value h then Inr h
      else rbind (cassert (hd_last_field h \<noteq> None)) (\<lambda>_.
           rbind (cassert (hd_last_value h \<noteq> None)) (\<lambda>_.
           Inr (h\<lparr>hd_last_field := None, hd_last_value := None, hd_is_last_value := False,
                  hd_list_headers := hd_list_headers h
                    @ [(the (hd_last_field h), the (hd_last_value h))]\<rparr>))))"

text \<open>
  The reallocation both append functions do: a zeroed block of \<^verbatim>\<open>strlen(old) + len + 1\<close> bytes, the old
  string copied with \<^verbatim>\<open>strncpy\<close>, the piece with \<^verbatim>\<open>memcpy\<close> behind it.  With no old string the piece is
  duplicated.
\<close>

definition append_piece :: "string option \<Rightarrow> char list \<Rightarrow> string res" where
  "append_piece prev d =
     (case prev of
        None \<Rightarrow> Inr (c_str d)
      | Some old \<Rightarrow>
          (let new_len = length old + length d
           in rbind (strncpy (replicate (new_len + 1) NUL) old new_len) (\<lambda>b.
              rbind (memcpy_at b (length old) d) (\<lambda>b'. Inr (c_str b')))))"

definition header_append_field :: "header \<Rightarrow> char list \<Rightarrow> header res" where
  "header_append_field h d =
     rbind (if hd_is_last_value h then header_append_complete h else Inr h) (\<lambda>h1.
     rbind (append_piece (hd_last_field h1) d) (\<lambda>s.
     Inr (h1\<lparr>hd_last_field := Some s, hd_is_last_value := False\<rparr>)))"

definition header_append_value :: "header \<Rightarrow> char list \<Rightarrow> header res" where
  "header_append_value h d =
     rbind (append_piece (hd_last_value h) d) (\<lambda>s.
     Inr (h\<lparr>hd_last_value := Some s, hd_is_last_value := True\<rparr>))"

section \<open>Printing, freeing, and the target of a request\<close>

fun append_lines :: "char list \<Rightarrow> nat \<Rightarrow> string list \<Rightarrow> char list res" where
  "append_lines buf len [] = Inr buf"
| "append_lines buf len (l # ls) = rbind (append_format buf len l) (\<lambda>b. append_lines b len ls)"

definition header_line :: "string \<times> string \<Rightarrow> string" where
  "header_line p = fst p @ '': '' @ snd p @ CRLF"

definition header_to_str :: "header \<Rightarrow> char list \<Rightarrow> nat \<Rightarrow> char list res" where
  "header_to_str h buf len =
     rbind (memcpy_at buf 0 (replicate len NUL)) (\<lambda>b.
     rbind (deref (hd_url h)) (\<lambda>url.
     rbind (append_format b len (''GET '' @ url @ '' HTTP/1.1'' @ CRLF)) (\<lambda>b1.
     append_lines b1 len (map header_line (hd_list_headers h)))))"

text \<open>
  The heap strings a header owns, and those \<^verbatim>\<open>header_free\<close> releases besides the structure itself and the
  nodes of the list.
\<close>

definition header_strings :: "header \<Rightarrow> string list" where
  "header_strings h = (case hd_url h of None \<Rightarrow> [] | Some u \<Rightarrow> [u])
     @ (case hd_last_field h of None \<Rightarrow> [] | Some u \<Rightarrow> [u])
     @ (case hd_last_value h of None \<Rightarrow> [] | Some u \<Rightarrow> [u])
     @ concat (map (\<lambda>(f, v). [v, f]) (hd_list_headers h))"

definition header_free :: "header \<Rightarrow> string list" where
  "header_free h = (case hd_url h of None \<Rightarrow> [] | Some u \<Rightarrow> [u])
     @ concat (map (\<lambda>(f, v). [v, f]) (hd_list_headers h))"

text \<open>
  Both functions parse the URL into a struct on the stack that nothing has initialised: its content is
  the argument \<open>u\<close>.  The result of the parser is ignored.
\<close>

definition header_parse_url :: "header \<Rightarrow> http_parser_url \<Rightarrow> (string \<times> http_parser_url) res" where
  "header_parse_url h u =
     rbind (deref (hd_url h)) (\<lambda>url.
     rbind (cstr_at (hd_method h)) (\<lambda>mth.
     rbind (http_parser_parse_url url (strcaseeq mth ''connect'') u) (\<lambda>(rc, u'). Inr (url, u'))))"

definition header_get_host :: "header \<Rightarrow> http_parser_url \<Rightarrow> char list \<Rightarrow> char list res" where
  "header_get_host h u host =
     rbind (header_parse_url h u) (\<lambda>(url, u').
     if UF_HOST \<in> field_set u'
     then strncpy host (drop (unat (uf_get (fd_off u') UF_HOST)) url) (unat (uf_get (fd_len u') UF_HOST))
     else Inr host)"

definition header_get_host_port :: "header \<Rightarrow> http_parser_url \<Rightarrow> int res" where
  "header_get_host_port h u =
     rbind (header_parse_url h u) (\<lambda>(url, u').
     Inr (if UF_PORT \<in> field_set u' then uint (port u') else 80))"

section \<open>The contract of a header table\<close>

text \<open>
  What the relays and the client rely on when they look fields up and add them: names compare without
  case, the first pair of a name wins, and adding a pair never hides another.
\<close>

locale header_table =
  fixes lookup :: "'h \<Rightarrow> string \<Rightarrow> string option"
    and add :: "'h \<Rightarrow> string \<Rightarrow> string \<Rightarrow> 'h"
  assumes lookup_add: "lookup (add h f v) g =
    (case lookup h g of Some w \<Rightarrow> Some w | None \<Rightarrow> if strcaseeq f g then Some v else None)"
begin

lemma add_keeps: "lookup h g = Some w \<Longrightarrow> lookup (add h f v) g = Some w"
  by (simp add: lookup_add)

lemma add_other: "\<not> strcaseeq f g \<Longrightarrow> lookup (add h f v) g = lookup h g"
  by (simp add: lookup_add split: option.split)

lemma add_new: "lookup h g = None \<Longrightarrow> strcaseeq f g \<Longrightarrow> lookup (add h f v) g = Some v"
  by (simp add: lookup_add)

text \<open>Adding a field only when it is missing makes it present and changes no other field.\<close>

lemma add_missing:
  assumes "h' = (if lookup h f = None then add h f v else h)"
  shows "lookup h' f = (case lookup h f of None \<Rightarrow> Some v | Some w \<Rightarrow> Some w)"
    and "\<not> strcaseeq f g \<Longrightarrow> lookup h' g = lookup h g"
  using assms by (simp_all add: lookup_add split: option.split)

end

lemma value_in_append:
  "value_in (ps @ qs) f = (case value_in ps f of Some v \<Rightarrow> Some v | None \<Rightarrow> value_in qs f)"
  by (induction ps) auto

interpretation headers: header_table header_value header_add_pair
  by unfold_locales (simp add: header_value_def header_add_pair_def value_in_append split: option.split)

section \<open>Assembling pairs from pieces\<close>

lemma c_str_snoc_NUL: "c_str (s @ [NUL]) = c_str s"
  unfolding c_str_def by (induction s) auto

lemma append_piece_Some: "append_piece (Some old) d = Inr (c_str (old @ d))"
proof -
  have "strncpy (replicate (Suc (length old + length d)) NUL) old (length old + length d)
      = Inr (old @ replicate (length d) NUL @ [NUL])"
    by (simp add: strncpy_def memcpy_at_def take_replicate replicate_append_same [symmetric])
  moreover have "c_str (old @ d @ [NUL]) = c_str (old @ d)"
    using c_str_snoc_NUL [of "old @ d"] by simp
  ultimately show ?thesis
    by (simp add: append_piece_def Let_def memcpy_at_def)
qed

text \<open>A header in which a value under construction has a name.\<close>

definition header_ok :: "header \<Rightarrow> bool" where
  "header_ok h \<longleftrightarrow> (hd_is_last_value h \<longrightarrow> hd_last_field h \<noteq> None \<and> hd_last_value h \<noteq> None)"

lemma header_new_ok: "header_ok header_new"
  by (simp add: header_ok_def header_new_def)

lemma append_piece_returns: "\<exists>s. append_piece prev d = Inr s"
  by (cases prev) (simp_all add: append_piece_Some append_piece_def [of None])

lemma header_append_complete_ok: "header_ok h \<Longrightarrow> \<exists>h'. header_append_complete h = Inr h' \<and> header_ok h' \<and> \<not> hd_is_last_value h'"
  by (auto simp: header_ok_def header_append_complete_def)

lemma header_append_field_ok:
  assumes "header_ok h"
  shows "\<exists>h'. header_append_field h d = Inr h' \<and> header_ok h' \<and> hd_last_field h' \<noteq> None"
proof -
  obtain h1 where "(if hd_is_last_value h then header_append_complete h else Inr h) = Inr h1"
    using header_append_complete_ok [OF assms] by (cases "hd_is_last_value h") auto
  then show ?thesis
    using append_piece_returns [of "hd_last_field h1" d] by (auto simp: header_append_field_def header_ok_def)
qed

lemma header_append_value_ok:
  assumes "header_ok h" and "hd_last_field h \<noteq> None"
  shows "\<exists>h'. header_append_value h d = Inr h' \<and> header_ok h' \<and> hd_last_field h' \<noteq> None"
  using append_piece_returns [of "hd_last_value h" d] assms by (auto simp: header_append_value_def header_ok_def)

lemma append_piece_ok:
  "no_nul d \<Longrightarrow> append_piece None d = Inr d"
  "no_nul old \<Longrightarrow> no_nul d \<Longrightarrow> append_piece (Some old) d = Inr (old @ d)"
  by (simp_all add: append_piece_Some c_str_idem append_piece_def [of None])

text \<open>
  The header callbacks of the parser, as the sources forward them: \<open>Inl\<close> a piece of a field name to
  \<^verbatim>\<open>header_append_field\<close>, \<open>Inr\<close> a piece of a value to \<^verbatim>\<open>header_append_value\<close>.
\<close>

fun header_feed :: "header \<Rightarrow> (char list + char list) list \<Rightarrow> header res" where
  "header_feed h [] = Inr h"
| "header_feed h (Inl d # ps) = rbind (header_append_field h d) (\<lambda>h1. header_feed h1 ps)"
| "header_feed h (Inr d # ps) = rbind (header_append_value h d) (\<lambda>h1. header_feed h1 ps)"

lemma header_feed_append:
  "header_feed h (ps @ qs) = rbind (header_feed h ps) (\<lambda>h1. header_feed h1 qs)"
  by (induction h ps rule: header_feed.induct) (auto simp: rbind_assoc intro: rbind_cong)

text \<open>
  Between two header lines the header holds either nothing under construction or one finished pair that
  has not been moved to the list yet; \<open>pairs\<close> counts it in.
\<close>

definition settled :: "header \<Rightarrow> bool" where
  "settled h \<longleftrightarrow> (if hd_is_last_value h then hd_last_field h \<noteq> None \<and> hd_last_value h \<noteq> None
     else hd_last_field h = None \<and> hd_last_value h = None)"

definition pairs :: "header \<Rightarrow> (string \<times> string) list" where
  "pairs h = hd_list_headers h
     @ (if hd_is_last_value h then [(the (hd_last_field h), the (hd_last_value h))] else [])"

definition same_rest :: "header \<Rightarrow> header \<Rightarrow> bool" where
  "same_rest h h' \<longleftrightarrow> hd_method h' = hd_method h \<and> hd_url h' = hd_url h \<and> hd_status_code h' = hd_status_code h
     \<and> hd_field_count h' = hd_field_count h"

lemma header_append_complete_settled:
  "settled h \<Longrightarrow> \<exists>h'. header_append_complete h = Inr h' \<and> hd_list_headers h' = pairs h
     \<and> \<not> hd_is_last_value h' \<and> hd_last_field h' = None \<and> hd_last_value h' = None \<and> same_rest h h'"
  by (auto simp: header_append_complete_def settled_def pairs_def same_rest_def)

lemma feed_more_fields:
  assumes "\<not> hd_is_last_value h" and "hd_last_field h = Some f" and "no_nul f" and "\<forall>d \<in> set fs. no_nul d"
  shows "header_feed h (map Inl fs) = Inr (h\<lparr>hd_last_field := Some (f @ concat fs)\<rparr>)"
  using assms
proof (induction fs arbitrary: h f)
  case Nil
  then show ?case by simp
next
  case (Cons d fs)
  then have "header_append_field h d = Inr (h\<lparr>hd_last_field := Some (f @ d)\<rparr>)"
    by (simp add: header_append_field_def append_piece_ok)
  moreover have "header_feed (h\<lparr>hd_last_field := Some (f @ d)\<rparr>) (map Inl fs)
      = Inr (h\<lparr>hd_last_field := Some ((f @ d) @ concat fs)\<rparr>)"
    using Cons.prems by (subst Cons.IH [where f = "f @ d"]) simp_all
  ultimately show ?case by simp
qed

lemma feed_more_values:
  assumes "hd_is_last_value h" and "hd_last_value h = Some v" and "no_nul v" and "\<forall>d \<in> set vs. no_nul d"
  shows "header_feed h (map Inr vs) = Inr (h\<lparr>hd_last_value := Some (v @ concat vs)\<rparr>)"
  using assms
proof (induction vs arbitrary: h v)
  case Nil
  then show ?case by simp
next
  case (Cons d vs)
  then have "header_append_value h d = Inr (h\<lparr>hd_last_value := Some (v @ d)\<rparr>)"
    by (simp add: header_append_value_def append_piece_ok)
  moreover have "header_feed (h\<lparr>hd_last_value := Some (v @ d)\<rparr>) (map Inr vs)
      = Inr (h\<lparr>hd_last_value := Some ((v @ d) @ concat vs)\<rparr>)"
    using Cons.prems by (subst Cons.IH [where v = "v @ d"]) simp_all
  ultimately show ?case by simp
qed

definition wf_pieces :: "char list list \<times> char list list \<Rightarrow> bool" where
  "wf_pieces p \<longleftrightarrow> fst p \<noteq> [] \<and> snd p \<noteq> [] \<and> (\<forall>d \<in> set (fst p) \<union> set (snd p). no_nul d)"

definition line_pieces :: "char list list \<times> char list list \<Rightarrow> (char list + char list) list" where
  "line_pieces p = map Inl (fst p) @ map Inr (snd p)"

definition line_pair :: "char list list \<times> char list list \<Rightarrow> string \<times> string" where
  "line_pair p = (concat (fst p), concat (snd p))"

lemma feed_line:
  assumes "settled h" and "wf_pieces p"
  shows "\<exists>h'. header_feed h (line_pieces p) = Inr h' \<and> settled h' \<and> pairs h' = pairs h @ [line_pair p]
    \<and> same_rest h h'"
proof -
  obtain f fs v vs where p: "p = (f # fs, v # vs)"
    using assms(2) by (cases p; cases "fst p"; cases "snd p") (auto simp: wf_pieces_def)
  note nn = assms(2) [unfolded wf_pieces_def p, simplified]
  obtain h1 where h1: "(if hd_is_last_value h then header_append_complete h else Inr h) = Inr h1"
    "hd_list_headers h1 = pairs h" "hd_last_field h1 = None" "hd_last_value h1 = None" "same_rest h h1"
    "\<not> hd_is_last_value h1"
    using header_append_complete_settled [OF assms(1)] assms(1)
    by (cases "hd_is_last_value h") (auto simp: settled_def pairs_def same_rest_def)
  define h2 where "h2 = h1\<lparr>hd_last_field := Some f, hd_is_last_value := False\<rparr>"
  define h3 where "h3 = h2\<lparr>hd_last_field := Some (f @ concat fs)\<rparr>"
  define h4 where "h4 = h3\<lparr>hd_last_value := Some v, hd_is_last_value := True\<rparr>"
  have "header_append_field h f = Inr h2"
    using h1 nn by (simp add: header_append_field_def append_piece_ok h2_def)
  moreover have "header_feed h2 (map Inl fs) = Inr h3"
    unfolding h3_def using nn by (intro feed_more_fields) (simp_all add: h2_def)
  moreover have "header_append_value h3 v = Inr h4"
    using h1(4) nn by (simp add: header_append_value_def append_piece_ok h4_def h3_def h2_def)
  moreover have "header_feed h4 (map Inr vs) = Inr (h4\<lparr>hd_last_value := Some (v @ concat vs)\<rparr>)"
    using nn by (intro feed_more_values) (simp_all add: h4_def)
  ultimately show ?thesis
    using h1 p by (simp add: line_pieces_def header_feed_append line_pair_def)
      (simp add: settled_def pairs_def same_rest_def h4_def h3_def h2_def)
qed

lemma feed_lines:
  "settled h \<Longrightarrow> \<forall>p \<in> set ps. wf_pieces p \<Longrightarrow>
     \<exists>h'. header_feed h (concat (map line_pieces ps)) = Inr h' \<and> settled h'
       \<and> pairs h' = pairs h @ map line_pair ps \<and> same_rest h h'"
proof (induction ps arbitrary: h)
  case Nil
  then show ?case by (simp add: same_rest_def)
next
  case (Cons p ps)
  then obtain h1 where h1: "header_feed h (line_pieces p) = Inr h1" "settled h1"
    "pairs h1 = pairs h @ [line_pair p]" "same_rest h h1"
    using feed_line [of h p] by auto
  with Cons.IH [of h1] Cons.prems show ?case
    by (auto simp: header_feed_append same_rest_def)
qed



section \<open>Printing\<close>

definition printable :: "string \<Rightarrow> bool" where
  "printable l \<longleftrightarrow> no_nul l \<and> int (length l) \<le> 81919"

lemma append_lines_fits:
  assumes "NUL \<in> set buf" and "list_all printable ls" and "length (c_str buf) + length (concat ls) < length buf"
  shows "\<exists>b. append_lines buf (length buf) ls = Inr b \<and> c_str b = c_str buf @ concat ls
    \<and> length b = length buf \<and> NUL \<in> set b"
  using assms
proof (induction ls arbitrary: buf)
  case Nil
  then show ?case by simp
next
  case (Cons l ls)
  then obtain b where b: "append_format buf (length buf) l = Inr b" "c_str b = c_str buf @ l"
    "length b = length buf" "NUL \<in> set b"
    using append_format_fits [of l buf "length buf"] by (auto simp: printable_def)
  with Cons.IH [of b] Cons.prems show ?case by auto
qed

lemma append_lines_overflows:
  assumes "NUL \<in> set buf" and "list_all printable ls" and "length buf \<le> length (c_str buf) + length (concat ls)"
  shows "append_lines buf (length buf) ls = Inl Out_Of_Bounds"
  using assms
proof (induction ls arbitrary: buf)
  case Nil
  then show ?case using c_str_length_less [of buf] by simp
next
  case (Cons l ls)
  show ?case
  proof (cases "length (c_str buf) + length l < length buf")
    case True
    then obtain b where b: "append_format buf (length buf) l = Inr b" "c_str b = c_str buf @ l"
      "length b = length buf" "NUL \<in> set b"
      using append_format_fits [of l buf "length buf"] Cons.prems by (auto simp: printable_def)
    with Cons.IH [of b] Cons.prems show ?thesis by simp
  next
    case False
    with append_format_overflows [of l buf] Cons.prems show ?thesis by (simp add: printable_def)
  qed
qed

lemma c_str_replicate_NUL [simp]: "c_str (replicate n NUL) = []"
  by (cases n) (simp_all add: c_str_def)

definition header_text :: "header \<Rightarrow> string \<Rightarrow> string list" where
  "header_text h url = (''GET '' @ url @ '' HTTP/1.1'' @ CRLF) # map header_line (hd_list_headers h)"

lemma header_to_str_lines:
  "hd_url h = Some url \<Longrightarrow>
     header_to_str h buf (length buf) = append_lines (replicate (length buf) NUL) (length buf) (header_text h url)"
  by (simp add: header_to_str_def memcpy_at_def deref_def header_text_def)

text \<open>
  \<^verbatim>\<open>header_to_str\<close> prints the request line and one line per pair, in order, when the text and its
  terminator fit the buffer, and writes past the end of the buffer when they do not.
\<close>

lemma header_to_str_exact:
  assumes "hd_url h = Some url" and "list_all printable (header_text h url)" and "buf \<noteq> []"
  shows "if length (concat (header_text h url)) < length buf
    then \<exists>b. header_to_str h buf (length buf) = Inr b \<and> c_str b = concat (header_text h url)
    else header_to_str h buf (length buf) = Inl Out_Of_Bounds"
  using append_lines_fits [of "replicate (length buf) NUL"] append_lines_overflows [of "replicate (length buf) NUL"]
    header_to_str_lines [OF assms(1), of buf] assms(2,3)
  by fastforce

section \<open>The target of a request\<close>

text \<open>
  For a request whose URL names its host, \<^verbatim>\<open>header_get_host\<close> fills a zeroed array of \<open>n\<close> bytes with
  the host as a string when the host has fewer than \<open>n\<close> characters; with exactly \<open>n\<close> the array has no
  terminator, with more the copy runs over its end: the bound the caller passes is not used.
\<close>

lemma header_get_host_bounds:
  assumes "hd_url h = Some (url_text host ds path query)" and "wf_parts host ds path query"
    and "length (url_text host ds path query) < 65536" and "no_nul host"
    and "cstr_at (hd_method h) = Inr mth" and "\<not> strcaseeq mth ''connect''"
  shows "if length host < n
    then \<exists>b. header_get_host h u (replicate n NUL) = Inr b \<and> c_str b = host \<and> NUL \<in> set b
    else header_get_host h u (replicate n NUL) = (if length host = n then Inr host else Inl Out_Of_Bounds)"
proof -
  let ?url = "url_text host ds path query"
  have parse: "header_parse_url h u = Inr (?url, if ds = [] then parts_parsed host ds path query u
        else (parts_parsed host ds path query u)\<lparr>port := word_of_int (strtoul ds)\<rparr>)"
    using http_parse_url_parts [OF assms(2,3), of u] assms(1,5,6)
    by (simp add: header_parse_url_def deref_def)
  have "length host < 65536" using assms(3) by (simp add: url_text_def server_text_def)
  then have len: "unat (word_of_nat (length host) :: 16 word) = length host" by (rule unat_of_nat16)
  have eq: "header_get_host h u (replicate n NUL) = strncpy (replicate n NUL) (drop 7 ?url) (length host)"
    using parse len by (auto simp: header_get_host_def parts_parsed_def Let_def)
  have "take (length host) (drop 7 ?url @ replicate (length host) NUL) = host"
    using drop_url_text [of 0 host ds path query] by (simp add: server_text_def)
  then have copy: "strncpy (replicate n NUL) (drop 7 ?url) (length host)
      = (if length host \<le> n then Inr (host @ replicate (n - length host) NUL) else Inl Out_Of_Bounds)"
    by (simp add: strncpy_def memcpy_at_def)
  show ?thesis
  proof (cases "length host < n")
    case True
    then obtain k where "n - length host = Suc k" by (metis Suc_diff_Suc)
    then show ?thesis using True eq copy assms(4) by (simp add: cstr_simps)
  next
    case False
    then show ?thesis using eq copy by simp
  qed
qed

text \<open>
  The port of a request is the number behind the host in the URL, and 80 when there is none.
\<close>

lemma header_get_host_port_value:
  assumes "hd_url h = Some (url_text host ds path query)" and "wf_parts host ds path query"
    and "length (url_text host ds path query) < 65536"
    and "cstr_at (hd_method h) = Inr mth" and "\<not> strcaseeq mth ''connect''"
  shows "header_get_host_port h u = Inr (if ds = [] then 80 else strtoul ds)"
proof -
  have "uint (word_of_int (strtoul ds) :: 16 word) = strtoul ds"
    using assms(2) strtoul_nonneg [of ds] by (simp add: wf_parts_def uint_word_of_int)
  then show ?thesis
    using http_parse_url_parts [OF assms(2,3), of u] assms(1,4,5)
    by (simp add: header_get_host_port_def header_parse_url_def deref_def parts_parsed_def Let_def)
qed

text \<open>
  Of the 26 methods the parser knows, all but \<^verbatim>\<open>MKACTIVITY\<close> and \<^verbatim>\<open>UNSUBSCRIBE\<close> are stored as a
  terminated string; those two fill the ten bytes of \<^verbatim>\<open>method\<close> and leave it without a terminator, so that
  every later \<^verbatim>\<open>strcasecmp(header->method, ...)\<close> reads past it.
\<close>

lemma header_set_method_terminated:
  "\<exists>h'. header_set_method header_new (http_method_str m) = Inr h'
     \<and> (if m \<in> {HTTP_MKACTIVITY, HTTP_UNSUBSCRIBE} then cstr_at (hd_method h') = Inl Out_Of_Bounds
        else cstr_at (hd_method h') = Inr (http_method_str m))"
  by (cases m) (simp_all add: header_set_method_def header_new_def strncpy_def memcpy_at_def cstr_at_def c_str_def
      http_method_str_def method_strings_def eval_nat_numeral)

text \<open>\<^verbatim>\<open>header_free\<close> releases everything but a name or value still under construction.\<close>

lemma header_free_leaks:
  "settled h \<Longrightarrow> mset (header_strings h) = mset (header_free h) \<longleftrightarrow> \<not> hd_is_last_value h"
  by (auto simp: header_strings_def header_free_def settled_def split: option.split if_splits)

text \<open>\<^verbatim>\<open>header_fields\<close> never has room: one pair needs 16 bytes and gets three.\<close>

lemma header_fields_overflows:
  "hd_list_headers h \<noteq> [] \<Longrightarrow> hd_field_count h \<le> int (length (hd_list_headers h)) \<Longrightarrow>
     header_fields h = Inl Out_Of_Bounds"
proof -
  assume a: "hd_list_headers h \<noteq> []" "hd_field_count h \<le> int (length (hd_list_headers h))"
  have "length (concat (map (\<lambda>(f, v). [f, v]) ps)) = 2 * length ps" for ps :: "(string \<times> string) list"
    by (induction ps) auto
  moreover have "\<not> 16 * int (length (hd_list_headers h)) \<le> hd_field_count h * 2 + 1"
    using a by (cases "hd_list_headers h") auto
  ultimately show ?thesis by (simp add: header_fields_def Let_def)
qed

end
