(* ===== verification/Ep.thy ===== *)
theory Ep
  imports Prelude
begin

text \<open>
  The event loop of \<^verbatim>\<open>ep.c\<close> over the epoll wrapper \<^verbatim>\<open>ep_poll_epoll.c\<close>.  The base, its files, timers and
  timer infos live in one state: three heaps from addresses to structures, the table of 1024 descriptors,
  the intrusive list of pending timer infos as the list of their addresses, the interest set the kernel
  keeps for the epoll descriptor, and the clock, which the environment advances.  Callbacks are parameters: a
  structure stores the callback and its argument as one value, and \<open>ep_handlers\<close> says what calling it does
  to the state, which a user of the loop extends by fields of its own.
\<close>

section \<open>Constants and integer widths\<close>

definition EP_READ :: int where [simp]: "EP_READ = 1"
definition EP_WRITE :: int where [simp]: "EP_WRITE = 2"
definition EP_TIMEOUT :: int where [simp]: "EP_TIMEOUT = 4"
definition EP_ERROR :: int where [simp]: "EP_ERROR = 8"

definition EPOLLIN :: int where [simp]: "EPOLLIN = 1"
definition EPOLLOUT :: int where [simp]: "EPOLLOUT = 4"
definition EPOLLERR :: int where [simp]: "EPOLLERR = 8"
definition EPOLLHUP :: int where [simp]: "EPOLLHUP = 16"

definition INIT_POOL_SIZE :: int where [simp]: "INIT_POOL_SIZE = 1024"

text \<open>The value an \<^verbatim>\<open>int\<close> keeps of a wider one.\<close>

definition int32 :: "int \<Rightarrow> int" where
  "int32 x = signed_take_bit 31 x"

section \<open>The state\<close>

record 'c ep_file =
  ef_fd :: int
  ef_cb :: 'c
  ef_timer_info :: "nat option"
  ef_timeout :: int

record ep_fd_info =
  fi_mask :: int
  fi_file :: "nat option"

datatype ep_timer_kind = EP_TIMER_FD | EP_TIMER_TIMER

record 'c ep_timer =
  et_info :: "nat option"
  et_cb :: 'c
  et_pending :: bool

record ep_timer_info =
  ti_type :: ep_timer_kind
  ti_info :: nat
  ti_timeout_ms :: int
  ti_pending :: bool

record 'c ep_base =
  b_files :: "ep_fd_info list"
  b_list_timers :: "nat list"
  b_poll :: "int \<rightharpoonup> int"
  b_cur_poll_size :: int
  b_fd_count :: int
  b_is_stop :: bool
  b_now :: int
  b_next :: nat
  h_file :: "nat \<rightharpoonup> 'c ep_file"
  h_timer :: "nat \<rightharpoonup> 'c ep_timer"
  h_info :: "nat \<rightharpoonup> ep_timer_info"

record ('c, 'b) ep_handlers =
  on_file :: "'c \<Rightarrow> nat \<Rightarrow> int \<Rightarrow> int \<Rightarrow> 'b \<Rightarrow> 'b res"
  on_timer :: "'c \<Rightarrow> nat \<Rightarrow> 'b \<Rightarrow> 'b res"

type_synonym ('c, 'z) base = "('c, 'z) ep_base_scheme"

text \<open>A dereference, and an access to the descriptor table.\<close>

definition look :: "('a \<rightharpoonup> 'b) \<Rightarrow> 'a \<Rightarrow> 'b res" where
  "look h p = (case h p of None \<Rightarrow> Inl Bad_Pointer | Some x \<Rightarrow> Inr x)"

definition fd_slot :: "('c, 'z) base \<Rightarrow> int \<Rightarrow> ep_fd_info res" where
  "fd_slot b fd = (if 0 \<le> fd \<and> fd < int (length (b_files b)) then Inr (b_files b ! nat fd) else Inl Out_Of_Bounds)"

definition set_slot :: "int \<Rightarrow> ep_fd_info \<Rightarrow> ('c, 'z) base \<Rightarrow> ('c, 'z) base" where
  "set_slot fd s b = b\<lparr>b_files := (b_files b)[nat fd := s]\<rparr>"

definition put_info :: "nat \<Rightarrow> ep_timer_info \<Rightarrow> ('c, 'z) base \<Rightarrow> ('c, 'z) base" where
  "put_info p i b = b\<lparr>h_info := (h_info b)(p \<mapsto> i)\<rparr>"

definition put_file :: "nat \<Rightarrow> 'c ep_file \<Rightarrow> ('c, 'z) base \<Rightarrow> ('c, 'z) base" where
  "put_file p f b = b\<lparr>h_file := (h_file b)(p \<mapsto> f)\<rparr>"

definition put_timer :: "nat \<Rightarrow> 'c ep_timer \<Rightarrow> ('c, 'z) base \<Rightarrow> ('c, 'z) base" where
  "put_timer p t b = b\<lparr>h_timer := (h_timer b)(p \<mapsto> t)\<rparr>"

section \<open>The epoll wrapper\<close>

text \<open>
  The results of \<^verbatim>\<open>epoll_ctl\<close> are ignored: adding a descriptor that is registered, or changing one that is
  not, changes nothing.
\<close>

definition poll_events :: "int \<Rightarrow> int" where
  "poll_events what = or (if and what EP_READ \<noteq> 0 then EPOLLIN else 0) (if and what EP_WRITE \<noteq> 0 then EPOLLOUT else 0)"

definition ep_poll_add :: "(int \<rightharpoonup> int) \<Rightarrow> int \<Rightarrow> int \<Rightarrow> (int \<rightharpoonup> int)" where
  "ep_poll_add poll fd what = (if poll fd = None then poll(fd \<mapsto> poll_events what) else poll)"

definition ep_poll_mod :: "(int \<rightharpoonup> int) \<Rightarrow> int \<Rightarrow> int \<Rightarrow> (int \<rightharpoonup> int)" where
  "ep_poll_mod poll fd what = (if poll fd = None then poll else poll(fd \<mapsto> poll_events what))"

definition ep_poll_del :: "(int \<rightharpoonup> int) \<Rightarrow> int \<Rightarrow> (int \<rightharpoonup> int)" where
  "ep_poll_del poll fd = poll(fd := None)"

definition poll_mask :: "int \<Rightarrow> int" where
  "poll_mask ev =
     or (or (if and ev EPOLLIN \<noteq> 0 then EP_READ else 0) (if and ev EPOLLOUT \<noteq> 0 then EP_WRITE else 0))
        (if and ev EPOLLHUP \<noteq> 0 \<or> and ev EPOLLERR \<noteq> 0 then EP_ERROR else 0)"

text \<open>\<open>evs\<close> is what \<^verbatim>\<open>epoll_wait\<close> reports, which is asked for one event at most.\<close>

definition ep_poll_dispatch :: "(int \<times> int) list \<Rightarrow> (int \<times> int) list" where
  "ep_poll_dispatch evs = map (\<lambda>(fd, ev). (fd, poll_mask ev)) (take 1 evs)"

section \<open>Timer infos\<close>

definition get_ms :: "('c, 'z) base \<Rightarrow> int" where
  "get_ms b = int32 (b_now b)"

definition ep_timer_get_next :: "('c, 'z) base \<Rightarrow> int res" where
  "ep_timer_get_next b =
     (case b_list_timers b of
        [] \<Rightarrow> Inr (- 1)
      | p # _ \<Rightarrow> rbind (look (h_info b) p) (\<lambda>tmr. Inr (int32 (ti_timeout_ms tmr - get_ms b))))"

definition ep_timer_info_create :: "nat \<Rightarrow> ep_timer_kind \<Rightarrow> ('c, 'z) base \<Rightarrow> nat \<times> ('c, 'z) base" where
  "ep_timer_info_create args ty b =
     (b_next b, b\<lparr>b_next := Suc (b_next b),
        h_info := (h_info b)(b_next b \<mapsto>
          \<lparr>ti_type = ty, ti_info = args, ti_timeout_ms = 0, ti_pending = False\<rparr>)\<rparr>)"

text \<open>
  The loop that looks for the place of a new entry: the position before the last entry whose timeout, an
  absolute time, exceeds \<open>millsec\<close>, a relative one.  \<open>None\<close> means the tail.
\<close>

fun find_pos_add :: "(nat \<rightharpoonup> ep_timer_info) \<Rightarrow> int \<Rightarrow> nat list \<Rightarrow> nat \<Rightarrow> nat option \<Rightarrow> nat option res" where
  "find_pos_add h millsec [] i acc = Inr acc"
| "find_pos_add h millsec (p # ps) i acc =
     rbind (look h p) (\<lambda>pos.
     find_pos_add h millsec ps (Suc i) (if ti_timeout_ms pos > millsec then Some i else acc))"

definition insert_at :: "nat option \<Rightarrow> 'a \<Rightarrow> 'a list \<Rightarrow> 'a list" where
  "insert_at pos x xs = (case pos of None \<Rightarrow> xs @ [x] | Some i \<Rightarrow> take i xs @ [x] @ drop i xs)"

definition ep_timer_info_add :: "nat \<Rightarrow> int \<Rightarrow> ('c, 'z) base \<Rightarrow> (int \<times> ('c, 'z) base) res" where
  "ep_timer_info_add p millsec b =
     rbind (look (h_info b) p) (\<lambda>info.
     if ti_pending info then Inr (- 1, b)
     else let b1 = put_info p (info\<lparr>ti_pending := True, ti_timeout_ms := int32 (get_ms b + millsec)\<rparr>) b
          in rbind (find_pos_add (h_info b1) millsec (b_list_timers b1) 0 None) (\<lambda>pos_add.
             Inr (0, b1\<lparr>b_list_timers := insert_at pos_add p (b_list_timers b1)\<rparr>)))"

definition ep_timer_info_del :: "nat \<Rightarrow> ('c, 'z) base \<Rightarrow> ('c, 'z) base res" where
  "ep_timer_info_del p b =
     rbind (look (h_info b) p) (\<lambda>info.
     if \<not> ti_pending info then Inr b
     else Inr ((put_info p (info\<lparr>ti_pending := False\<rparr>) b)\<lparr>b_list_timers := remove1 p (b_list_timers b)\<rparr>))"

section \<open>Timers\<close>

definition ep_timer_new :: "'c \<Rightarrow> ('c, 'z) base \<Rightarrow> nat \<times> ('c, 'z) base" where
  "ep_timer_new cb b =
     (b_next b, b\<lparr>b_next := Suc (b_next b),
        h_timer := (h_timer b)(b_next b \<mapsto> \<lparr>et_info = None, et_cb = cb, et_pending = False\<rparr>)\<rparr>)"

definition ep_timer_add :: "nat \<Rightarrow> int \<Rightarrow> ('c, 'z) base \<Rightarrow> ('c, 'z) base res" where
  "ep_timer_add t millsec b =
     rbind (look (h_timer b) t) (\<lambda>timer.
     let (p, b1) = (case et_info timer of Some p \<Rightarrow> (p, b) | None \<Rightarrow> ep_timer_info_create t EP_TIMER_TIMER b);
         b2 = put_timer t (timer\<lparr>et_info := Some p, et_pending := True\<rparr>) b1
     in rbind (ep_timer_info_add p millsec b2) (\<lambda>(rc, b3). Inr b3))"

definition release_info :: "nat option \<Rightarrow> ('c, 'z) base \<Rightarrow> ('c, 'z) base res" where
  "release_info i b =
     (case i of
        None \<Rightarrow> Inr b
      | Some p \<Rightarrow> rbind (ep_timer_info_del p b) (\<lambda>b1. Inr (b1\<lparr>h_info := (h_info b1)(p := None)\<rparr>)))"

definition ep_timer_del :: "nat \<Rightarrow> ('c, 'z) base \<Rightarrow> ('c, 'z) base res" where
  "ep_timer_del t b =
     rbind (look (h_timer b) t) (\<lambda>timer.
     rbind (release_info (et_info timer) b) (\<lambda>b1.
     Inr (put_timer t (timer\<lparr>et_info := None, et_pending := False\<rparr>) b1)))"

definition ep_timer_free :: "nat \<Rightarrow> ('c, 'z) base \<Rightarrow> ('c, 'z) base res" where
  "ep_timer_free t b =
     rbind (look (h_timer b) t) (\<lambda>timer.
     rbind (release_info (et_info timer) b) (\<lambda>b1.
     Inr (b1\<lparr>h_timer := (h_timer b1)(t := None)\<rparr>)))"

definition ep_timer_pending :: "nat \<Rightarrow> ('c, 'z) base \<Rightarrow> bool res" where
  "ep_timer_pending t b = rbind (look (h_timer b) t) (\<lambda>timer. Inr (et_pending timer))"

section \<open>Files\<close>

definition ep_file_get_detect :: "nat \<Rightarrow> ('c, 'z) base \<Rightarrow> int res" where
  "ep_file_get_detect f b =
     rbind (look (h_file b) f) (\<lambda>ep.
     rbind (fd_slot b (ef_fd ep)) (\<lambda>s.
     Inr (if fi_file s = None then - 1 else fi_mask s)))"

definition ep_file_get_timeout :: "nat \<Rightarrow> ('c, 'z) base \<Rightarrow> int res" where
  "ep_file_get_timeout f b =
     rbind (look (h_file b) f) (\<lambda>ep.
     rbind (fd_slot b (ef_fd ep)) (\<lambda>s.
     case fi_file s of
       None \<Rightarrow> Inr (- 1)
     | Some g \<Rightarrow> rbind (look (h_file b) g) (\<lambda>file. Inr (ef_timeout file))))"

definition ep_base_stop :: "('c, 'z) base \<Rightarrow> ('c, 'z) base" where
  "ep_base_stop b = b\<lparr>b_is_stop := True\<rparr>"

definition ep_file_create :: "int \<Rightarrow> 'c \<Rightarrow> ('c, 'z) base \<Rightarrow> (nat \<times> ('c, 'z) base) res" where
  "ep_file_create fd cb b =
     rbind (fd_slot b fd) (\<lambda>s.
     let f = b_next b;
         b1 = put_file f \<lparr>ef_fd = fd, ef_cb = cb, ef_timer_info = None, ef_timeout = - 1\<rparr> (b\<lparr>b_next := Suc f\<rparr>)
     in Inr (f, set_slot fd (s\<lparr>fi_file := Some f\<rparr>) b1))"

text \<open>The part of \<^verbatim>\<open>ep_file_detect\<close> that sets or clears the timeout of the file.\<close>

definition ep_file_set_timer :: "nat \<Rightarrow> int \<Rightarrow> int \<Rightarrow> ('c, 'z) base \<Rightarrow> ('c, 'z) base res" where
  "ep_file_set_timer f what timeout b =
     rbind (look (h_file b) f) (\<lambda>ev.
     let ev1 = ev\<lparr>ef_timeout := timeout\<rparr>; b1 = put_file f ev1 b
     in if timeout \<ge> 0 \<and> what \<noteq> 0
        then let (p, b2) = (case ef_timer_info ev1 of Some p \<Rightarrow> (p, b1)
                            | None \<Rightarrow> ep_timer_info_create f EP_TIMER_FD b1);
                 b3 = put_file f (ev1\<lparr>ef_timer_info := Some p\<rparr>) b2
             in rbind (ep_timer_info_del p b3) (\<lambda>b4.
                rbind (ep_timer_info_add p timeout b4) (\<lambda>(rc, b5). Inr b5))
        else case ef_timer_info ev1 of None \<Rightarrow> Inr b1 | Some p \<Rightarrow> ep_timer_info_del p b1)"

definition ep_file_detect :: "nat \<Rightarrow> int \<Rightarrow> int \<Rightarrow> ('c, 'z) base \<Rightarrow> ('c, 'z) base res" where
  "ep_file_detect f what timeout b =
     rbind (look (h_file b) f) (\<lambda>ev.
     let fd = ef_fd ev
     in rbind (fd_slot b fd) (\<lambda>s.
        if fi_mask s = 0 \<and> what = 0 then Inr b
        else let b1 = (if fi_mask s = 0
                  then set_slot fd \<lparr>fi_mask = what, fi_file = Some f\<rparr>
                         (b\<lparr>b_poll := ep_poll_add (b_poll b) fd what, b_fd_count := b_fd_count b + 1\<rparr>)
                  else if what = 0
                  then set_slot fd \<lparr>fi_mask = 0, fi_file = None\<rparr>
                         (b\<lparr>b_poll := ep_poll_del (b_poll b) fd, b_fd_count := b_fd_count b - 1\<rparr>)
                  else set_slot fd (s\<lparr>fi_mask := what\<rparr>) (b\<lparr>b_poll := ep_poll_mod (b_poll b) fd what\<rparr>))
             in ep_file_set_timer f what timeout b1))"

definition ep_file_free :: "nat \<Rightarrow> ('c, 'z) base \<Rightarrow> ('c, 'z) base res" where
  "ep_file_free f b =
     rbind (look (h_file b) f) (\<lambda>ep.
     rbind (release_info (ef_timer_info ep) b) (\<lambda>b1.
     rbind (ep_file_detect f 0 (- 1) (put_file f (ep\<lparr>ef_timer_info := None\<rparr>) b1)) (\<lambda>b2.
     Inr (b2\<lparr>h_file := (h_file b2)(f := None)\<rparr>))))"

section \<open>The loop\<close>

definition ep_base_create :: "int \<Rightarrow> 'c ep_base" where
  "ep_base_create now =
     \<lparr>b_files = replicate (nat INIT_POOL_SIZE) \<lparr>fi_mask = 0, fi_file = None\<rparr>, b_list_timers = [],
      b_poll = Map.empty, b_cur_poll_size = INIT_POOL_SIZE, b_fd_count = 0, b_is_stop = False,
      b_now = now, b_next = 1, h_file = Map.empty, h_timer = Map.empty, h_info = Map.empty\<rparr>"

text \<open>
  Where the cursor of \<^verbatim>\<open>list_for_each_entry_safe\<close> stands: at the list head, at an entry, or at the poison
  that \<^verbatim>\<open>list_del\<close> leaves in the links of an entry.
\<close>

datatype timer_cursor = At_Head | At nat | Poisoned

fun next_in :: "nat \<Rightarrow> nat list \<Rightarrow> timer_cursor" where
  "next_in p [] = Poisoned"
| "next_in p (q # qs) = (if p = q then (case qs of [] \<Rightarrow> At_Head | r # _ \<Rightarrow> At r) else next_in p qs)"

definition first_in :: "nat list \<Rightarrow> timer_cursor" where
  "first_in l = (case l of [] \<Rightarrow> At_Head | p # _ \<Rightarrow> At p)"

text \<open>The body of the loop of \<^verbatim>\<open>ep_timer_check\<close> for a due entry \<open>p\<close>.\<close>

definition fire_info :: "('c, ('c, 'z) base) ep_handlers \<Rightarrow> nat \<Rightarrow> ep_timer_info \<Rightarrow> ('c, 'z) base \<Rightarrow> ('c, 'z) base res" where
  "fire_info H p pos b =
     rbind (ep_timer_info_del p b) (\<lambda>b1.
     if ti_type pos = EP_TIMER_TIMER
     then rbind (look (h_timer b1) (ti_info pos)) (\<lambda>timer. on_timer H (et_cb timer) (ti_info pos) b1)
     else rbind (look (h_file b1) (ti_info pos)) (\<lambda>file.
          rbind (on_file H (ef_cb file) (ti_info pos) (ef_fd file) EP_TIMEOUT b1) (\<lambda>b2.
          rbind (fd_slot b2 (ef_fd file)) (\<lambda>s.
          case fi_file s of
            None \<Rightarrow> Inr b2
          | Some g \<Rightarrow>
              rbind (look (h_file b2) g) (\<lambda>file2.
              if ef_timeout file2 \<ge> 0
              then let (q, b3) = (case ef_timer_info file2 of Some q \<Rightarrow> (q, b2)
                                  | None \<Rightarrow> ep_timer_info_create g EP_TIMER_FD b2);
                       b4 = put_file g (file2\<lparr>ef_timer_info := Some q\<rparr>) b3
                   in rbind (ep_timer_info_add q (ef_timeout file2) b4) (\<lambda>(rc, b5). Inr b5)
              else Inr b2)))))"

text \<open>
  The loop itself, with the saved successor.  Callbacks can add entries behind the cursor for ever, so it
  carries fuel: \<open>None\<close> is a loop that has not ended yet.
\<close>

fun ep_timer_check_loop :: "('c, ('c, 'z) base) ep_handlers \<Rightarrow> nat \<Rightarrow> int \<Rightarrow> timer_cursor \<Rightarrow> ('c, 'z) base
    \<Rightarrow> ('c, 'z) base res option" where
  "ep_timer_check_loop H n ms At_Head b = Some (Inr b)"
| "ep_timer_check_loop H n ms Poisoned b = Some (Inl Bad_Pointer)"
| "ep_timer_check_loop H 0 ms (At p) b = None"
| "ep_timer_check_loop H (Suc n) ms (At p) b =
     (case look (h_info b) p of
        Inl e \<Rightarrow> Some (Inl e)
      | Inr pos \<Rightarrow>
          let temp = next_in p (b_list_timers b)
          in if ti_timeout_ms pos > ms then Some (Inr b)
             else (case fire_info H p pos b of
                     Inl e \<Rightarrow> Some (Inl e)
                   | Inr b1 \<Rightarrow> ep_timer_check_loop H n ms temp b1))"

definition ep_timer_check :: "('c, ('c, 'z) base) ep_handlers \<Rightarrow> nat \<Rightarrow> ('c, 'z) base \<Rightarrow> (int \<times> ('c, 'z) base) res option" where
  "ep_timer_check H n b =
     map_option (\<lambda>r. rbind r (\<lambda>b'. Inr (if b_list_timers b' = [] then - 1 else 0, b')))
       (ep_timer_check_loop H n (get_ms b) (first_in (b_list_timers b)) b)"

text \<open>The timeout the loop passes to \<^verbatim>\<open>epoll_wait\<close>; \<open>- 1\<close> waits without limit.\<close>

definition dispatch_timeout :: "('c, 'z) base \<Rightarrow> int res" where
  "dispatch_timeout b = rbind (ep_timer_get_next b) (\<lambda>t. Inr (if t < 0 then - 1 else t))"

fun dispatch_events :: "('c, ('c, 'z) base) ep_handlers \<Rightarrow> (int \<times> int) list \<Rightarrow> ('c, 'z) base \<Rightarrow> ('c, 'z) base res" where
  "dispatch_events H [] b = Inr b"
| "dispatch_events H ((fd, ev) # evs) b =
     rbind (fd_slot b fd) (\<lambda>s.
     rbind (case fi_file s of
              None \<Rightarrow> Inr (b\<lparr>b_poll := ep_poll_del (b_poll b) fd\<rparr>)
            | Some f \<Rightarrow> rbind (look (h_file b) f) (\<lambda>file. on_file H (ef_cb file) f fd ev b)) (\<lambda>b1.
     dispatch_events H evs b1))"

text \<open>
  One iteration: \<open>evs\<close> is what \<^verbatim>\<open>epoll_wait\<close> reports and \<open>now\<close> the clock when it returns.
  \<^verbatim>\<open>ep_base_dispatch\<close> repeats it, here along a list of such inputs, until a callback stops the base.
\<close>

definition dispatch_round :: "('c, ('c, 'z) base) ep_handlers \<Rightarrow> nat \<Rightarrow> (int \<times> int) list \<Rightarrow> int \<Rightarrow> ('c, 'z) base
    \<Rightarrow> ('c, 'z) base res option" where
  "dispatch_round H n evs now b =
     (case dispatch_timeout b of
        Inl e \<Rightarrow> Some (Inl e)
      | Inr _ \<Rightarrow>
          (case dispatch_events H (ep_poll_dispatch evs) (b\<lparr>b_now := now\<rparr>) of
             Inl e \<Rightarrow> Some (Inl e)
           | Inr b1 \<Rightarrow> map_option (\<lambda>r. rbind r (\<lambda>(rc, b2). Inr b2)) (ep_timer_check H n b1)))"

fun ep_base_dispatch :: "('c, ('c, 'z) base) ep_handlers \<Rightarrow> nat \<Rightarrow> ((int \<times> int) list \<times> int) list \<Rightarrow> ('c, 'z) base
    \<Rightarrow> ('c, 'z) base res option" where
  "ep_base_dispatch H n [] b = Some (Inr b)"
| "ep_base_dispatch H n ((evs, now) # ins) b =
     (case dispatch_round H n evs now b of
        Some (Inr b1) \<Rightarrow> if b_is_stop b1 then Some (Inr b1) else ep_base_dispatch H n ins b1
      | r \<Rightarrow> r)"

end
