(* ===== verification/Ep_Inv.thy ===== *)
theory Ep_Inv
  imports Ep
begin

text \<open>
  The invariant of the event loop and its preservation by every operation.  \<open>polls_ok\<close>: the kernel's interest
  set, the masks of the descriptor table and \<^verbatim>\<open>fd_count\<close> agree, and a descriptor that is watched has a live
  file.  \<open>timers_ok\<close>: the timer list holds exactly the infos marked pending, each once, and infos and their
  owners (timers or files) point at each other.  \<open>fresh_ok\<close>: addresses not handed out yet are unused.
\<close>

section \<open>The invariant\<close>

definition slot_ok :: "(int \<rightharpoonup> int) \<Rightarrow> (nat \<rightharpoonup> 'c ep_file) \<Rightarrow> nat \<Rightarrow> ep_fd_info \<Rightarrow> bool" where
  "slot_ok poll hf i s \<longleftrightarrow>
     (if fi_mask s = 0 then poll (int i) = None
      else poll (int i) = Some (poll_events (fi_mask s))
        \<and> (\<exists>f ev. fi_file s = Some f \<and> hf f = Some ev \<and> ef_fd ev = int i))"

definition polls_ok :: "ep_fd_info list \<Rightarrow> (int \<rightharpoonup> int) \<Rightarrow> int \<Rightarrow> (nat \<rightharpoonup> 'c ep_file) \<Rightarrow> bool" where
  "polls_ok files poll cnt hf \<longleftrightarrow> (\<forall>i < length files. slot_ok poll hf i (files ! i))
     \<and> dom poll \<subseteq> {0 ..< int (length files)} \<and> cnt = int (card (dom poll))"

definition owner_ok :: "(nat \<rightharpoonup> 'c ep_timer) \<Rightarrow> (nat \<rightharpoonup> 'c ep_file) \<Rightarrow> nat \<Rightarrow> ep_timer_info \<Rightarrow> bool" where
  "owner_ok ht hf p i \<longleftrightarrow>
     (case ti_type i of
        EP_TIMER_TIMER \<Rightarrow> (\<exists>t. ht (ti_info i) = Some t \<and> et_info t = Some p)
      | EP_TIMER_FD \<Rightarrow> (\<exists>f. hf (ti_info i) = Some f \<and> ef_timer_info f = Some p))"

definition list_ok :: "nat list \<Rightarrow> (nat \<rightharpoonup> ep_timer_info) \<Rightarrow> bool" where
  "list_ok l hi \<longleftrightarrow> distinct l \<and> (\<forall>p. p \<in> set l \<longleftrightarrow> (\<exists>i. hi p = Some i \<and> ti_pending i))"

definition owns :: "(nat \<rightharpoonup> ep_timer_info) \<Rightarrow> ep_timer_kind \<Rightarrow> nat \<Rightarrow> nat option \<Rightarrow> bool" where
  "owns hi k w po \<longleftrightarrow> (\<forall>p. po = Some p \<longrightarrow> (\<exists>i. hi p = Some i \<and> ti_type i = k \<and> ti_info i = w))"

definition timers_ok :: "(nat \<rightharpoonup> ep_timer_info) \<Rightarrow> (nat \<rightharpoonup> 'c ep_timer) \<Rightarrow> (nat \<rightharpoonup> 'c ep_file) \<Rightarrow> bool" where
  "timers_ok hi ht hf \<longleftrightarrow> (\<forall>p i. hi p = Some i \<longrightarrow> owner_ok ht hf p i)
     \<and> (\<forall>t x. ht t = Some x \<longrightarrow> owns hi EP_TIMER_TIMER t (et_info x))
     \<and> (\<forall>f x. hf f = Some x \<longrightarrow> owns hi EP_TIMER_FD f (ef_timer_info x))"

definition fresh_ok :: "nat \<Rightarrow> (nat \<rightharpoonup> ep_timer_info) \<Rightarrow> (nat \<rightharpoonup> 'c ep_timer) \<Rightarrow> (nat \<rightharpoonup> 'c ep_file) \<Rightarrow> bool" where
  "fresh_ok n hi ht hf \<longleftrightarrow> (\<forall>p \<ge> n. hf p = None \<and> ht p = None \<and> hi p = None)"

definition base_wf :: "('c, 'z) base \<Rightarrow> bool" where
  "base_wf b \<longleftrightarrow> polls_ok (b_files b) (b_poll b) (b_fd_count b) (h_file b)
     \<and> list_ok (b_list_timers b) (h_info b)
     \<and> timers_ok (h_info b) (h_timer b) (h_file b)
     \<and> fresh_ok (b_next b) (h_info b) (h_timer b) (h_file b)"

lemmas put_defs = put_info_def put_file_def put_timer_def set_slot_def

lemma look_Some [simp]: "h p = Some x \<Longrightarrow> look h p = Inr x"
  by (simp add: look_def)

lemma look_eq_Inr [simp]: "look h p = Inr x \<longleftrightarrow> h p = Some x"
  by (simp add: look_def split: option.split)

lemma base_wf_create: "base_wf (ep_base_create now)"
  by (simp add: base_wf_def polls_ok_def timers_ok_def fresh_ok_def list_ok_def ep_base_create_def slot_ok_def)

lemma base_wf_clock [simp]: "base_wf (b\<lparr>b_now := t\<rparr>) \<longleftrightarrow> base_wf b"
  by (simp add: base_wf_def)

lemma base_wf_stop [simp]: "base_wf (ep_base_stop b) \<longleftrightarrow> base_wf b"
  by (simp add: ep_base_stop_def base_wf_def)

section \<open>Inserting and removing timer infos\<close>

lemma find_pos_add_live:
  "\<forall>p \<in> set ps. h p \<noteq> None \<Longrightarrow> \<exists>pos. find_pos_add h ms ps i acc = Inr pos"
  by (induction ps arbitrary: i acc) fastforce+

lemma set_insert_at: "set (insert_at pos x xs) = insert x (set xs)"
proof (cases pos)
  case (Some i)
  have "set (take i xs) \<union> set (drop i xs) = set xs" by (metis append_take_drop_id set_append)
  then show ?thesis using Some by (auto simp: insert_at_def)
qed (simp add: insert_at_def)

lemma distinct_insert_at: "distinct xs \<Longrightarrow> x \<notin> set xs \<Longrightarrow> distinct (insert_at pos x xs)"
proof (cases pos)
  case (Some i)
  assume "distinct xs" "x \<notin> set xs"
  moreover have "distinct (take i xs @ drop i xs)" using \<open>distinct xs\<close> by simp
  ultimately show ?thesis using Some set_take_subset [of i xs] set_drop_subset [of i xs]
    by (auto simp: insert_at_def simp del: append_take_drop_id)
qed (simp add: insert_at_def)

text \<open>Operations on the timer list leave everything else of the base alone.\<close>

definition only_list :: "('c, 'z) base \<Rightarrow> ('c, 'z) base \<Rightarrow> bool" where
  "only_list b b' \<longleftrightarrow> h_file b' = h_file b \<and> h_timer b' = h_timer b \<and> dom (h_info b') = dom (h_info b)
     \<and> b_files b' = b_files b \<and> b_poll b' = b_poll b \<and> b_fd_count b' = b_fd_count b
     \<and> b_next b' = b_next b \<and> b_now b' = b_now b \<and> b_is_stop b' = b_is_stop b
     \<and> ep_base.more b' = ep_base.more b"

lemma only_list_refl [simp]: "only_list b b"
  by (simp add: only_list_def)

text \<open>The owner of an info does not depend on its time or its pending mark.\<close>

lemma owns_relabel:
  "owns hi k w po \<Longrightarrow> hi p = Some i \<Longrightarrow> ti_type j = ti_type i \<Longrightarrow> ti_info j = ti_info i \<Longrightarrow> owns (hi(p \<mapsto> j)) k w po"
  by (fastforce simp: owns_def)

lemma timers_ok_relabel:
  assumes "timers_ok hi ht hf" and "hi p = Some i" and "ti_type j = ti_type i" and "ti_info j = ti_info i"
  shows "timers_ok (hi(p \<mapsto> j)) ht hf"
proof -
  have "owner_ok ht hf p j" using assms by (auto simp: timers_ok_def owner_ok_def split: ep_timer_kind.splits)
  then show ?thesis using assms owns_relabel [of hi _ _ _ p i j] by (simp add: timers_ok_def)
qed

lemma base_wf_relist:
  assumes "base_wf b" and "h_info b p = Some i" and "list_ok l ((h_info b)(p \<mapsto> i\<lparr>ti_pending := q, ti_timeout_ms := t\<rparr>))"
  shows "base_wf ((put_info p (i\<lparr>ti_pending := q, ti_timeout_ms := t\<rparr>) b)\<lparr>b_list_timers := l\<rparr>)"
  using assms timers_ok_relabel [of "h_info b" "h_timer b" "h_file b" p i]
  by (auto simp: base_wf_def put_info_def fresh_ok_def)

lemma ep_timer_info_add_ok:
  assumes "base_wf b" and "h_info b p = Some i"
  shows "\<exists>rc b'. ep_timer_info_add p ms b = Inr (rc, b') \<and> base_wf b' \<and> only_list b b'
    \<and> p \<in> set (b_list_timers b') \<and> set (b_list_timers b') = insert p (set (b_list_timers b))"
proof (cases "ti_pending i")
  case True
  have "p \<in> set (b_list_timers b)"
    using assms True by (auto simp: base_wf_def list_ok_def)
  with True assms show ?thesis by (auto simp: ep_timer_info_add_def)
next
  case False
  let ?l = "b_list_timers b" and ?t = "int32 (get_ms b + ms)"
  let ?i = "i\<lparr>ti_pending := True, ti_timeout_ms := ?t\<rparr>"
  have lo: "list_ok ?l (h_info b)" using assms(1) by (simp add: base_wf_def)
  have np: "p \<notin> set ?l" using lo assms(2) False by (auto simp: list_ok_def)
  have "\<forall>q \<in> set ?l. ((h_info b)(p \<mapsto> ?i)) q \<noteq> None" using lo by (auto simp: list_ok_def)
  then obtain pos where pos: "find_pos_add ((h_info b)(p \<mapsto> ?i)) ms ?l 0 None = Inr pos"
    using find_pos_add_live by blast
  have "list_ok (insert_at pos p ?l) ((h_info b)(p \<mapsto> ?i))"
    using lo np by (auto simp: list_ok_def set_insert_at distinct_insert_at)
  from base_wf_relist [OF assms this] pos False assms(2) show ?thesis
    by (auto simp: ep_timer_info_add_def Let_def only_list_def set_insert_at put_info_def)
qed

lemma ep_timer_info_del_ok:
  assumes "base_wf b" and "h_info b p = Some i"
  shows "\<exists>b'. ep_timer_info_del p b = Inr b' \<and> base_wf b' \<and> only_list b b'
    \<and> b_list_timers b' = remove1 p (b_list_timers b) \<and> h_info b' p = Some (i\<lparr>ti_pending := False\<rparr>)
    \<and> (\<forall>q. q \<noteq> p \<longrightarrow> h_info b' q = h_info b q)"
proof -
  let ?l = "b_list_timers b" and ?i = "i\<lparr>ti_pending := False, ti_timeout_ms := ti_timeout_ms i\<rparr>"
  have lo: "list_ok ?l (h_info b)" using assms(1) by (simp add: base_wf_def)
  show ?thesis
  proof (cases "ti_pending i")
    case True
    have "list_ok (remove1 p ?l) ((h_info b)(p \<mapsto> ?i))"
      using lo by (auto simp: list_ok_def)
    from base_wf_relist [OF assms this] True assms(2) show ?thesis
      by (auto simp: ep_timer_info_del_def only_list_def put_info_def)
  next
    case False
    have "p \<notin> set ?l" using lo assms(2) False by (auto simp: list_ok_def)
    moreover have "i\<lparr>ti_pending := False\<rparr> = i" using False by simp
    ultimately show ?thesis using False assms by (simp add: ep_timer_info_del_def remove1_idem)
  qed
qed

section \<open>Creating and releasing timer infos\<close>

lemma owner_okD: "timers_ok hi ht hf \<Longrightarrow> hi q = Some j \<Longrightarrow> owner_ok ht hf q j"
  by (simp add: timers_ok_def)

lemma owner_ok_upd_timer:
  "owner_ok ht hf q j \<Longrightarrow> ht t = Some x \<Longrightarrow> (et_info x = Some q \<Longrightarrow> \<exists>z. y = Some z \<and> et_info z = Some q) \<Longrightarrow>
     owner_ok (ht(t := y)) hf q j"
  by (cases "ti_type j") (auto simp: owner_ok_def)

lemma owner_ok_upd_file:
  "owner_ok ht hf q j \<Longrightarrow> hf t = Some x \<Longrightarrow> (ef_timer_info x = Some q \<Longrightarrow> \<exists>z. y = Some z \<and> ef_timer_info z = Some q) \<Longrightarrow>
     owner_ok ht (hf(t := y)) q j"
  by (cases "ti_type j") (auto simp: owner_ok_def)

lemma timers_ok_new_timer:
  "timers_ok hi ht hf \<Longrightarrow> ht t = None \<Longrightarrow> et_info y = None \<Longrightarrow> timers_ok hi (ht(t \<mapsto> y)) hf"
  by (auto simp: timers_ok_def owns_def [of _ _ _ None] owner_ok_def split: ep_timer_kind.splits)
    (metis (no_types, lifting) option.distinct(1))+

lemma timers_ok_new_file:
  "timers_ok hi ht hf \<Longrightarrow> hf t = None \<Longrightarrow> ef_timer_info y = None \<Longrightarrow> timers_ok hi ht (hf(t \<mapsto> y))"
  by (auto simp: timers_ok_def owns_def [of _ _ _ None] owner_ok_def split: ep_timer_kind.splits)
    (metis (no_types, lifting) option.distinct(1))+

lemma timer_info_live:
  "timers_ok hi ht hf \<Longrightarrow> ht t = Some x \<Longrightarrow> et_info x = Some p \<Longrightarrow>
     \<exists>i. hi p = Some i \<and> ti_type i = EP_TIMER_TIMER \<and> ti_info i = t"
  unfolding timers_ok_def owns_def by blast

lemma file_info_live:
  "timers_ok hi ht hf \<Longrightarrow> hf t = Some x \<Longrightarrow> ef_timer_info x = Some p \<Longrightarrow>
     \<exists>i. hi p = Some i \<and> ti_type i = EP_TIMER_FD \<and> ti_info i = t"
  unfolding timers_ok_def owns_def by blast

text \<open>An owner without an info gets a new one; an owner with one gives it up.\<close>

lemma timers_ok_attach_timer:
  assumes "timers_ok hi ht hf" and "ht t = Some x" and "et_info x = None" and "hi p = None"
    and "et_info y = Some p" and "ti_type i = EP_TIMER_TIMER" and "ti_info i = t"
  shows "timers_ok (hi(p \<mapsto> i)) (ht(t \<mapsto> y)) hf"
proof -
  have "owner_ok (ht(t \<mapsto> y)) hf q j" if "hi q = Some j" for q j
    using owner_ok_upd_timer [OF owner_okD [OF assms(1) that] assms(2)] assms(3) by simp
  moreover have "owns (hi(p \<mapsto> i)) k w po" if "owns hi k w po" for k w po
    using that assms(4) by (fastforce simp: owns_def)
  ultimately show ?thesis
    using assms by (simp add: timers_ok_def) (simp add: owner_ok_def owns_def)
qed

lemma timers_ok_attach_file:
  assumes "timers_ok hi ht hf" and "hf t = Some x" and "ef_timer_info x = None" and "hi p = None"
    and "ef_timer_info y = Some p" and "ti_type i = EP_TIMER_FD" and "ti_info i = t"
  shows "timers_ok (hi(p \<mapsto> i)) ht (hf(t \<mapsto> y))"
proof -
  have "owner_ok ht (hf(t \<mapsto> y)) q j" if "hi q = Some j" for q j
    using owner_ok_upd_file [OF owner_okD [OF assms(1) that] assms(2)] assms(3) by simp
  moreover have "owns (hi(p \<mapsto> i)) k w po" if "owns hi k w po" for k w po
    using that assms(4) by (fastforce simp: owns_def)
  ultimately show ?thesis
    using assms by (simp add: timers_ok_def) (simp add: owner_ok_def owns_def)
qed

definition info_of_timer :: "'c ep_timer option \<Rightarrow> nat option" where
  "info_of_timer x = (case x of None \<Rightarrow> None | Some t \<Rightarrow> et_info t)"

definition info_of_file :: "'c ep_file option \<Rightarrow> nat option" where
  "info_of_file x = (case x of None \<Rightarrow> None | Some f \<Rightarrow> ef_timer_info f)"

definition drop_info :: "nat option \<Rightarrow> (nat \<rightharpoonup> ep_timer_info) \<Rightarrow> (nat \<rightharpoonup> ep_timer_info)" where
  "drop_info po hi = (case po of None \<Rightarrow> hi | Some p \<Rightarrow> hi(p := None))"

lemma drop_info_None: "hi q = None \<Longrightarrow> drop_info po hi q = None"
  by (simp add: drop_info_def split: option.split)

lemma timers_ok_detach_timer:
  assumes "timers_ok hi ht hf" and "ht t = Some x" and "info_of_timer y = None"
  shows "timers_ok (drop_info (et_info x) hi) (ht(t := y)) hf"
proof -
  have *: "owns hi EP_TIMER_TIMER t (et_info x)" using assms by (simp add: timers_ok_def)
  have "owner_ok (ht(t := y)) hf q j" if "drop_info (et_info x) hi q = Some j" for q j
  proof -
    have q: "hi q = Some j" "et_info x \<noteq> Some q"
      using that by (auto simp: drop_info_def split: option.splits if_splits)
    from owner_ok_upd_timer [OF owner_okD [OF assms(1) q(1)] assms(2)] q(2) show ?thesis by simp
  qed
  moreover have "owns (drop_info (et_info x) hi) k w po" if "owns hi k w po" "k \<noteq> EP_TIMER_TIMER \<or> w \<noteq> t" for k w po
    using that * by (cases "et_info x") (fastforce simp: owns_def drop_info_def)+
  moreover have "owns h EP_TIMER_TIMER t (et_info z)" if "y = Some z" for h z
    using that assms(3) by (simp add: owns_def info_of_timer_def)
  ultimately show ?thesis using assms(1) by (simp add: timers_ok_def)
qed

lemma timers_ok_detach_file:
  assumes "timers_ok hi ht hf" and "hf t = Some x" and "info_of_file y = None"
  shows "timers_ok (drop_info (ef_timer_info x) hi) ht (hf(t := y))"
proof -
  have *: "owns hi EP_TIMER_FD t (ef_timer_info x)" using assms by (simp add: timers_ok_def)
  have "owner_ok ht (hf(t := y)) q j" if "drop_info (ef_timer_info x) hi q = Some j" for q j
  proof -
    have q: "hi q = Some j" "ef_timer_info x \<noteq> Some q"
      using that by (auto simp: drop_info_def split: option.splits if_splits)
    from owner_ok_upd_file [OF owner_okD [OF assms(1) q(1)] assms(2)] q(2) show ?thesis by simp
  qed
  moreover have "owns (drop_info (ef_timer_info x) hi) k w po" if "owns hi k w po" "k \<noteq> EP_TIMER_FD \<or> w \<noteq> t" for k w po
    using that * by (cases "ef_timer_info x") (fastforce simp: owns_def drop_info_def)+
  moreover have "owns h EP_TIMER_FD t (ef_timer_info z)" if "y = Some z" for h z
    using that assms(3) by (simp add: owns_def info_of_file_def)
  ultimately show ?thesis using assms(1) by (simp add: timers_ok_def)
qed

text \<open>Updates that keep the link between an owner and its info.\<close>

lemma timers_ok_keep_timer:
  "timers_ok hi ht hf \<Longrightarrow> ht t = Some x \<Longrightarrow> et_info y = et_info x \<Longrightarrow> timers_ok hi (ht(t \<mapsto> y)) hf"
  by (auto simp: timers_ok_def intro!: owner_ok_upd_timer)

lemma timers_ok_keep_file:
  "timers_ok hi ht hf \<Longrightarrow> hf t = Some x \<Longrightarrow> ef_timer_info y = ef_timer_info x \<Longrightarrow> timers_ok hi ht (hf(t \<mapsto> y))"
  by (auto simp: timers_ok_def intro!: owner_ok_upd_file)

text \<open>Files whose descriptor does not change.\<close>

lemma polls_ok_file:
  assumes "polls_ok files poll cnt hf" and "hf t = Some x" and "ef_fd y = ef_fd x"
  shows "polls_ok files poll cnt (hf(t \<mapsto> y))"
proof -
  have "slot_ok poll (hf(t \<mapsto> y)) i (files ! i)" if "slot_ok poll hf i (files ! i)" for i
    using that assms(2,3) by (auto simp: slot_ok_def split: if_splits)
  with assms(1) show ?thesis by (simp add: polls_ok_def)
qed

section \<open>The timer operations\<close>

text \<open>What every operation of the loop keeps of the structures it is not about.\<close>

lemma ep_timer_new_ok:
  "base_wf b \<Longrightarrow> ep_timer_new cb b = (t, b') \<Longrightarrow> base_wf b' \<and> t = b_next b
     \<and> h_timer b' = (h_timer b)(t \<mapsto> \<lparr>et_info = None, et_cb = cb, et_pending = False\<rparr>)"
  by (auto simp: ep_timer_new_def base_wf_def fresh_ok_def timers_ok_new_timer)

lemma ep_timer_add_ok:
  assumes "base_wf b" and "h_timer b t = Some x"
  shows "\<exists>b' y. ep_timer_add t ms b = Inr b' \<and> base_wf b' \<and> h_timer b' = (h_timer b)(t \<mapsto> y)
    \<and> et_cb y = et_cb x \<and> et_pending y \<and> h_file b' = h_file b \<and> b_files b' = b_files b
    \<and> b_poll b' = b_poll b \<and> ep_base.more b' = ep_base.more b"
proof (cases "et_info x")
  case None
  let ?p = "b_next b"
  let ?y = "x\<lparr>et_info := Some ?p, et_pending := True\<rparr>"
  let ?i = "\<lparr>ti_type = EP_TIMER_TIMER, ti_info = t, ti_timeout_ms = 0, ti_pending = False\<rparr>"
  define b2 where "b2 = put_timer t ?y (snd (ep_timer_info_create t EP_TIMER_TIMER b))"
  have fr: "h_info b ?p = None" "t < ?p"
    using assms by (auto simp: base_wf_def fresh_ok_def) (metis leI option.distinct(1))
  have "timers_ok ((h_info b)(?p \<mapsto> ?i)) ((h_timer b)(t \<mapsto> ?y)) (h_file b)"
    using assms None fr by (intro timers_ok_attach_timer) (auto simp: base_wf_def)
  moreover have "list_ok (b_list_timers b) ((h_info b)(?p \<mapsto> ?i))"
    using assms(1) fr by (auto simp: base_wf_def list_ok_def)
  ultimately have "base_wf b2"
    using assms fr by (auto simp: b2_def base_wf_def put_timer_def ep_timer_info_create_def fresh_ok_def)
  moreover have "h_info b2 ?p = Some ?i" by (simp add: b2_def put_timer_def ep_timer_info_create_def)
  ultimately obtain rc b3 where "ep_timer_info_add ?p ms b2 = Inr (rc, b3)" "base_wf b3" "only_list b2 b3"
    using ep_timer_info_add_ok by blast
  with assms None show ?thesis
    by (auto simp: ep_timer_add_def Let_def b2_def ep_timer_info_create_def only_list_def put_timer_def
        intro!: exI [of _ ?y])
next
  case (Some p)
  let ?y = "x\<lparr>et_info := Some p, et_pending := True\<rparr>"
  define b2 where "b2 = put_timer t ?y b"
  have "timers_ok (h_info b) ((h_timer b)(t \<mapsto> ?y)) (h_file b)"
    using assms Some timers_ok_keep_timer [of "h_info b" "h_timer b" "h_file b" t x ?y] by (simp add: base_wf_def)
  then have "base_wf b2"
    using assms by (auto simp: b2_def base_wf_def put_timer_def fresh_ok_def)
  moreover obtain i where "h_info b2 p = Some i"
    using timer_info_live [of "h_info b" "h_timer b" "h_file b" t x p] assms Some
    by (auto simp: b2_def put_timer_def base_wf_def)
  ultimately obtain rc b3 where "ep_timer_info_add p ms b2 = Inr (rc, b3)" "base_wf b3" "only_list b2 b3"
    using ep_timer_info_add_ok by blast
  with assms Some show ?thesis
    by (auto simp: ep_timer_add_def Let_def b2_def only_list_def put_timer_def intro!: exI [of _ ?y])
qed

lemma list_ok_drop: "list_ok l hi \<Longrightarrow> p \<notin> set l \<Longrightarrow> list_ok l (hi(p := None))"
  by (auto simp: list_ok_def)

text \<open>
  Releasing the info of an owner: afterwards only the owner's own pointer is stale, which the caller
  clears at once.
\<close>

lemma release_info_ok:
  assumes "base_wf b" and "owns (h_info b) k w po"
  shows "\<exists>b'. release_info po b = Inr b' \<and> h_timer b' = h_timer b \<and> h_file b' = h_file b
    \<and> b_files b' = b_files b \<and> b_poll b' = b_poll b \<and> b_fd_count b' = b_fd_count b \<and> b_next b' = b_next b
    \<and> ep_base.more b' = ep_base.more b \<and> list_ok (b_list_timers b') (h_info b')
    \<and> h_info b' = drop_info po (h_info b)"
proof (cases po)
  case None
  with assms show ?thesis by (simp add: release_info_def drop_info_def base_wf_def)
next
  case (Some p)
  with assms(2) obtain i where i: "h_info b p = Some i" by (auto simp: owns_def)
  obtain b1 where b1: "ep_timer_info_del p b = Inr b1" "base_wf b1" "only_list b b1"
    "b_list_timers b1 = remove1 p (b_list_timers b)" "\<forall>q. q \<noteq> p \<longrightarrow> h_info b1 q = h_info b q"
    using ep_timer_info_del_ok [OF assms(1) i] by blast
  have "distinct (b_list_timers b)" using assms(1) by (simp add: base_wf_def list_ok_def)
  then have "list_ok (b_list_timers b1) ((h_info b1)(p := None))"
    using b1(2,4) by (intro list_ok_drop) (auto simp: base_wf_def)
  moreover have "(h_info b1)(p := None) = (h_info b)(p := None)"
    using b1(5) by (intro ext) auto
  ultimately show ?thesis
    using Some b1 i by (simp add: release_info_def drop_info_def only_list_def)
qed

lemma ep_timer_del_ok:
  assumes "base_wf b" and "h_timer b t = Some x"
  shows "\<exists>b'. ep_timer_del t b = Inr b' \<and> base_wf b'
    \<and> h_timer b' = (h_timer b)(t \<mapsto> x\<lparr>et_info := None, et_pending := False\<rparr>)
    \<and> h_file b' = h_file b \<and> b_files b' = b_files b \<and> b_poll b' = b_poll b \<and> ep_base.more b' = ep_base.more b"
proof -
  let ?y = "x\<lparr>et_info := None, et_pending := False\<rparr>"
  have "owns (h_info b) EP_TIMER_TIMER t (et_info x)" using assms by (simp add: base_wf_def timers_ok_def)
  from release_info_ok [OF assms(1) this] obtain b1 where b1: "release_info (et_info x) b = Inr b1"
    "h_timer b1 = h_timer b" "h_file b1 = h_file b" "b_files b1 = b_files b" "b_poll b1 = b_poll b"
    "b_fd_count b1 = b_fd_count b" "b_next b1 = b_next b" "ep_base.more b1 = ep_base.more b"
    "list_ok (b_list_timers b1) (h_info b1)" "h_info b1 = drop_info (et_info x) (h_info b)"
    by blast
  have "timers_ok (h_info b1) ((h_timer b)(t \<mapsto> ?y)) (h_file b)"
    unfolding b1(10) using assms by (intro timers_ok_detach_timer) (auto simp: base_wf_def info_of_timer_def)
  then have "base_wf (put_timer t ?y b1)"
    using assms b1 by (auto simp: base_wf_def put_timer_def fresh_ok_def drop_info_None)
  with b1 assms show ?thesis by (simp add: ep_timer_del_def put_timer_def)
qed

lemma ep_timer_free_ok:
  assumes "base_wf b" and "h_timer b t = Some x"
  shows "\<exists>b'. ep_timer_free t b = Inr b' \<and> base_wf b' \<and> h_timer b' = (h_timer b)(t := None)
    \<and> h_file b' = h_file b \<and> b_files b' = b_files b \<and> b_poll b' = b_poll b \<and> ep_base.more b' = ep_base.more b"
proof -
  have "owns (h_info b) EP_TIMER_TIMER t (et_info x)" using assms by (simp add: base_wf_def timers_ok_def)
  from release_info_ok [OF assms(1) this] obtain b1 where b1: "release_info (et_info x) b = Inr b1"
    "h_timer b1 = h_timer b" "h_file b1 = h_file b" "b_files b1 = b_files b" "b_poll b1 = b_poll b"
    "b_fd_count b1 = b_fd_count b" "b_next b1 = b_next b" "ep_base.more b1 = ep_base.more b"
    "list_ok (b_list_timers b1) (h_info b1)" "h_info b1 = drop_info (et_info x) (h_info b)"
    by blast
  have "timers_ok (h_info b1) ((h_timer b)(t := None)) (h_file b)"
    unfolding b1(10) using assms by (intro timers_ok_detach_timer) (auto simp: base_wf_def info_of_timer_def)
  then have "base_wf (b1\<lparr>h_timer := (h_timer b1)(t := None)\<rparr>)"
    using assms b1 by (auto simp: base_wf_def fresh_ok_def drop_info_None)
  with b1 assms show ?thesis by (simp add: ep_timer_free_def)
qed

section \<open>The file operations\<close>

text \<open>A live file whose descriptor the table covers.\<close>

definition file_at :: "('c, 'z) base \<Rightarrow> nat \<Rightarrow> int \<Rightarrow> bool" where
  "file_at b f fd \<longleftrightarrow> (\<exists>ev. h_file b f = Some ev \<and> ef_fd ev = fd) \<and> 0 \<le> fd \<and> fd < int (length (b_files b))"

lemma polls_ok_new_file:
  "polls_ok files poll cnt hf \<Longrightarrow> hf f = None \<Longrightarrow> polls_ok files poll cnt (hf(f \<mapsto> y))"
  by (auto simp: polls_ok_def slot_ok_def) (metis option.distinct(1))+

lemma polls_ok_drop_file:
  assumes "polls_ok files poll cnt hf" and "hf f = Some ev" and "0 \<le> ef_fd ev"
    and "fi_mask (files ! nat (ef_fd ev)) = 0"
  shows "polls_ok files poll cnt (hf(f := None))"
proof -
  have "slot_ok poll (hf(f := None)) i (files ! i)" if "slot_ok poll hf i (files ! i)" for i
  proof (cases "fi_mask (files ! i) = 0")
    case False
    then have "i \<noteq> nat (ef_fd ev)" using assms(4) by auto
    then have "ef_fd ev \<noteq> int i" by auto
    with False that assms(2) show ?thesis
      by (simp add: slot_ok_def) (metis option.inject)
  qed (use that in \<open>simp add: slot_ok_def\<close>)
  with assms(1) show ?thesis by (simp add: polls_ok_def)
qed

text \<open>The three ways in which a slot and the interest set change together.\<close>

lemma polls_ok_slot:
  assumes "polls_ok files poll cnt hf" and "n < length files"
    and "slot_ok (poll(int n := v)) hf n s" and "cnt' = int (card (dom (poll(int n := v))))"
  shows "polls_ok (files[n := s]) (poll(int n := v)) cnt' hf"
proof -
  have "slot_ok (poll(int n := v)) hf i (files[n := s] ! i)" if "i < length files" for i
    using assms(1-3) that by (cases "i = n") (auto simp: polls_ok_def slot_ok_def)
  moreover have "dom (poll(int n := v)) \<subseteq> {0 ..< int (length files)}"
    using assms(1,2) by (auto simp: polls_ok_def split: if_splits)
  ultimately show ?thesis using assms(4) by (simp add: polls_ok_def)
qed

lemma polls_ok_finite: "polls_ok files poll cnt hf \<Longrightarrow> finite (dom poll) \<and> cnt = int (card (dom poll))"
  by (auto simp: polls_ok_def intro: finite_subset)

lemma ep_file_create_ok:
  assumes "base_wf b" and "0 \<le> fd" and "fd < int (length (b_files b))"
  shows "\<exists>f b'. ep_file_create fd cb b = Inr (f, b') \<and> base_wf b' \<and> f = b_next b
    \<and> h_file b' = (h_file b)(f \<mapsto> \<lparr>ef_fd = fd, ef_cb = cb, ef_timer_info = None, ef_timeout = - 1\<rparr>)
    \<and> h_timer b' = h_timer b \<and> length (b_files b') = length (b_files b) \<and> file_at b' f fd
    \<and> b_poll b' = b_poll b \<and> ep_base.more b' = ep_base.more b"
proof -
  let ?f = "b_next b" and ?n = "nat fd"
  let ?x = "\<lparr>ef_fd = fd, ef_cb = cb, ef_timer_info = None, ef_timeout = - 1\<rparr>"
  let ?s = "b_files b ! ?n"
  have new: "h_file b ?f = None" using assms(1) by (auto simp: base_wf_def fresh_ok_def)
  have p: "polls_ok (b_files b) (b_poll b) (b_fd_count b) ((h_file b)(?f \<mapsto> ?x))"
    using assms(1) new by (intro polls_ok_new_file) (auto simp: base_wf_def)
  have "slot_ok (b_poll b) ((h_file b)(?f \<mapsto> ?x)) ?n ?s"
    using p assms(2,3) by (auto simp: polls_ok_def)
  then have "slot_ok (b_poll b) ((h_file b)(?f \<mapsto> ?x)) ?n (?s\<lparr>fi_file := Some ?f\<rparr>)"
    using assms(2) by (auto simp: slot_ok_def split: if_splits)
  then have "polls_ok ((b_files b)[?n := ?s\<lparr>fi_file := Some ?f\<rparr>]) (b_poll b) (b_fd_count b) ((h_file b)(?f \<mapsto> ?x))"
    using polls_ok_slot [OF p, of ?n "b_poll b (int ?n)"] polls_ok_finite [OF p] assms(2,3) by (simp add: nat_less_iff)
  moreover have "timers_ok (h_info b) (h_timer b) ((h_file b)(?f \<mapsto> ?x))"
    using assms(1) new by (auto simp: base_wf_def intro!: timers_ok_new_file)
  ultimately show ?thesis
    using assms by (auto simp: ep_file_create_def fd_slot_def put_defs Let_def base_wf_def fresh_ok_def file_at_def)
qed

lemma ep_timer_rearm_ok:
  assumes "base_wf b" and "h_info b p = Some i"
  shows "\<exists>b' rc. rbind (ep_timer_info_del p b) (\<lambda>b4. ep_timer_info_add p timeout b4) = Inr (rc, b')
    \<and> base_wf b' \<and> only_list b b'"
proof -
  obtain b4 where b4: "ep_timer_info_del p b = Inr b4" "base_wf b4" "only_list b b4"
    "h_info b4 p = Some (i\<lparr>ti_pending := False\<rparr>)"
    using ep_timer_info_del_ok [OF assms] by blast
  obtain rc b5 where "ep_timer_info_add p timeout b4 = Inr (rc, b5)" "base_wf b5" "only_list b4 b5"
    using ep_timer_info_add_ok [OF b4(2,4)] by blast
  with b4 show ?thesis by (simp add: only_list_def)
qed

text \<open>A file gets a timer info when it has none.\<close>

lemma file_info_attach_ok:
  assumes "base_wf b" and "h_file b f = Some ev"
    and "(case ef_timer_info ev of Some p \<Rightarrow> (p, b) | None \<Rightarrow> ep_timer_info_create f EP_TIMER_FD b) = (p, b2)"
  shows "base_wf (put_file f (ev\<lparr>ef_timer_info := Some p\<rparr>) b2)" and "\<exists>i. h_info b2 p = Some i"
    and "h_file b2 = h_file b \<and> h_timer b2 = h_timer b \<and> b_files b2 = b_files b \<and> b_poll b2 = b_poll b
      \<and> ep_base.more b2 = ep_base.more b"
proof -
  let ?y = "ev\<lparr>ef_timer_info := Some p\<rparr>"
  have po: "polls_ok (b_files b) (b_poll b) (b_fd_count b) ((h_file b)(f \<mapsto> ?y))"
    using assms(1,2) by (intro polls_ok_file [where x = ev]) (auto simp: base_wf_def)
  have "base_wf (put_file f ?y b2) \<and> (\<exists>i. h_info b2 p = Some i)"
  proof (cases "ef_timer_info ev")
    case None
    let ?i = "\<lparr>ti_type = EP_TIMER_FD, ti_info = f, ti_timeout_ms = 0, ti_pending = False\<rparr>"
    have p: "p = b_next b" and b2: "b2 = snd (ep_timer_info_create f EP_TIMER_FD b)"
      using assms(3) None by (auto simp: ep_timer_info_create_def)
    have fr: "h_info b p = None" "f < p"
      using assms(1,2) p by (auto simp: base_wf_def fresh_ok_def) (metis leI option.distinct(1))
    have "timers_ok ((h_info b)(p \<mapsto> ?i)) (h_timer b) ((h_file b)(f \<mapsto> ?y))"
      using assms(1,2) None fr by (intro timers_ok_attach_file [where x = ev]) (auto simp: base_wf_def)
    moreover have "list_ok (b_list_timers b) ((h_info b)(p \<mapsto> ?i))"
      using assms(1) fr by (auto simp: base_wf_def list_ok_def)
    ultimately show ?thesis
      using assms(1) fr po p by (auto simp: b2 base_wf_def put_file_def ep_timer_info_create_def fresh_ok_def)
  next
    case (Some q)
    then have eq: "q = p" "b2 = b" using assms(3) by auto
    have "timers_ok (h_info b) (h_timer b) ((h_file b)(f \<mapsto> ?y))"
      using assms(1,2) Some eq by (intro timers_ok_keep_file) (auto simp: base_wf_def)
    moreover have "\<exists>i. h_info b p = Some i"
      using file_info_live [of "h_info b" "h_timer b" "h_file b" f ev p] assms(1,2) Some eq
      by (auto simp: base_wf_def)
    ultimately show ?thesis
      using assms(1,2) po eq by (auto simp: base_wf_def put_file_def fresh_ok_def)
  qed
  then show "base_wf (put_file f ?y b2)" and "\<exists>i. h_info b2 p = Some i" by auto
  show "h_file b2 = h_file b \<and> h_timer b2 = h_timer b \<and> b_files b2 = b_files b \<and> b_poll b2 = b_poll b
      \<and> ep_base.more b2 = ep_base.more b"
    using assms(3) by (auto simp: ep_timer_info_create_def split: option.splits)
qed

text \<open>Setting or clearing the timeout of a file keeps the invariant and everything but the timers.\<close>

lemma ep_file_set_timer_ok:
  assumes "base_wf b" and "h_file b f = Some ev"
  shows "\<exists>b' y. ep_file_set_timer f what timeout b = Inr b' \<and> base_wf b' \<and> h_file b' = (h_file b)(f \<mapsto> y)
    \<and> ef_fd y = ef_fd ev \<and> ef_cb y = ef_cb ev \<and> ef_timeout y = timeout \<and> h_timer b' = h_timer b
    \<and> (timeout < 0 \<longrightarrow> ef_timer_info y = ef_timer_info ev)
    \<and> b_files b' = b_files b \<and> b_poll b' = b_poll b \<and> ep_base.more b' = ep_base.more b"
proof -
  let ?ev = "ev\<lparr>ef_timeout := timeout\<rparr>"
  define b1 where "b1 = put_file f ?ev b"
  have b1: "base_wf b1" "h_file b1 f = Some ?ev"
    using assms polls_ok_file [of "b_files b" "b_poll b" "b_fd_count b" "h_file b" f ev ?ev]
      timers_ok_keep_file [of "h_info b" "h_timer b" "h_file b" f ev ?ev]
    by (auto simp: b1_def base_wf_def put_file_def fresh_ok_def)
  show ?thesis
  proof (cases "0 \<le> timeout \<and> what \<noteq> 0")
    case True
    obtain p b2 where pb: "(case ef_timer_info ?ev of Some p \<Rightarrow> (p, b1) | None \<Rightarrow> ep_timer_info_create f EP_TIMER_FD b1) = (p, b2)"
      by fastforce
    let ?y = "?ev\<lparr>ef_timer_info := Some p\<rparr>"
    note at = file_info_attach_ok [OF b1 pb]
    from at(2) obtain i where i: "h_info (put_file f ?y b2) p = Some i" by (auto simp: put_file_def)
    obtain rc b' where "rbind (ep_timer_info_del p (put_file f ?y b2)) (\<lambda>b4. ep_timer_info_add p timeout b4) = Inr (rc, b')"
      "base_wf b'" "only_list (put_file f ?y b2) b'"
      using ep_timer_rearm_ok [OF at(1) i] by blast
    moreover have "ep_file_set_timer f what timeout b
        = rbind (ep_timer_info_del p (put_file f ?y b2)) (\<lambda>b4. rbind (ep_timer_info_add p timeout b4) (\<lambda>(rc, b5). Inr b5))"
      using True assms(2) pb [unfolded b1_def] by (simp add: ep_file_set_timer_def Let_def)
    ultimately show ?thesis
      using True at(3)
      by (intro exI [of _ b'] exI [of _ ?y])
        (auto simp: b1_def rbind_eq_Inr only_list_def put_file_def)
  next
    case False
    show ?thesis
    proof (cases "ef_timer_info ev")
      case None
      with False assms b1(1) show ?thesis
        by (intro exI [of _ b1] exI [of _ ?ev]) (auto simp: ep_file_set_timer_def b1_def Let_def put_file_def)
    next
      case (Some p)
      obtain i where "h_info b1 p = Some i"
        using file_info_live [of "h_info b1" "h_timer b1" "h_file b1" f ?ev p] b1 Some by (auto simp: base_wf_def)
      then obtain b' where "ep_timer_info_del p b1 = Inr b'" "base_wf b'" "only_list b1 b'"
        using ep_timer_info_del_ok [OF b1(1)] by blast
      with False assms Some show ?thesis
        by (intro exI [of _ b'] exI [of _ ?ev])
          (auto simp: ep_file_set_timer_def b1_def Let_def put_file_def only_list_def)
    qed
  qed
qed

text \<open>The slot and the interest set after \<^verbatim>\<open>ep_file_detect\<close>, before the timeout is set.\<close>

lemma polls_ok_detect:
  assumes "polls_ok files poll cnt hf" and "n < length files" and "hf f = Some ev" and "ef_fd ev = int n"
  shows "fi_mask (files ! n) = 0 \<Longrightarrow> what \<noteq> 0 \<Longrightarrow>
      polls_ok (files[n := \<lparr>fi_mask = what, fi_file = Some f\<rparr>]) (ep_poll_add poll (int n) what) (cnt + 1) hf"
    and "fi_mask (files ! n) \<noteq> 0 \<Longrightarrow>
      polls_ok (files[n := \<lparr>fi_mask = 0, fi_file = None\<rparr>]) (ep_poll_del poll (int n)) (cnt - 1) hf"
    and "fi_mask (files ! n) \<noteq> 0 \<Longrightarrow> what \<noteq> 0 \<Longrightarrow>
      polls_ok (files[n := (files ! n)\<lparr>fi_mask := what\<rparr>]) (ep_poll_mod poll (int n) what) cnt hf"
proof -
  have s: "slot_ok poll hf n (files ! n)" using assms(1,2) by (simp add: polls_ok_def)
  note fin = polls_ok_finite [OF assms(1)]
  show "polls_ok (files[n := \<lparr>fi_mask = what, fi_file = Some f\<rparr>]) (ep_poll_add poll (int n) what) (cnt + 1) hf"
    if "fi_mask (files ! n) = 0" "what \<noteq> 0"
  proof -
    have "poll (int n) = None" using s that by (simp add: slot_ok_def)
    then have "int n \<notin> dom poll" by auto
    then show ?thesis
      using polls_ok_slot [OF assms(1,2), of "Some (poll_events what)" "\<lparr>fi_mask = what, fi_file = Some f\<rparr>"]
        that assms(3,4) fin \<open>poll (int n) = None\<close>
      by (simp add: ep_poll_add_def slot_ok_def add.commute)
  qed
  show "polls_ok (files[n := \<lparr>fi_mask = 0, fi_file = None\<rparr>]) (ep_poll_del poll (int n)) (cnt - 1) hf"
    if "fi_mask (files ! n) \<noteq> 0"
  proof -
    have "int n \<in> dom poll" using s that by (auto simp: slot_ok_def)
    then have "int (card (dom poll - {int n})) = cnt - 1"
      using fin card_Suc_Diff1 [of "dom poll" "int n"] by linarith
    then show ?thesis
      using polls_ok_slot [OF assms(1,2), of None "\<lparr>fi_mask = 0, fi_file = None\<rparr>"]
      by (simp add: ep_poll_del_def slot_ok_def)
  qed
  show "polls_ok (files[n := (files ! n)\<lparr>fi_mask := what\<rparr>]) (ep_poll_mod poll (int n) what) cnt hf"
    if "fi_mask (files ! n) \<noteq> 0" "what \<noteq> 0"
  proof -
    have "poll (int n) \<noteq> None" using s that by (simp add: slot_ok_def)
    moreover have "slot_ok (poll(int n \<mapsto> poll_events what)) hf n ((files ! n)\<lparr>fi_mask := what\<rparr>)"
      using s that by (simp add: slot_ok_def)
    ultimately show ?thesis
      using polls_ok_slot [OF assms(1,2), of "Some (poll_events what)"] fin
      by (auto simp: ep_poll_mod_def insert_absorb domIff)
  qed
qed

lemma ep_file_detect_ok:
  assumes "base_wf b" and "h_file b f = Some ev" and "file_at b f (ef_fd ev)"
  shows "\<exists>b' y. ep_file_detect f what timeout b = Inr b' \<and> base_wf b' \<and> h_file b' = (h_file b)(f \<mapsto> y)
    \<and> ef_fd y = ef_fd ev \<and> ef_cb y = ef_cb ev \<and> h_timer b' = h_timer b
    \<and> (timeout < 0 \<longrightarrow> ef_timer_info y = ef_timer_info ev)
    \<and> length (b_files b') = length (b_files b) \<and> fi_mask (b_files b' ! nat (ef_fd ev)) = what
    \<and> ep_base.more b' = ep_base.more b"
proof -
  obtain n where n: "ef_fd ev = int n" "n < length (b_files b)"
    using assms(2,3) by (auto simp: file_at_def) (metis nat_0_le nat_less_iff)
  let ?s = "b_files b ! n"
  have slot: "fd_slot b (ef_fd ev) = Inr ?s" using n by (simp add: fd_slot_def)
  show ?thesis
  proof (cases "fi_mask ?s = 0 \<and> what = 0")
    case True
    with assms slot n show ?thesis by (auto simp: ep_file_detect_def fun_upd_idem intro!: exI [of _ ev])
  next
    case False
    let ?b1 = "if fi_mask ?s = 0
      then set_slot (ef_fd ev) \<lparr>fi_mask = what, fi_file = Some f\<rparr>
        (b\<lparr>b_poll := ep_poll_add (b_poll b) (ef_fd ev) what, b_fd_count := b_fd_count b + 1\<rparr>)
      else if what = 0
      then set_slot (ef_fd ev) \<lparr>fi_mask = 0, fi_file = None\<rparr>
        (b\<lparr>b_poll := ep_poll_del (b_poll b) (ef_fd ev), b_fd_count := b_fd_count b - 1\<rparr>)
      else set_slot (ef_fd ev) (?s\<lparr>fi_mask := what\<rparr>) (b\<lparr>b_poll := ep_poll_mod (b_poll b) (ef_fd ev) what\<rparr>)"
    have "polls_ok (b_files ?b1) (b_poll ?b1) (b_fd_count ?b1) (h_file ?b1)"
      using polls_ok_detect [of "b_files b" "b_poll b" "b_fd_count b" "h_file b" n f ev] assms(1,2) n False
      by (auto simp: set_slot_def base_wf_def)
    then have "base_wf ?b1" using assms(1) by (auto simp: base_wf_def set_slot_def)
    moreover have "h_file ?b1 f = Some ev" using assms(2) by (simp add: set_slot_def)
    ultimately obtain b' y where "ep_file_set_timer f what timeout ?b1 = Inr b'" "base_wf b'"
      "h_file b' = (h_file ?b1)(f \<mapsto> y)" "ef_fd y = ef_fd ev" "ef_cb y = ef_cb ev" "h_timer b' = h_timer ?b1"
      "timeout < 0 \<longrightarrow> ef_timer_info y = ef_timer_info ev"
      "b_files b' = b_files ?b1" "ep_base.more b' = ep_base.more ?b1"
      using ep_file_set_timer_ok by blast
    with assms(2) slot False n show ?thesis
      by (auto simp: ep_file_detect_def Let_def set_slot_def intro!: exI [of _ y])
  qed
qed

lemma ep_file_free_ok:
  assumes "base_wf b" and "h_file b f = Some ev" and "file_at b f (ef_fd ev)"
  shows "\<exists>b'. ep_file_free f b = Inr b' \<and> base_wf b' \<and> h_file b' = (h_file b)(f := None)
    \<and> h_timer b' = h_timer b \<and> length (b_files b') = length (b_files b)
    \<and> fi_mask (b_files b' ! nat (ef_fd ev)) = 0 \<and> ep_base.more b' = ep_base.more b"
proof -
  let ?y = "ev\<lparr>ef_timer_info := None\<rparr>"
  have "owns (h_info b) EP_TIMER_FD f (ef_timer_info ev)" using assms by (simp add: base_wf_def timers_ok_def)
  from release_info_ok [OF assms(1) this] obtain b1 where b1: "release_info (ef_timer_info ev) b = Inr b1"
    "h_timer b1 = h_timer b" "h_file b1 = h_file b" "b_files b1 = b_files b" "b_poll b1 = b_poll b"
    "b_fd_count b1 = b_fd_count b" "b_next b1 = b_next b" "ep_base.more b1 = ep_base.more b"
    "list_ok (b_list_timers b1) (h_info b1)" "h_info b1 = drop_info (ef_timer_info ev) (h_info b)"
    by blast
  have "timers_ok (h_info b1) (h_timer b) ((h_file b)(f \<mapsto> ?y))"
    unfolding b1(10) using assms by (intro timers_ok_detach_file) (auto simp: base_wf_def info_of_file_def)
  moreover have "polls_ok (b_files b) (b_poll b) (b_fd_count b) ((h_file b)(f \<mapsto> ?y))"
    using assms by (intro polls_ok_file [where x = ev]) (auto simp: base_wf_def)
  ultimately have "base_wf (put_file f ?y b1)"
    using assms b1 by (auto simp: base_wf_def put_file_def fresh_ok_def drop_info_None)
  moreover have "file_at (put_file f ?y b1) f (ef_fd ?y)" "h_file (put_file f ?y b1) f = Some ?y"
    using assms(3) b1(3,4) by (auto simp: file_at_def put_file_def)
  ultimately obtain b2 z where b2: "ep_file_detect f 0 (- 1) (put_file f ?y b1) = Inr b2" "base_wf b2"
    "h_file b2 = (h_file (put_file f ?y b1))(f \<mapsto> z)" "ef_fd z = ef_fd ev" "h_timer b2 = h_timer (put_file f ?y b1)"
    "length (b_files b2) = length (b_files (put_file f ?y b1))" "fi_mask (b_files b2 ! nat (ef_fd ev)) = 0"
    "ep_base.more b2 = ep_base.more (put_file f ?y b1)" "ef_timer_info z = None"
    using ep_file_detect_ok [of "put_file f ?y b1" f ?y 0 "- 1"] by auto
  have z: "h_file b2 f = Some z" using b2(3) by simp
  have "timers_ok (h_info b2) (h_timer b2) ((h_file b2)(f := None))"
    using timers_ok_detach_file [of "h_info b2" "h_timer b2" "h_file b2" f z None] b2(2,9) z
    by (simp add: base_wf_def info_of_file_def drop_info_def)
  moreover have "polls_ok (b_files b2) (b_poll b2) (b_fd_count b2) ((h_file b2)(f := None))"
    using b2(2,4,7) z assms(3) by (intro polls_ok_drop_file [where ev = z]) (auto simp: base_wf_def file_at_def)
  ultimately have "base_wf (b2\<lparr>h_file := (h_file b2)(f := None)\<rparr>)"
    using b2(2) by (auto simp: base_wf_def fresh_ok_def)
  moreover have "(h_file b2)(f := None) = (h_file b)(f := None)"
    using b2(3) b1(3) by (simp add: put_file_def)
  ultimately show ?thesis
    using assms(2) b1 b2 by (auto simp: ep_file_free_def put_file_def)
qed

end
