(* ===== verification/Ep_Loop.thy ===== *)
theory Ep_Loop
  imports Ep_Inv
begin

text \<open>
  What the event loop does with its callbacks.  The locale \<open>ep_user\<close> is the contract a user of the loop
  signs: its callbacks keep the invariant.  Under it a dispatch keeps the invariant, never takes the branch for
  a descriptor without a file, and hands every event to the live file registered for it.  The second half is about
  time: which timers a check fires, and how long the loop sleeps.
\<close>

section \<open>The contract of the callbacks\<close>

locale ep_user =
  fixes H :: "('c, ('c, 'z) base) ep_handlers"
  assumes file_cb: "base_wf b \<Longrightarrow> h_file b f = Some ev \<Longrightarrow> on_file H (ef_cb ev) f (ef_fd ev) what b = Inr b' \<Longrightarrow> base_wf b'"
    and timer_cb: "base_wf b \<Longrightarrow> h_timer b t = Some x \<Longrightarrow> on_timer H (et_cb x) t b = Inr b' \<Longrightarrow> base_wf b'"
begin

lemma fire_info_wf:
  assumes "base_wf b" and "h_info b p = Some pos" and "fire_info H p pos b = Inr b'"
  shows "base_wf b'"
proof -
  obtain b1 where b1: "ep_timer_info_del p b = Inr b1" "base_wf b1" "only_list b b1"
    using ep_timer_info_del_ok [OF assms(1,2)] by blast
  show ?thesis
  proof (cases "ti_type pos")
    case EP_TIMER_TIMER
    with assms(3) b1 timer_cb show ?thesis by (auto simp: fire_info_def rbind_eq_Inr)
  next
    case EP_TIMER_FD
    with assms(3) b1 obtain fl b2 s where b2: "h_file b1 (ti_info pos) = Some fl"
      "on_file H (ef_cb fl) (ti_info pos) (ef_fd fl) EP_TIMEOUT b1 = Inr b2" "fd_slot b2 (ef_fd fl) = Inr s"
      and rest: "(case fi_file s of None \<Rightarrow> Inr b2 | Some g \<Rightarrow> rbind (look (h_file b2) g) (\<lambda>file2.
          if ef_timeout file2 \<ge> 0
          then let (q, b3) = (case ef_timer_info file2 of Some q \<Rightarrow> (q, b2)
                              | None \<Rightarrow> ep_timer_info_create g EP_TIMER_FD b2);
                   b4 = put_file g (file2\<lparr>ef_timer_info := Some q\<rparr>) b3
               in rbind (ep_timer_info_add q (ef_timeout file2) b4) (\<lambda>(rc, b5). Inr b5)
          else Inr b2)) = Inr b'"
      by (auto simp: fire_info_def rbind_eq_Inr)
    have wf2: "base_wf b2" using file_cb b1(2) b2(1,2) by blast
    show ?thesis
    proof (cases "fi_file s")
      case None
      with rest wf2 show ?thesis by simp
    next
      case (Some g)
      with rest obtain file2 where f2: "h_file b2 g = Some file2" by (auto simp: rbind_eq_Inr)
      obtain q b3 where q: "(case ef_timer_info file2 of Some q \<Rightarrow> (q, b2) | None \<Rightarrow> ep_timer_info_create g EP_TIMER_FD b2) = (q, b3)"
        by fastforce
      note at = file_info_attach_ok [OF wf2 f2 q]
      obtain i where i: "h_info (put_file g (file2\<lparr>ef_timer_info := Some q\<rparr>) b3) q = Some i"
        using at(2) by (auto simp: put_file_def)
      obtain rc b5 where "ep_timer_info_add q (ef_timeout file2) (put_file g (file2\<lparr>ef_timer_info := Some q\<rparr>) b3) = Inr (rc, b5)"
        "base_wf b5" using ep_timer_info_add_ok [OF at(1) i] by blast
      then show ?thesis
        using rest Some f2 q wf2 by (cases "0 \<le> ef_timeout file2") (simp_all add: Let_def)
    qed
  qed
qed

lemma check_loop_wf: "base_wf b \<Longrightarrow> ep_timer_check_loop H n ms c b = Some (Inr b') \<Longrightarrow> base_wf b'"
proof (induction n arbitrary: c b)
  case 0
  then show ?case by (cases c) auto
next
  case (Suc n)
  show ?case
  proof (cases c)
    case (At p)
    then obtain pos where "h_info b p = Some pos" using Suc.prems by (auto simp: look_def split: option.splits)
    with At Suc.prems Suc.IH fire_info_wf show ?thesis
      by (fastforce simp: Let_def split: if_splits sum.splits)
  qed (use Suc.prems in auto)
qed

lemma timer_check_wf: "base_wf b \<Longrightarrow> ep_timer_check H n b = Some (Inr (rc, b')) \<Longrightarrow> base_wf b'"
  by (auto simp: ep_timer_check_def rbind_eq_Inr dest: check_loop_wf)

lemma polled_file:
  assumes "base_wf b" and "fd \<in> dom (b_poll b)"
  shows "\<exists>s f ev. fd_slot b fd = Inr s \<and> fi_file s = Some f \<and> h_file b f = Some ev \<and> ef_fd ev = fd"
proof -
  have po: "polls_ok (b_files b) (b_poll b) (b_fd_count b) (h_file b)" using assms(1) by (simp add: base_wf_def)
  then have "fd \<in> {0 ..< int (length (b_files b))}" using assms(2) by (auto simp: polls_ok_def)
  then obtain n where n: "fd = int n" "n < length (b_files b)" by (cases fd) auto
  moreover have "slot_ok (b_poll b) (h_file b) n (b_files b ! n)" using po n by (simp add: polls_ok_def)
  ultimately show ?thesis using assms(2) by (auto simp: slot_ok_def fd_slot_def split: if_splits)
qed

text \<open>An event of a watched descriptor goes to its live file; the other branch is dead.\<close>

lemma dispatch_event_delivers:
  assumes "base_wf b" and "fd \<in> dom (b_poll b)"
  shows "\<exists>f ev. h_file b f = Some ev \<and> ef_fd ev = fd
    \<and> dispatch_events H [(fd, what)] b = on_file H (ef_cb ev) f fd what b"
  using polled_file [OF assms] by (fastforce simp: rbind_def split: sum.split)

lemma dispatch_events_wf:
  assumes "base_wf b" and "set (map fst evs) \<subseteq> dom (b_poll b)" and "length evs \<le> 1"
    and "dispatch_events H evs b = Inr b'"
  shows "base_wf b'"
proof (cases evs)
  case Nil
  with assms show ?thesis by simp
next
  case (Cons e es)
  then obtain fd what where e: "evs = [(fd, what)]" using assms(3) by (cases e) auto
  with assms obtain f ev where "h_file b f = Some ev" "ef_fd ev = fd" "on_file H (ef_cb ev) f fd what b = Inr b'"
    using dispatch_event_delivers [of b fd what] by auto
  with assms(1) file_cb show ?thesis by blast
qed

lemma dispatch_round_wf:
  assumes "base_wf b" and "set (map fst evs) \<subseteq> dom (b_poll b)" and "dispatch_round H n evs now b = Some (Inr b')"
  shows "base_wf b'"
proof -
  let ?e = "ep_poll_dispatch evs" and ?b = "b\<lparr>b_now := now\<rparr>"
  obtain b1 rc where b1: "dispatch_events H ?e ?b = Inr b1" "ep_timer_check H n b1 = Some (Inr (rc, b'))"
    using assms(3) by (auto simp: dispatch_round_def rbind_eq_Inr split: sum.splits)
  have "set (map fst ?e) \<subseteq> dom (b_poll ?b)" "length ?e \<le> 1"
    using assms(2) by (cases evs; auto simp: ep_poll_dispatch_def)+
  with b1 assms(1) dispatch_events_wf [of ?b ?e b1] timer_check_wf show ?thesis by auto
qed

end

section \<open>Reachable states\<close>

text \<open>One call of the interface of \<^verbatim>\<open>ep.h\<close>, or a tick of the clock.\<close>

inductive ep_step :: "('c, 'z) base \<Rightarrow> ('c, 'z) base \<Rightarrow> bool" where
  tick: "ep_step b (b\<lparr>b_now := t\<rparr>)"
| timer_new: "ep_timer_new cb b = (t, b') \<Longrightarrow> ep_step b b'"
| timer_add: "ep_timer_add t ms b = Inr b' \<Longrightarrow> ep_step b b'"
| timer_del: "ep_timer_del t b = Inr b' \<Longrightarrow> ep_step b b'"
| timer_free: "ep_timer_free t b = Inr b' \<Longrightarrow> ep_step b b'"
| file_create: "ep_file_create fd cb b = Inr (f, b') \<Longrightarrow> ep_step b b'"
| file_detect: "ep_file_detect f what timeout b = Inr b' \<Longrightarrow> ep_step b b'"
| file_free: "ep_file_free f b = Inr b' \<Longrightarrow> ep_step b b'"
| stop: "ep_step b (ep_base_stop b)"

lemma fd_slot_Inr: "fd_slot b fd = Inr s \<Longrightarrow> 0 \<le> fd \<and> fd < int (length (b_files b))"
  by (simp add: fd_slot_def split: if_splits)

lemma ep_file_detect_file_at:
  "ep_file_detect f what timeout b = Inr b' \<Longrightarrow> \<exists>ev. h_file b f = Some ev \<and> file_at b f (ef_fd ev)"
  unfolding ep_file_detect_def Let_def rbind_eq_Inr look_eq_Inr file_at_def using fd_slot_Inr by blast

lemma ep_file_free_file_at:
  assumes "base_wf b" and "ep_file_free f b = Inr b'"
  shows "\<exists>ev. h_file b f = Some ev \<and> file_at b f (ef_fd ev)"
proof -
  obtain ev b1 b2 where ev: "h_file b f = Some ev" "release_info (ef_timer_info ev) b = Inr b1"
    "ep_file_detect f 0 (- 1) (put_file f (ev\<lparr>ef_timer_info := None\<rparr>) b1) = Inr b2"
    using assms(2) by (auto simp: ep_file_free_def rbind_eq_Inr)
  have "owns (h_info b) EP_TIMER_FD f (ef_timer_info ev)" using assms(1) ev(1) by (simp add: base_wf_def timers_ok_def)
  from release_info_ok [OF assms(1) this] ev(2) have "b_files b1 = b_files b" by auto
  with ep_file_detect_file_at [OF ev(3)] ev(1) show ?thesis by (auto simp: file_at_def put_file_def)
qed

lemma look_first: "rbind (look h p) k = Inr y \<Longrightarrow> \<exists>x. h p = Some x"
  by (auto simp: rbind_eq_Inr)

lemma ep_timer_add_wf:
  assumes "base_wf b" and "ep_timer_add t ms b = Inr b'"
  shows "base_wf b'"
proof -
  obtain x where "h_timer b t = Some x" using assms(2) unfolding ep_timer_add_def by (blast dest: look_first)
  from ep_timer_add_ok [OF assms(1) this, of ms] assms(2) show ?thesis by auto
qed

lemma ep_timer_del_wf:
  assumes "base_wf b" and "ep_timer_del t b = Inr b'"
  shows "base_wf b'"
proof -
  obtain x where "h_timer b t = Some x" using assms(2) unfolding ep_timer_del_def by (blast dest: look_first)
  from ep_timer_del_ok [OF assms(1) this] assms(2) show ?thesis by auto
qed

lemma ep_timer_free_wf:
  assumes "base_wf b" and "ep_timer_free t b = Inr b'"
  shows "base_wf b'"
proof -
  obtain x where "h_timer b t = Some x" using assms(2) unfolding ep_timer_free_def by (blast dest: look_first)
  from ep_timer_free_ok [OF assms(1) this] assms(2) show ?thesis by auto
qed

lemma ep_file_create_wf:
  assumes "base_wf b" and "ep_file_create fd cb b = Inr (f, b')"
  shows "base_wf b'"
proof -
  obtain s where "fd_slot b fd = Inr s" using assms(2) unfolding ep_file_create_def rbind_eq_Inr by blast
  from fd_slot_Inr [OF this] ep_file_create_ok [OF assms(1), of fd cb] assms(2) show ?thesis by auto
qed

lemma ep_file_detect_wf:
  assumes "base_wf b" and "ep_file_detect f what timeout b = Inr b'"
  shows "base_wf b'"
proof -
  obtain ev where ev: "h_file b f = Some ev" "file_at b f (ef_fd ev)"
    using ep_file_detect_file_at [OF assms(2)] by blast
  from ep_file_detect_ok [OF assms(1) ev, of what timeout] assms(2) show ?thesis by auto
qed

lemma ep_file_free_wf:
  assumes "base_wf b" and "ep_file_free f b = Inr b'"
  shows "base_wf b'"
proof -
  obtain ev where ev: "h_file b f = Some ev" "file_at b f (ef_fd ev)"
    using ep_file_free_file_at [OF assms] by blast
  from ep_file_free_ok [OF assms(1) ev] assms(2) show ?thesis by auto
qed

lemma ep_timer_new_wf: "base_wf b \<Longrightarrow> ep_timer_new cb b = (t, b') \<Longrightarrow> base_wf b'"
  by (drule (1) ep_timer_new_ok) (rule conjunct1)

text \<open>The facts with which a user of the loop shows that its callbacks keep the invariant.\<close>

lemmas ep_wf = ep_timer_new_wf ep_timer_add_wf ep_timer_del_wf ep_timer_free_wf
  ep_file_create_wf ep_file_detect_wf ep_file_free_wf

lemma ep_step_wf: "ep_step b b' \<Longrightarrow> base_wf b \<Longrightarrow> base_wf b'"
proof (induction rule: ep_step.induct)
  case (tick b t)
  then show ?case by (simp only: base_wf_clock)
next
  case (stop b)
  then show ?case by (simp only: base_wf_stop)
qed (erule (1) ep_wf)+

lemma ep_reachable_wf: "ep_step\<^sup>*\<^sup>* (ep_base_create now) b \<Longrightarrow> base_wf b"
  by (induction rule: rtranclp_induct) (auto simp: base_wf_create intro: ep_step_wf)





section \<open>Rules for the users of the loop\<close>

lemma base_wf_next: "base_wf b \<Longrightarrow> base_wf (b\<lparr>b_next := Suc (b_next b)\<rparr>)"
  by (auto simp: base_wf_def fresh_ok_def)

text \<open>\<open>wf_rules\<close>: what the steps of a computation return, given a well-formed base.\<close>

named_theorems wf_rules \<open>operations keep the invariant of the event loop\<close>

lemma read_rules [wf_rules]:
  "res_all (\<lambda>_. True) (look h p)" "res_all (\<lambda>_. True) (ep_file_get_detect f b)"
  "res_all (\<lambda>_. True) (ep_file_get_timeout f b)" "res_all (\<lambda>_. True) (cassert c)"
  by (auto intro: res_allI)

lemma ep_rules [wf_rules]:
  "base_wf b \<Longrightarrow> res_all base_wf (ep_file_detect f what t b)"
  "base_wf b \<Longrightarrow> res_all base_wf (ep_file_free f b)"
  "base_wf b \<Longrightarrow> res_all (\<lambda>(f, b). base_wf b) (ep_file_create fd c b)"
  "base_wf b \<Longrightarrow> res_all base_wf (ep_timer_add tm ms b)"
  "base_wf b \<Longrightarrow> res_all base_wf (ep_timer_del tm b)"
  "base_wf b \<Longrightarrow> res_all base_wf (ep_timer_free tm b)"
  by (blast intro: res_allI res_all_pairI ep_wf)+

lemma res_all_case3: "(\<And>x y z. res_all P (k x y z)) \<Longrightarrow> res_all P (case t of (x, y, z) \<Rightarrow> k x y z)"
  by (cases t) simp

lemmas wf_steps = res_all_bind_pair res_all_bind res_all_if

lemma res_all_True: "res_all (\<lambda>_. True) r"
  by (rule res_allI) simp

lemma res_all_option:
  "(t = None \<Longrightarrow> res_all P r) \<Longrightarrow> (\<And>x. t = Some x \<Longrightarrow> res_all P (k x)) \<Longrightarrow> res_all P (case t of None \<Rightarrow> r | Some x \<Rightarrow> k x)"
  by (cases t) simp_all

lemma res_all_pair: "(\<And>x y. t = (x, y) \<Longrightarrow> res_all P (k x y)) \<Longrightarrow> res_all P (case t of (x, y) \<Rightarrow> k x y)"
  by (cases t) simp

lemma base_wf_Inr: "base_wf b \<Longrightarrow> res_all base_wf (Inr b)"
  by simp

lemmas wf_all = wf_steps res_all_option res_all_pair base_wf_Inr

text \<open>A file that is live and can be asked for its mask and its timeout stays so when it is watched.\<close>

definition watched :: "('c, 'z) base \<Rightarrow> nat \<Rightarrow> bool" where
  "watched b f \<longleftrightarrow> base_wf b \<and> (\<exists>ev. h_file b f = Some ev \<and> file_at b f (ef_fd ev)
     \<and> fi_file (b_files b ! nat (ef_fd ev)) \<in> {None, Some f})"

lemma watched_get:
  assumes "watched b f"
  shows "\<exists>m t. ep_file_get_detect f b = Inr m \<and> ep_file_get_timeout f b = Inr t"
proof -
  obtain ev where "h_file b f = Some ev" "file_at b f (ef_fd ev)" "fi_file (b_files b ! nat (ef_fd ev)) \<in> {None, Some f}"
    using assms by (auto simp: watched_def)
  moreover from this have "fd_slot b (ef_fd ev) = Inr (b_files b ! nat (ef_fd ev))" by (auto simp: file_at_def fd_slot_def)
  ultimately show ?thesis by (auto simp: ep_file_get_detect_def ep_file_get_timeout_def look_def)
qed

lemma timer_info_files:
  "b_files b = F \<Longrightarrow> res_all (\<lambda>b. b_files b = F) (ep_timer_info_del p b)"
  "b_files b = F \<Longrightarrow> res_all (\<lambda>(rc, b). b_files b = F) (ep_timer_info_add p ms b)"
  "b_files (snd (ep_timer_info_create a ty b)) = b_files b"
  by (auto simp: ep_timer_info_del_def ep_timer_info_add_def ep_timer_info_create_def put_info_def Let_def rbind_eq_Inr
      intro!: res_allI split: if_splits)

lemma ep_file_set_timer_files: "res_all (\<lambda>b'. b_files b' = b_files b) (ep_file_set_timer f what t b)"
proof -
  have "b_files (snd (case i of Some p \<Rightarrow> (p, put_file f y b) | None \<Rightarrow> ep_timer_info_create f EP_TIMER_FD (put_file f y b))) = b_files b" for i y
    by (cases i) (simp_all add: timer_info_files put_file_def)
  then show ?thesis
    unfolding ep_file_set_timer_def Let_def split_beta
    by (intro res_all_bind [where Q = "\<lambda>_. True"] res_all_if res_all_bind [OF timer_info_files(1)] res_all_bind [OF timer_info_files(2)])
      (auto simp: put_file_def timer_info_files res_all_def [of "\<lambda>_. True"] split: option.split sum.split)
qed

lemma watched_detect:
  assumes "watched b f"
  shows "\<exists>b'. ep_file_detect f what t b = Inr b' \<and> watched b' f \<and> ep_base.more b' = ep_base.more b
    \<and> (what \<noteq> 0 \<longrightarrow> ep_file_get_detect f b' = Inr what)"
proof -
  obtain ev where ev: "base_wf b" "h_file b f = Some ev" "file_at b f (ef_fd ev)" "fi_file (b_files b ! nat (ef_fd ev)) \<in> {None, Some f}"
    using assms by (auto simp: watched_def)
  obtain b' y where b': "ep_file_detect f what t b = Inr b'" "base_wf b'" "h_file b' = (h_file b)(f \<mapsto> y)" "ef_fd y = ef_fd ev"
    "length (b_files b') = length (b_files b)" "fi_mask (b_files b' ! nat (ef_fd ev)) = what" "ep_base.more b' = ep_base.more b"
    using ep_file_detect_ok [OF ev(1-3), of what t] by blast
  have "fi_file (b_files b' ! nat (ef_fd ev)) \<in> {None, Some f}"
    using b'(1) ev by (auto simp: ep_file_detect_def Let_def set_slot_def file_at_def fd_slot_def dest!: res_allD [OF ep_file_set_timer_files] split: if_splits)
  moreover have "ep_file_get_detect f b' = Inr what" if "what \<noteq> 0"
  proof -
    have n: "0 \<le> ef_fd ev" "nat (ef_fd ev) < length (b_files b')" using ev(3) b'(5) by (auto simp: file_at_def)
    then have "slot_ok (b_poll b') (h_file b') (nat (ef_fd ev)) (b_files b' ! nat (ef_fd ev))"
      using b'(2) by (simp add: base_wf_def polls_ok_def)
    with that b'(3,4,6) n show ?thesis by (auto simp: ep_file_get_detect_def fd_slot_def slot_ok_def)
  qed
  ultimately show ?thesis using b' ev(3) by (auto simp: watched_def file_at_def)
qed

section \<open>Which timers fire\<close>

text \<open>A handler whose timer callbacks only record that they ran, in the part of the state that is the user's.\<close>

definition logging :: "('c, ('c, nat list) base) ep_handlers" where
  "logging = \<lparr>on_file = (\<lambda>c f fd what b. Inr b), on_timer = (\<lambda>c t b. Inr (ep_base.more_update (\<lambda>l. l @ [t]) b))\<rparr>"

definition due :: "('c, 'z) base \<Rightarrow> nat \<Rightarrow> bool" where
  "due b p \<longleftrightarrow> (case h_info b p of None \<Rightarrow> False | Some i \<Rightarrow> ti_timeout_ms i \<le> get_ms b)"

definition owner :: "('c, 'z) base \<Rightarrow> nat \<Rightarrow> nat" where
  "owner b p = (case h_info b p of None \<Rightarrow> 0 | Some i \<Rightarrow> ti_info i)"

definition only_timers :: "('c, 'z) base \<Rightarrow> bool" where
  "only_timers b \<longleftrightarrow> (\<forall>p i. h_info b p = Some i \<longrightarrow> ti_type i = EP_TIMER_TIMER)"

lemma fire_logging:
  assumes "base_wf b" and "only_timers b" and "h_info b p = Some i" and "b_list_timers b = p # ps"
  shows "\<exists>b1. fire_info logging p i b = Inr b1 \<and> base_wf b1 \<and> only_timers b1 \<and> b_list_timers b1 = ps
    \<and> ep_base.more b1 = ep_base.more b @ [ti_info i] \<and> b_now b1 = b_now b \<and> h_timer b1 = h_timer b
    \<and> (\<forall>q. q \<noteq> p \<longrightarrow> h_info b1 q = h_info b q)"
proof -
  obtain b1 where b1: "ep_timer_info_del p b = Inr b1" "base_wf b1" "only_list b b1"
    "b_list_timers b1 = remove1 p (b_list_timers b)" "h_info b1 p = Some (i\<lparr>ti_pending := False\<rparr>)"
    "\<forall>q. q \<noteq> p \<longrightarrow> h_info b1 q = h_info b q"
    using ep_timer_info_del_ok [OF assms(1,3)] by blast
  have ty: "ti_type i = EP_TIMER_TIMER" using assms(2,3) by (auto simp: only_timers_def)
  have "owner_ok (h_timer b) (h_file b) p i" using assms(1,3) by (auto simp: base_wf_def intro: owner_okD)
  then obtain x where x: "h_timer b (ti_info i) = Some x" using ty by (auto simp: owner_ok_def)
  have "only_timers b1"
    unfolding only_timers_def
  proof (intro allI impI)
    fix q j assume "h_info b1 q = Some j"
    then show "ti_type j = EP_TIMER_TIMER"
      using b1(5,6) ty assms(2) by (cases "q = p") (auto simp: only_timers_def)
  qed
  with b1 ty x assms(4) show ?thesis
    by (auto simp: fire_info_def logging_def only_list_def base_wf_def only_timers_def)
qed

lemma check_loop_logging:
  assumes "base_wf b" and "only_timers b" and "length (b_list_timers b) \<le> n"
  shows "\<exists>b'. ep_timer_check_loop logging n (get_ms b) (first_in (b_list_timers b)) b = Some (Inr b')
    \<and> b_list_timers b' = dropWhile (due b) (b_list_timers b) \<and> base_wf b' \<and> h_timer b' = h_timer b
    \<and> ep_base.more b' = ep_base.more b @ map (owner b) (takeWhile (due b) (b_list_timers b))"
  using assms
proof (induction "b_list_timers b" arbitrary: b n)
  case Nil
  then show ?case by (simp add: first_in_def)
next
  case (Cons p ps)
  then obtain m where n: "n = Suc m" by (cases n) auto
  have l: "b_list_timers b = p # ps" using Cons(2) by simp
  have lo: "list_ok (p # ps) (h_info b)" using Cons.prems(1) l by (simp add: base_wf_def)
  then obtain i where i: "h_info b p = Some i" by (auto simp: list_ok_def)
  have np: "p \<notin> set ps" using lo by (simp add: list_ok_def)
  show ?case
  proof (cases "due b p")
    case False
    with i l n Cons.prems(1) show ?thesis by (simp add: first_in_def due_def)
  next
    case True
    obtain b1 where b1: "fire_info logging p i b = Inr b1" "base_wf b1" "only_timers b1" "b_list_timers b1 = ps"
      "ep_base.more b1 = ep_base.more b @ [ti_info i]" "b_now b1 = b_now b" "h_timer b1 = h_timer b"
      "\<forall>q. q \<noteq> p \<longrightarrow> h_info b1 q = h_info b q"
      using fire_logging [OF Cons.prems(1,2) i l] by blast
    have ms: "get_ms b1 = get_ms b" using b1(6) by (simp add: get_ms_def)
    have "h_info b1 q = h_info b q" if "q \<in> set ps" for q using that np b1(8) by metis
    then have same: "due b1 q = due b q" "owner b1 q = owner b q" if "q \<in> set ps" for q
      using that ms by (simp_all add: due_def owner_def split: option.split)
    have nx: "next_in p (b_list_timers b) = first_in ps" using l by (simp add: first_in_def)
    have "\<exists>b'. ep_timer_check_loop logging m (get_ms b1) (first_in (b_list_timers b1)) b1 = Some (Inr b')
      \<and> b_list_timers b' = dropWhile (due b1) (b_list_timers b1) \<and> base_wf b' \<and> h_timer b' = h_timer b1
      \<and> ep_base.more b' = ep_base.more b1 @ map (owner b1) (takeWhile (due b1) (b_list_timers b1))"
      using Cons.prems(3) n l b1(2-4) by (intro Cons.hyps(1)) auto
    moreover have "dropWhile (due b1) ps = dropWhile (due b) ps" "takeWhile (due b1) ps = takeWhile (due b) ps"
      using same by (auto intro: dropWhile_cong takeWhile_cong)
    moreover have "map (owner b1) (takeWhile (due b) ps) = map (owner b) (takeWhile (due b) ps)"
      using same(2) set_takeWhileD [of _ "due b" ps] by (intro map_cong) auto
    moreover have "ti_timeout_ms i \<le> get_ms b" using True i by (simp add: due_def)
    ultimately show ?thesis
      using n l i b1 nx ms True by (auto simp: first_in_def [of "p # ps"] Let_def owner_def)
  qed
qed



section \<open>Where a new timer goes\<close>

lemma find_pos_add_later:
  "\<forall>q \<in> set ps. \<exists>j. h q = Some j \<and> millsec < ti_timeout_ms j \<Longrightarrow> ps \<noteq> [] \<Longrightarrow>
     find_pos_add h millsec ps i acc = Inr (Some (i + length ps - 1))"
proof (induction ps arbitrary: i acc)
  case (Cons q ps)
  then obtain j where j: "h q = Some j" "millsec < ti_timeout_ms j" by auto
  show ?case
  proof (cases ps)
    case Nil
    with j show ?thesis by simp
  next
    case (Cons r rs)
    with j Cons.IH [of "Suc i"] Cons.prems show ?thesis by simp
  qed
qed simp

text \<open>
  The insertion compares the absolute times of the list with the relative delay of the new timer.
  When every pending time exceeds the delay, as it does while the clock is positive, a new timer goes right before
  the last entry whatever its own time: the list is not sorted, and the timer added first stays last.
\<close>

lemma ep_timer_info_add_before_last:
  assumes "h_info b p = Some i" and "\<not> ti_pending i" and "b_list_timers b \<noteq> []" and "p \<notin> set (b_list_timers b)"
    and "\<forall>q \<in> set (b_list_timers b). \<exists>j. h_info b q = Some j \<and> millsec < ti_timeout_ms j"
  shows "\<exists>b'. ep_timer_info_add p millsec b = Inr (0, b')
    \<and> b_list_timers b' = butlast (b_list_timers b) @ [p, last (b_list_timers b)]"
proof -
  let ?l = "b_list_timers b" and ?h = "(h_info b)(p \<mapsto> i\<lparr>ti_pending := True, ti_timeout_ms := int32 (get_ms b + millsec)\<rparr>)"
  have "\<forall>q \<in> set ?l. \<exists>j. ?h q = Some j \<and> millsec < ti_timeout_ms j" using assms(4,5) by auto
  then have "find_pos_add ?h millsec ?l 0 None = Inr (Some (length ?l - 1))"
    using find_pos_add_later [of ?l ?h millsec 0 None] assms(3) by simp
  moreover have "take (length ?l - 1) ?l = butlast ?l" by (simp add: butlast_conv_take)
  moreover have "drop (length ?l - 1) ?l = [last ?l]"
    using assms(3) by (metis append_butlast_last_id append_eq_conv_conj length_butlast)
  ultimately show ?thesis
    using assms(1,2) by (simp add: ep_timer_info_add_def put_info_def insert_at_def)
qed


section \<open>How long the loop sleeps\<close>

text \<open>
  The loop sleeps until the head of the timer list is due; when the head is overdue already it passes
  \<open>- 1\<close> to \<^verbatim>\<open>epoll_wait\<close> and sleeps until some descriptor has an event, however long the timer has been due.
\<close>

lemma ep_dispatch_sleep:
  assumes "b_list_timers b = p # ps" and "h_info b p = Some i"
    and "- (2 ^ 31) \<le> ti_timeout_ms i - get_ms b" and "ti_timeout_ms i - get_ms b < 2 ^ 31"
  shows "dispatch_timeout b = Inr (if ti_timeout_ms i < get_ms b then - 1 else ti_timeout_ms i - get_ms b)"
proof -
  have "int32 (ti_timeout_ms i - get_ms b) = ti_timeout_ms i - get_ms b"
    using assms(3,4) by (simp add: int32_def signed_take_bit_int_eq_self)
  with assms(1,2) show ?thesis by (simp add: dispatch_timeout_def ep_timer_get_next_def)
qed

section \<open>Callbacks the loop does not survive\<close>

text \<open>A handler that frees the timer its callback value names.\<close>

definition reaping :: "(nat option, (nat option, 'z) base) ep_handlers" where
  "reaping = \<lparr>on_file = (\<lambda>c f fd what b. Inr b),
     on_timer = (\<lambda>c t b. case c of None \<Rightarrow> Inr b | Some u \<Rightarrow> ep_timer_free u b)\<rparr>"

text \<open>
  The check saves the successor of the entry it fires.  When the callback of a timer frees the next
  timer of the list, the loop goes on with the freed entry.
\<close>

lemma ep_timer_check_stale_successor:
  "let b0 = (ep_base_create 1000 :: nat option ep_base);
       (t, b1) = ep_timer_new None b0; (u, b2) = ep_timer_new (Some t) b1
   in \<exists>b3 b4. ep_timer_add t 10 b2 = Inr b3 \<and> ep_timer_add u 10 b3 = Inr b4
     \<and> ep_timer_check reaping 9 (b4\<lparr>b_now := 2000\<rparr>) = Some (Inl Bad_Pointer)"
  by (simp add: ep_base_create_def ep_timer_new_def ep_timer_add_def ep_timer_info_create_def
      put_timer_def put_info_def ep_timer_info_add_def insert_at_def get_ms_def int32_def ep_timer_check_def
      first_in_def reaping_def eval_nat_numeral look_def Let_def fire_info_def ep_timer_info_del_def
      ep_timer_free_def release_info_def del: INIT_POOL_SIZE_def)

text \<open>
  A file that is freed without ever having been watched leaves its address in the descriptor table.
\<close>

lemma ep_file_free_dangling:
  assumes "base_wf b" and "0 \<le> fd" and "fd < int (length (b_files b))" and "fi_mask (b_files b ! nat fd) = 0"
  shows "\<exists>f b1 b2. ep_file_create fd cb b = Inr (f, b1) \<and> ep_file_free f b1 = Inr b2
    \<and> h_file b2 f = None \<and> fi_file (b_files b2 ! nat fd) = Some f"
  using assms
  by (simp add: ep_file_create_def fd_slot_def Let_def put_defs ep_file_free_def release_info_def ep_file_detect_def
      nat_less_iff)

end
