(* ===== verification/Byte_Sink.thy ===== *)
theory Byte_Sink
  imports Prelude
begin

text \<open>
  The interface of everything that takes bytes: while the sink is in order, putting a piece that it accepts returns, keeps it in
  order and appends exactly the piece to what has gone out.  The stream of a client and the connection of a relay are such sinks.
\<close>

locale byte_sink =
  fixes good :: "char list \<Rightarrow> bool" and ok :: "'s \<Rightarrow> bool" and out :: "'s \<Rightarrow> char list" and put :: "char list \<Rightarrow> 's \<Rightarrow> 's res"
  assumes put_ok: "ok s \<Longrightarrow> good d \<Longrightarrow> \<exists>s'. put d s = Inr s' \<and> ok s' \<and> out s' = out s @ d"
begin

primrec puts :: "char list list \<Rightarrow> 's \<Rightarrow> 's res" where
  "puts [] s = Inr s"
| "puts (d # ds) s = rbind (put d s) (puts ds)"

lemma puts_ok: "ok s \<Longrightarrow> list_all good ds \<Longrightarrow> \<exists>s'. puts ds s = Inr s' \<and> ok s' \<and> out s' = out s @ concat ds"
proof (induction ds arbitrary: s)
  case (Cons d ds)
  obtain s1 where s1: "put d s = Inr s1" "ok s1" "out s1 = out s @ d" using put_ok [OF Cons.prems(1)] Cons.prems(2) by auto
  then show ?case using Cons.IH [OF s1(2)] Cons.prems(2) by auto
qed simp

end

end
