(* ===== verification/Ep_Buf_Tcp.thy ===== *)
theory Ep_Buf_Tcp
  imports Ep_Loop Ep_Buffer
begin

text \<open>
  The buffered connection of \<^verbatim>\<open>ep_buf_tcp.c\<close>, a user of the event loop.  The loop's state is extended by the heap of
  connections and by what the kernel has accepted on each socket.  A file either belongs to a connection or
  to somebody else; the callback of a connection's owner is a parameter.  The results of \<^verbatim>\<open>read\<close>, \<^verbatim>\<open>write\<close>,
  \<^verbatim>\<open>send\<close> and \<^verbatim>\<open>connect\<close> are arguments.
\<close>

section \<open>The state\<close>

definition EP_BUF_READ :: int where [simp]: "EP_BUF_READ = 1"
definition EP_BUF_WRITE :: int where [simp]: "EP_BUF_WRITE = 2"
definition EP_BUF_ERROR :: int where [simp]: "EP_BUF_ERROR = 4"

definition EINPROGRESS :: int where [simp]: "EINPROGRESS = 115"
definition EAGAIN :: int where [simp]: "EAGAIN = 11"

datatype 'u file_cb = Buf_Cb nat | User_Cb 'u

record 'd ep_buf_impl =
  bi_fd :: int
  bi_file :: nat
  bi_cb :: 'd
  bi_buf_read :: "char list option"
  bi_read_buf_len :: int
  bi_is_incb :: bool
  bi_is_free_pending :: bool
  bi_list_write_buf :: "ep_buffer list"
  bi_detect :: int

record ('u, 'd) buf_base = "'u file_cb ep_base" +
  h_buf :: "nat \<rightharpoonup> 'd ep_buf_impl"
  b_accepted :: "int \<Rightarrow> char list"
  b_closed :: "int list"

type_synonym ('u, 'd, 'z) bbase = "('u, 'd, 'z) buf_base_scheme"
type_synonym ('u, 'd, 'z) buf_user = "'d \<Rightarrow> nat \<Rightarrow> int \<Rightarrow> ('u, 'd, 'z) bbase \<Rightarrow> ('u, 'd, 'z) bbase res"

text \<open>What a system call that moves bytes returns, and \<^verbatim>\<open>errno\<close>.\<close>

record io_result =
  io_ret :: int
  io_errno :: int

definition upd_buf :: "nat \<Rightarrow> ('d ep_buf_impl \<Rightarrow> 'd ep_buf_impl) \<Rightarrow> ('u, 'd, 'z) bbase \<Rightarrow> ('u, 'd, 'z) bbase res" where
  "upd_buf p g b = rbind (look (h_buf b) p) (\<lambda>x. Inr (b\<lparr>h_buf := (h_buf b)(p \<mapsto> g x)\<rparr>))"

definition accept_bytes :: "int \<Rightarrow> char list \<Rightarrow> ('u, 'd, 'z) bbase \<Rightarrow> ('u, 'd, 'z) bbase" where
  "accept_bytes fd bs b = b\<lparr>b_accepted := (b_accepted b)(fd := b_accepted b fd @ bs)\<rparr>"

section \<open>Creating, connecting, reading\<close>

text \<open>\<open>sock\<close> is what \<^verbatim>\<open>socket\<close> returns when the caller passes no descriptor.\<close>

definition ep_buf_create :: "int \<Rightarrow> int \<Rightarrow> 'd \<Rightarrow> ('u, 'd, 'z) bbase \<Rightarrow> (nat \<times> ('u, 'd, 'z) bbase) res" where
  "ep_buf_create sock fd cb b =
     (let fd' = (if fd = - 1 then sock else fd); p = b_next b; b1 = b\<lparr>b_next := Suc p\<rparr>
      in rbind (ep_file_create fd' (Buf_Cb p) b1) (\<lambda>(f, b2).
         Inr (p, b2\<lparr>h_buf := (h_buf b2)(p \<mapsto>
           \<lparr>bi_fd = fd', bi_file = f, bi_cb = cb, bi_buf_read = None, bi_read_buf_len = 0, bi_is_incb = False,
            bi_is_free_pending = False, bi_list_write_buf = [], bi_detect = 0\<rparr>)\<rparr>)))"

definition ep_buf_connect :: "io_result \<Rightarrow> int" where
  "ep_buf_connect r = (if io_ret r \<noteq> 0 \<and> io_errno r \<noteq> EINPROGRESS then - 1 else 0)"

definition ep_buf_read :: "nat \<Rightarrow> ('u, 'd, 'z) bbase \<Rightarrow> (char list option \<times> int) res" where
  "ep_buf_read p b =
     rbind (look (h_buf b) p) (\<lambda>x.
     rbind (cassert (bi_is_incb x)) (\<lambda>_. Inr (bi_buf_read x, bi_read_buf_len x)))"

section \<open>Watching\<close>

definition ep_buf_enable :: "nat \<Rightarrow> int \<Rightarrow> ('u, 'd, 'z) bbase \<Rightarrow> ('u, 'd, 'z) bbase res" where
  "ep_buf_enable p what b =
     rbind (look (h_buf b) p) (\<lambda>x.
     rbind (ep_file_get_timeout (bi_file x) b) (\<lambda>timeout.
     rbind (ep_file_get_detect (bi_file x) b) (\<lambda>detect.
     let detect' = (if and what EP_BUF_READ \<noteq> 0 then or detect EP_READ
                    else if and what EP_BUF_WRITE \<noteq> 0 then or detect EP_WRITE else detect)
     in rbind (ep_file_detect (bi_file x) detect' timeout b) (\<lambda>b1.
        upd_buf p (\<lambda>x. x\<lparr>bi_detect := what\<rparr>) b1))))"

text \<open>\<^verbatim>\<open>!EP_READ\<close> and \<^verbatim>\<open>!EP_WRITE\<close> are 0, so the whole mask is cleared.\<close>

definition ep_buf_disable :: "nat \<Rightarrow> int \<Rightarrow> ('u, 'd, 'z) bbase \<Rightarrow> ('u, 'd, 'z) bbase res" where
  "ep_buf_disable p what b =
     rbind (look (h_buf b) p) (\<lambda>x.
     rbind (ep_file_get_timeout (bi_file x) b) (\<lambda>timeout.
     rbind (ep_file_get_detect (bi_file x) b) (\<lambda>detect.
     let detect' = (if and what EP_BUF_READ \<noteq> 0 then and detect (if EP_READ = 0 then 1 else 0)
                    else if and what EP_BUF_WRITE \<noteq> 0 then and detect (if EP_WRITE = 0 then 1 else 0) else detect)
     in rbind (ep_file_detect (bi_file x) detect' timeout b) (\<lambda>b1.
        upd_buf p (\<lambda>x. x\<lparr>bi_detect := what\<rparr>) b1))))"

definition ep_buf_set_timeout :: "nat \<Rightarrow> int \<Rightarrow> ('u, 'd, 'z) bbase \<Rightarrow> ('u, 'd, 'z) bbase res" where
  "ep_buf_set_timeout p ms b =
     rbind (look (h_buf b) p) (\<lambda>x.
     rbind (ep_file_get_detect (bi_file x) b) (\<lambda>detect. ep_file_detect (bi_file x) detect ms b))"

definition ep_buf_get_output_len :: "nat \<Rightarrow> ('u, 'd, 'z) bbase \<Rightarrow> int res" where
  "ep_buf_get_output_len p b =
     rbind (look (h_buf b) p) (\<lambda>x.
     Inr (sum_list (map (\<lambda>pos. eb_len_total pos - eb_len_sent pos) (bi_list_write_buf x))))"

section \<open>Writing\<close>

text \<open>Queueing a block and watching for writability, the tail of both branches.\<close>

definition enqueue_write :: "nat \<Rightarrow> char list \<Rightarrow> int \<Rightarrow> int \<Rightarrow> ('u, 'd, 'z) bbase \<Rightarrow> ('u, 'd, 'z) bbase res" where
  "enqueue_write p bs detect timeout b =
     rbind (look (h_buf b) p) (\<lambda>x.
     rbind (ep_buffer_create bs (int (length bs))) (\<lambda>writebuf.
     rbind (upd_buf p (\<lambda>x. x\<lparr>bi_list_write_buf := bi_list_write_buf x @ [writebuf]\<rparr>) b) (\<lambda>b1.
     ep_file_detect (bi_file x) (or detect EP_WRITE) timeout b1)))"

text \<open>\<open>r\<close> is the result of \<^verbatim>\<open>send\<close>; a failed \<^verbatim>\<open>send\<close> is ignored.\<close>

definition ep_buf_write :: "io_result \<Rightarrow> nat \<Rightarrow> char list \<Rightarrow> ('u, 'd, 'z) bbase \<Rightarrow> ('u, 'd, 'z) bbase res" where
  "ep_buf_write r p buf b =
     rbind (look (h_buf b) p) (\<lambda>x.
     rbind (ep_file_get_detect (bi_file x) b) (\<lambda>detect.
     rbind (ep_file_get_timeout (bi_file x) b) (\<lambda>timeout.
     if bi_list_write_buf x = []
     then let write_len = io_ret r; b1 = accept_bytes (bi_fd x) (take (nat write_len) buf) b
          in if 0 \<le> write_len \<and> write_len < int (length buf)
             then enqueue_write p (drop (nat write_len) buf) detect timeout b1
             else Inr b1
     else enqueue_write p buf detect timeout b)))"

section \<open>Freeing and the event callback\<close>

definition ep_buf_free :: "nat \<Rightarrow> ('u, 'd, 'z) bbase \<Rightarrow> ('u, 'd, 'z) bbase res" where
  "ep_buf_free p b =
     rbind (look (h_buf b) p) (\<lambda>x.
     if bi_is_incb x then upd_buf p (\<lambda>x. x\<lparr>bi_is_free_pending := True\<rparr>) b
     else rbind (ep_file_detect (bi_file x) 0 (- 1) b) (\<lambda>b1.
          rbind (ep_file_free (bi_file x) (b1\<lparr>b_closed := b_closed b1 @ [bi_fd x]\<rparr>)) (\<lambda>b2.
          Inr (b2\<lparr>h_buf := (h_buf b2)(p := None)\<rparr>))))"

text \<open>
  The pattern that ends every section that may free the connection: when a free is pending, it is done now
  and the caller returns \<open>- 1\<close>, here \<open>False\<close>.
\<close>

definition finish_free :: "nat \<Rightarrow> ('u, 'd, 'z) bbase \<Rightarrow> (bool \<times> ('u, 'd, 'z) bbase) res" where
  "finish_free p b =
     rbind (look (h_buf b) p) (\<lambda>x.
     if bi_is_free_pending x
     then rbind (upd_buf p (\<lambda>x. x\<lparr>bi_is_free_pending := False\<rparr>) b) (\<lambda>b1.
          rbind (ep_buf_free p b1) (\<lambda>b2. Inr (False, b2)))
     else Inr (True, b))"

text \<open>Calling the owner with \<^verbatim>\<open>is_incb\<close> set around the call.\<close>

definition call_user :: "('u, 'd, 'z) buf_user \<Rightarrow> nat \<Rightarrow> int \<Rightarrow> ('u, 'd, 'z) bbase \<Rightarrow> ('u, 'd, 'z) bbase res" where
  "call_user cb p what b =
     rbind (upd_buf p (\<lambda>x. x\<lparr>bi_is_incb := True\<rparr>) b) (\<lambda>b1.
     rbind (look (h_buf b1) p) (\<lambda>x.
     rbind (cb (bi_cb x) p what b1) (\<lambda>b2.
     upd_buf p (\<lambda>x. x\<lparr>bi_is_incb := False\<rparr>) b2)))"

text \<open>\<open>Inl\<close> an error, \<open>Inr\<close> the bytes read: the result of \<^verbatim>\<open>read\<close> into the array of 4096 bytes.\<close>

definition ep_buf_file_readcb :: "('u, 'd, 'z) buf_user \<Rightarrow> (unit + char list) \<Rightarrow> nat \<Rightarrow> ('u, 'd, 'z) bbase
    \<Rightarrow> (bool \<times> ('u, 'd, 'z) bbase) res" where
  "ep_buf_file_readcb cb rd p b =
     (let bs = (case rd of Inl _ \<Rightarrow> [] | Inr bs \<Rightarrow> bs);
          len_read = (case rd of Inl _ \<Rightarrow> - 1 | Inr bs \<Rightarrow> int (length bs))
      in rbind (upd_buf p (\<lambda>x. x\<lparr>bi_buf_read := Some bs, bi_read_buf_len := len_read, bi_is_incb := True\<rparr>) b) (\<lambda>b1.
         rbind (look (h_buf b1) p) (\<lambda>x.
         rbind (if and (bi_detect x) EP_BUF_READ \<noteq> 0 then call_user cb p EP_BUF_READ b1 else Inr b1) (\<lambda>b2.
         rbind (finish_free p b2) (\<lambda>(go, b3).
         if \<not> go then Inr (False, b3)
         else rbind (upd_buf p (\<lambda>x. x\<lparr>bi_buf_read := None, bi_read_buf_len := - 1\<rparr>) b3) (\<lambda>b4. Inr (True, b4)))))))"

text \<open>
  The loop over the write queue leaves after its first iteration on every path.  \<open>w\<close> is the result of
  \<^verbatim>\<open>write\<close>.  The comparison \<^verbatim>\<open>pos->len_sent == pos->len_sent\<close> is always true.  The result is the queue, the
  bytes accepted and \<^verbatim>\<open>is_error\<close>.
\<close>

definition write_first :: "io_result \<Rightarrow> ep_buffer list \<Rightarrow> (ep_buffer list \<times> char list \<times> bool)" where
  "write_first w q =
     (case q of
        [] \<Rightarrow> ([], [], False)
      | pos # rest \<Rightarrow>
          if io_ret w < 0 then (q, [], io_errno w \<noteq> EINPROGRESS \<and> io_errno w \<noteq> EAGAIN)
          else let pos' = pos\<lparr>eb_len_sent := eb_len_sent pos + io_ret w\<rparr>
               in if eb_len_sent pos' = eb_len_sent pos'
                  then (rest, take (nat (io_ret w)) (remaining pos), False)
                  else (pos' # rest, take (nat (io_ret w)) (remaining pos), False))"

definition ep_buf_file_writecb :: "('u, 'd, 'z) buf_user \<Rightarrow> io_result \<Rightarrow> nat \<Rightarrow> ('u, 'd, 'z) bbase
    \<Rightarrow> (bool \<times> ('u, 'd, 'z) bbase) res" where
  "ep_buf_file_writecb cb w p b =
     rbind (look (h_buf b) p) (\<lambda>x.
     rbind (ep_file_get_detect (bi_file x) b) (\<lambda>detect.
     rbind (ep_file_get_timeout (bi_file x) b) (\<lambda>timeout.
     let empty = (bi_list_write_buf x = []);
         detect1 = (if empty then and detect (not EP_WRITE) else detect);
         (q, sent, is_error) = write_first w (bi_list_write_buf x)
     in rbind (if empty then ep_file_detect (bi_file x) detect1 timeout b
               else rbind (upd_buf p (\<lambda>x. x\<lparr>bi_list_write_buf := q\<rparr>) b) (\<lambda>b1. Inr (accept_bytes (bi_fd x) sent b1))) (\<lambda>b2.
        rbind (if q = []
               then rbind (ep_file_detect (bi_file x) (and detect1 (not EP_WRITE)) timeout b2) (\<lambda>b3.
                    rbind (upd_buf p (\<lambda>x. x\<lparr>bi_is_incb := False\<rparr>) b3) (finish_free p))
               else Inr (True, b2)) (\<lambda>(go, b3).
        if \<not> go then Inr (False, b3)
        else rbind (if is_error
                    then rbind (ep_file_detect (bi_file x) 0 (- 1) b3) (\<lambda>b4.
                         rbind (call_user cb p EP_BUF_ERROR b4) (finish_free p))
                    else Inr (True, b3)) (\<lambda>(go, b5).
        if \<not> go then Inr (False, b5)
        else rbind (look (h_buf b5) p) (\<lambda>y.
        if and (bi_detect y) EP_BUF_WRITE \<noteq> 0
        then rbind (call_user cb p EP_BUF_WRITE b5) (finish_free p)
        else Inr (True, b5))))))))"

definition ep_buf_file_eventcb :: "('u, 'd, 'z) buf_user \<Rightarrow> io_result \<Rightarrow> (unit + char list) \<Rightarrow> nat \<Rightarrow> int
    \<Rightarrow> ('u, 'd, 'z) bbase \<Rightarrow> ('u, 'd, 'z) bbase res" where
  "ep_buf_file_eventcb cb w rd p what b =
     rbind (if and what EP_WRITE \<noteq> 0 then ep_buf_file_writecb cb w p b else Inr (True, b)) (\<lambda>(go, b1).
     if \<not> go then Inr b1
     else rbind (if and what EP_READ \<noteq> 0 then ep_buf_file_readcb cb rd p b1 else Inr (True, b1)) (\<lambda>(go, b2).
     if \<not> go then Inr b2
     else if and what EP_ERROR \<noteq> 0
     then rbind (look (h_buf b2) p) (\<lambda>x.
          rbind (ep_file_detect (bi_file x) 0 (- 1) b2) (\<lambda>b3.
          cb (bi_cb x) p EP_BUF_ERROR b3))
     else Inr b2))"

text \<open>
  The event loop with connections on it: \<open>user\<close> handles the files and timers of everybody else, \<open>io\<close> says what
  the system calls of an event return.
\<close>

definition buf_handlers :: "('u, 'd, 'z) buf_user \<Rightarrow> io_result \<Rightarrow> (unit + char list)
    \<Rightarrow> ('u file_cb, ('u, 'd, 'z) bbase) ep_handlers \<Rightarrow> ('u file_cb, ('u, 'd, 'z) bbase) ep_handlers" where
  "buf_handlers cb w rd user =
     \<lparr>on_file = (\<lambda>c f fd what b. case c of Buf_Cb p \<Rightarrow> ep_buf_file_eventcb cb w rd p what b
                 | User_Cb _ \<Rightarrow> on_file user c f fd what b),
      on_timer = on_timer user\<rparr>"

section \<open>The invariant of the loop under connections\<close>

lemma base_wf_bufs [simp]:
  "base_wf (b\<lparr>h_buf := h\<rparr>) \<longleftrightarrow> base_wf b"
  "base_wf (b\<lparr>b_accepted := a\<rparr>) \<longleftrightarrow> base_wf b"
  "base_wf (b\<lparr>b_closed := c\<rparr>) \<longleftrightarrow> base_wf b"
  by (simp_all add: base_wf_def)

lemma accept_bytes_wf [simp]: "base_wf (accept_bytes fd bs b) \<longleftrightarrow> base_wf b"
  by (simp add: accept_bytes_def)

lemma ep_buffer_create_rule [wf_rules]: "res_all (\<lambda>_. True) (ep_buffer_create bs n)"
  by (auto intro: res_allI)

lemma upd_buf_wf [wf_rules]: "base_wf b \<Longrightarrow> res_all base_wf (upd_buf p g b)"
  by (auto simp: upd_buf_def rbind_eq_Inr intro!: res_allI)

lemma ep_buf_create_wf [wf_rules]:
  "base_wf b \<Longrightarrow> res_all (\<lambda>(p, b). base_wf b) (ep_buf_create sock fd cb b)"
  unfolding ep_buf_create_def Let_def by (rule wf_steps wf_rules base_wf_next | assumption | simp)+

lemma ep_buf_enable_wf [wf_rules]: "base_wf b \<Longrightarrow> res_all base_wf (ep_buf_enable p what b)"
  unfolding ep_buf_enable_def Let_def by (rule wf_steps wf_rules | assumption)+

lemma ep_buf_disable_wf [wf_rules]: "base_wf b \<Longrightarrow> res_all base_wf (ep_buf_disable p what b)"
  unfolding ep_buf_disable_def Let_def by (rule wf_steps wf_rules | assumption)+

lemma ep_buf_set_timeout_wf [wf_rules]: "base_wf b \<Longrightarrow> res_all base_wf (ep_buf_set_timeout p ms b)"
  unfolding ep_buf_set_timeout_def by (rule wf_steps wf_rules | assumption)+

lemma enqueue_write_wf [wf_rules]: "base_wf b \<Longrightarrow> res_all base_wf (enqueue_write p bs d t b)"
  unfolding enqueue_write_def by (rule wf_steps wf_rules | assumption)+

lemma ep_buf_write_wf [wf_rules]: "base_wf b \<Longrightarrow> res_all base_wf (ep_buf_write r p bs b)"
  unfolding ep_buf_write_def Let_def by (rule wf_steps wf_rules | assumption | simp)+

lemma ep_buf_free_wf [wf_rules]: "base_wf b \<Longrightarrow> res_all base_wf (ep_buf_free p b)"
  unfolding ep_buf_free_def by (rule wf_steps wf_rules | assumption | simp)+

lemma finish_free_wf [wf_rules]: "base_wf b \<Longrightarrow> res_all (\<lambda>(go, b). base_wf b) (finish_free p b)"
  unfolding finish_free_def by (rule wf_steps wf_rules | assumption | simp)+

text \<open>The contract of the owner of connections, and of the other users of the loop.\<close>

locale ep_buf_user =
  fixes cb :: "('u, 'd, 'z) buf_user"
    and w :: io_result
    and rd :: "unit + char list"
    and user :: "('u file_cb, ('u, 'd, 'z) bbase) ep_handlers"
  assumes cb_wf: "base_wf b \<Longrightarrow> res_all base_wf (cb d p what b)"
    and user_file_wf: "base_wf b \<Longrightarrow> res_all base_wf (on_file user (User_Cb u) f fd what b)"
    and user_timer_wf: "base_wf b \<Longrightarrow> res_all base_wf (on_timer user c t b)"
begin

lemma call_user_wf: "base_wf b \<Longrightarrow> res_all base_wf (call_user cb p what b)"
  unfolding call_user_def by (rule wf_steps wf_rules cb_wf | assumption)+

lemma readcb_wf: "base_wf b \<Longrightarrow> res_all (\<lambda>(go, b). base_wf b) (ep_buf_file_readcb cb r p b)"
  unfolding ep_buf_file_readcb_def Let_def by (rule wf_steps wf_rules call_user_wf | assumption | simp)+

lemma writecb_wf: "base_wf b \<Longrightarrow> res_all (\<lambda>(go, b). base_wf b) (ep_buf_file_writecb cb v p b)"
  unfolding ep_buf_file_writecb_def Let_def
  by (rule wf_steps res_all_case3 wf_rules call_user_wf | assumption | simp)+

lemma eventcb_wf: "base_wf b \<Longrightarrow> res_all base_wf (ep_buf_file_eventcb cb v r p what b)"
  unfolding ep_buf_file_eventcb_def by (rule wf_steps wf_rules writecb_wf readcb_wf cb_wf | assumption | simp)+

end

sublocale ep_buf_user \<subseteq> ep_user "buf_handlers cb w rd user"
proof unfold_locales
  fix b f ev what b'
  assume "base_wf b" "on_file (buf_handlers cb w rd user) (ef_cb ev) f (ef_fd ev) what b = Inr b'"
  then show "base_wf b'"
    by (cases "ef_cb ev") (auto simp: buf_handlers_def intro: res_allD [OF eventcb_wf] res_allD [OF user_file_wf])
next
  fix b t x b'
  assume "base_wf b" "on_timer (buf_handlers cb w rd user) (et_cb x) t b = Inr b'"
  then show "base_wf b'" by (auto simp: buf_handlers_def intro: res_allD [OF user_timer_wf])
qed

section \<open>The byte stream of a connection\<close>

text \<open>What a connection has been given to send: what the kernel took, then what is queued.\<close>

definition out_stream :: "nat \<Rightarrow> ('u, 'd, 'z) bbase \<Rightarrow> char list" where
  "out_stream p b = (case h_buf b p of None \<Rightarrow> [] | Some x \<Rightarrow> b_accepted b (bi_fd x) @ pending (bi_list_write_buf x))"

text \<open>A connection whose file is live and can be asked for its mask and timeout.\<close>

definition watchable :: "nat \<Rightarrow> ('u, 'd, 'z) bbase \<Rightarrow> bool" where
  "watchable p b \<longleftrightarrow> base_wf b \<and> (case h_buf b p of None \<Rightarrow> False | Some x \<Rightarrow>
     (case h_file b (bi_file x) of None \<Rightarrow> False | Some ev \<Rightarrow>
        file_at b (bi_file x) (ef_fd ev) \<and> fi_file (b_files b ! nat (ef_fd ev)) \<in> {None, Some (bi_file x)}))"

lemma watchableE:
  assumes "watchable p b"
  obtains x ev m t where "base_wf b" "h_buf b p = Some x" "h_file b (bi_file x) = Some ev" "file_at b (bi_file x) (ef_fd ev)"
    "ep_file_get_detect (bi_file x) b = Inr m" "ep_file_get_timeout (bi_file x) b = Inr t"
proof -
  obtain x ev where x: "base_wf b" "h_buf b p = Some x" "h_file b (bi_file x) = Some ev" "file_at b (bi_file x) (ef_fd ev)"
    "fi_file (b_files b ! nat (ef_fd ev)) \<in> {None, Some (bi_file x)}"
    using assms by (auto simp: watchable_def split: option.splits)
  moreover have "fd_slot b (ef_fd ev) = Inr (b_files b ! nat (ef_fd ev))" using x(4) by (auto simp: file_at_def fd_slot_def)
  ultimately obtain m t where "ep_file_get_detect (bi_file x) b = Inr m" "ep_file_get_timeout (bi_file x) b = Inr t"
    by (auto simp: ep_file_get_detect_def ep_file_get_timeout_def look_def)
  then show ?thesis by (rule that [OF x(1-4)])
qed

lemma buf_more:
  fixes b b' :: "('u, 'd, 'z) bbase"
  assumes "ep_base.more b' = ep_base.more b"
  shows "h_buf b' = h_buf b" "b_accepted b' = b_accepted b" "buf_base.more b' = buf_base.more b"
  using assms by (cases b; cases b'; simp)+

lemma out_stream_more:
  fixes b b' :: "('u, 'd, 'z) bbase"
  assumes "ep_base.more b' = ep_base.more b"
  shows "out_stream p b' = out_stream p b"
  using buf_more [OF assms] by (simp add: out_stream_def split: option.split)

text \<open>The loop before any connection exists, a new connection, and watching one.\<close>

definition buf_create :: "int \<Rightarrow> ('u, 'd) buf_base" where
  "buf_create now = ep_base.extend (ep_base_create now) (buf_base.fields Map.empty (\<lambda>_. []) [])"

lemma buf_create_simps [simp]:
  "base_wf (buf_create now)" "h_buf (buf_create now) = Map.empty" "b_accepted (buf_create now) = (\<lambda>_. [])"
  "length (b_files (buf_create now)) = 1024" "b_next (buf_create now) = 1" "b_list_timers (buf_create now) = []"
  using base_wf_create [of now, where 'a = "'u file_cb"]
  by (simp_all add: buf_create_def ep_base.extend_def base_wf_def buf_base.fields_def ep_base_create_def)

lemma ep_buf_create_ok:
  fixes b :: "('u, 'd, 'z) bbase"
  assumes "base_wf b" and "0 \<le> fd" and "fd < int (length (b_files b))"
  shows "\<exists>b' f. ep_buf_create sock fd cb b = Inr (b_next b, b') \<and> watchable (b_next b) b'
    \<and> h_buf b' = (h_buf b)(b_next b \<mapsto> \<lparr>bi_fd = fd, bi_file = f, bi_cb = cb, bi_buf_read = None, bi_read_buf_len = 0,
        bi_is_incb = False, bi_is_free_pending = False, bi_list_write_buf = [], bi_detect = 0\<rparr>)
    \<and> b_accepted b' = b_accepted b \<and> buf_base.more b' = buf_base.more b"
proof -
  let ?p = "b_next b" and ?b = "b\<lparr>b_next := Suc (b_next b)\<rparr>"
  have w: "base_wf ?b" "fd < int (length (b_files ?b))" using base_wf_next [OF assms(1)] assms(3) by simp_all
  obtain f b2 where b2: "ep_file_create fd (Buf_Cb ?p) ?b = Inr (f, b2)" "base_wf b2"
    "h_file b2 f = Some \<lparr>ef_fd = fd, ef_cb = Buf_Cb ?p, ef_timer_info = None, ef_timeout = - 1\<rparr>" "file_at b2 f fd"
    "ep_base.more b2 = ep_base.more ?b"
    using ep_file_create_ok [OF w(1) assms(2) w(2), of "Buf_Cb ?p"] by auto
  have "fi_file (b_files b2 ! nat fd) = Some f"
    using b2(1) assms(2,3)
    by (auto simp: ep_file_create_def fd_slot_def Let_def set_slot_def put_file_def nat_less_iff split: if_splits)
  then show ?thesis
    using b2 assms(2) buf_more [OF b2(5)]
    by (intro exI [of _ f] exI) (auto simp: ep_buf_create_def Let_def watchable_def file_at_def)
qed

lemma ep_buf_enable_ok:
  fixes b :: "('u, 'd, 'z) bbase"
  assumes "watchable p b" and "h_buf b p = Some x"
  shows "\<exists>b'. ep_buf_enable p what b = Inr b' \<and> base_wf b' \<and> h_buf b' = (h_buf b)(p \<mapsto> x\<lparr>bi_detect := what\<rparr>)
    \<and> buf_base.more b' = buf_base.more b"
proof -
  obtain ev m t where x: "base_wf b" "h_file b (bi_file x) = Some ev" "file_at b (bi_file x) (ef_fd ev)"
    "ep_file_get_detect (bi_file x) b = Inr m" "ep_file_get_timeout (bi_file x) b = Inr t"
    using assms(1) by (rule watchableE) (use assms(2) in auto)
  let ?m = "if and what EP_BUF_READ \<noteq> 0 then or m EP_READ else if and what EP_BUF_WRITE \<noteq> 0 then or m EP_WRITE else m"
  obtain b' where b': "ep_file_detect (bi_file x) ?m t b = Inr b'" "base_wf b'" "ep_base.more b' = ep_base.more b"
    using ep_file_detect_ok [OF x(1-3), of ?m t] by blast
  then have "ep_buf_enable p what b = Inr (b'\<lparr>h_buf := (h_buf b)(p \<mapsto> x\<lparr>bi_detect := what\<rparr>)\<rparr>)"
    using x(4,5) assms(2) buf_more [OF b'(3)] unfolding ep_buf_enable_def Let_def by (simp add: look_def upd_buf_def)
  with b'(2) buf_more [OF b'(3)] show ?thesis by simp
qed

lemma watchable_watched: "watchable p b \<longleftrightarrow> (\<exists>x. h_buf b p = Some x \<and> watched b (bi_file x))"
  by (auto simp: watchable_def watched_def split: option.splits)

lemma watched_bufs [simp]:
  "watched (b\<lparr>h_buf := h\<rparr>) f \<longleftrightarrow> watched b f" "watched (b\<lparr>b_accepted := a\<rparr>) f \<longleftrightarrow> watched b f"
  by (simp_all add: watched_def file_at_def)

lemma enqueue_write_ok:
  fixes b :: "('u, 'd, 'z) bbase"
  assumes "h_buf b p = Some x" and "watched b (bi_file x)" and "bs \<noteq> []"
  shows "\<exists>b'. enqueue_write p bs m t b = Inr b' \<and> watchable p b' \<and> out_stream p b' = out_stream p b @ bs
    \<and> buf_base.more b' = buf_base.more b"
proof -
  obtain w where w: "ep_buffer_create bs (int (length bs)) = Inr w" "remaining w = bs"
    using ep_buffer_create_ok [of "int (length bs)" bs] assms(3) by auto
  let ?b = "b\<lparr>h_buf := (h_buf b)(p \<mapsto> x\<lparr>bi_list_write_buf := bi_list_write_buf x @ [w]\<rparr>)\<rparr>"
  obtain b' where b': "ep_file_detect (bi_file x) (or m EP_WRITE) t ?b = Inr b'" "watched b' (bi_file x)"
    "ep_base.more b' = ep_base.more ?b"
    using watched_detect [of ?b "bi_file x" "or m EP_WRITE" t] assms(2) by auto
  have "out_stream p ?b = out_stream p b @ bs" using assms(1) w by (simp add: out_stream_def)
  with b' out_stream_more [OF b'(3)] buf_more [OF b'(3)] show ?thesis
    using assms(1) w by (simp add: enqueue_write_def upd_buf_def watchable_watched)
qed

lemma ep_buf_write_ok:
  fixes b :: "('u, 'd, 'z) bbase"
  assumes "watchable p b" and "buf \<noteq> []" and "0 \<le> io_ret r" and "io_ret r \<le> int (length buf)"
  shows "\<exists>b'. ep_buf_write r p buf b = Inr b' \<and> watchable p b' \<and> out_stream p b' = out_stream p b @ buf
    \<and> buf_base.more b' = buf_base.more b"
proof -
  obtain x where x: "h_buf b p = Some x" "watched b (bi_file x)" using assms(1) by (auto simp: watchable_watched)
  obtain m t where mt: "ep_file_get_detect (bi_file x) b = Inr m" "ep_file_get_timeout (bi_file x) b = Inr t"
    using watched_get [OF x(2)] by blast
  show ?thesis
  proof (cases "bi_list_write_buf x = []")
    case False
    with x mt enqueue_write_ok [OF x assms(2), of m t] show ?thesis by (simp add: ep_buf_write_def)
  next
    case True
    let ?n = "nat (io_ret r)" and ?b = "accept_bytes (bi_fd x) (take (nat (io_ret r)) buf) b"
    have b: "h_buf ?b p = Some x" "watched ?b (bi_file x)" "buf_base.more ?b = buf_base.more b"
      using x by (simp_all add: accept_bytes_def)
    have o: "out_stream p ?b = out_stream p b @ take ?n buf" using x(1) True by (simp add: out_stream_def accept_bytes_def)
    show ?thesis
    proof (cases "io_ret r < int (length buf)")
      case True
      then have "drop ?n buf \<noteq> []" using assms(3) by simp
      from enqueue_write_ok [OF b(1,2) this, of m t] o b(3) x mt \<open>bi_list_write_buf x = []\<close> True assms(3) show ?thesis
        by (simp add: ep_buf_write_def Let_def)
    next
      case False
      then have "take ?n buf = buf" using assms(4) by simp
      with b o x mt True False show ?thesis by (auto simp: ep_buf_write_def Let_def watchable_watched accept_bytes_def)
    qed
  qed
qed

text \<open>
  Claim C17.  Writing to a live connection never fails, whatever part of the data \<^verbatim>\<open>send\<close> takes: the data ends up
  behind everything written before, partly with the kernel and partly queued, with nothing lost, repeated or
  reordered.
\<close>

theorem ep_buf_write_appends:
  assumes "watchable p b" and "buf \<noteq> []" and "0 \<le> io_ret r" and "io_ret r \<le> int (length buf)"
  shows "\<exists>b'. ep_buf_write r p buf b = Inr b' \<and> base_wf b' \<and> out_stream p b' = out_stream p b @ buf"
  using ep_buf_write_ok [OF assms] by (auto simp: watchable_watched watched_def)

theorem ep_buf_write_appends_witness:
  "\<exists>b b'. ep_buf_create 6 5 () (buf_create 0 :: (unit, unit) buf_base) = Inr (1, b)
     \<and> ep_buf_write \<lparr>io_ret = 2, io_errno = 0\<rparr> 1 ''hello'' b = Inr b' \<and> base_wf b' \<and> out_stream 1 b' = ''hello''"
proof -
  let ?b = "buf_create 0 :: (unit, unit) buf_base"
  obtain b f where b: "ep_buf_create 6 5 () ?b = Inr (1, b)" "watchable 1 b"
    "h_buf b = (h_buf ?b)(1 \<mapsto> \<lparr>bi_fd = 5, bi_file = f, bi_cb = (), bi_buf_read = None, bi_read_buf_len = 0,
        bi_is_incb = False, bi_is_free_pending = False, bi_list_write_buf = [], bi_detect = 0\<rparr>)" "b_accepted b = b_accepted ?b"
    using ep_buf_create_ok [of ?b 5 6 "()"] by auto
  have "out_stream 1 b = []" using b(3,4) by (simp add: out_stream_def)
  with ep_buf_write_appends [OF b(2), of "''hello''" "\<lparr>io_ret = 2, io_errno = 0\<rparr>"] b(1) show ?thesis by simp
qed

text \<open>
  Claim C35.  Sending from the queue keeps the byte stream exactly when the kernel takes the whole first buffer: the
  test \<^verbatim>\<open>pos->len_sent == pos->len_sent\<close> always succeeds, so the rest of a buffer that was taken in part is freed
  with it.
\<close>

theorem ep_buf_writecb_drops_rest:
  assumes "eb_wf pos" and "0 \<le> io_ret w" and "io_ret w \<le> int (length (remaining pos))"
    and "write_first w (pos # rest) = (q, sent, err)"
  shows "sent @ pending q = pending (pos # rest) \<longleftrightarrow> io_ret w = int (length (remaining pos))"
  using assms by (auto simp: write_first_def Let_def)

theorem ep_buf_writecb_drops_rest_witness:
  "write_first \<lparr>io_ret = 2, io_errno = 0\<rparr> [\<lparr>eb_buf = ''hello'', eb_len_total = 5, eb_len_sent = 0\<rparr>] = ([], ''he'', False)
   \<and> ''he'' @ pending [] \<noteq> pending [\<lparr>eb_buf = ''hello'', eb_len_total = 5, eb_len_sent = 0\<rparr>]"
proof -
  let ?p = "\<lparr>eb_buf = ''hello'', eb_len_total = 5, eb_len_sent = 0\<rparr>"
  have "write_first \<lparr>io_ret = 2, io_errno = 0\<rparr> [?p] = ([], ''he'', False)"
    by (simp add: write_first_def Let_def remaining_def)
  then show ?thesis
    using ep_buf_writecb_drops_rest [of ?p "\<lparr>io_ret = 2, io_errno = 0\<rparr>" "[]"] by (simp add: eb_wf_def remaining_def)
qed

end
