(* ===== verification/Http_Downstream.thy ===== *)
theory Http_Downstream
  imports Http_Parser_Run Header Ep_Buf_Tcp
begin

text \<open>
  The listening side of \<^verbatim>\<open>http_downstream.c\<close>: a connection on the event loop owns a request parser whose callbacks
  fill a header, and an event for the user is queued as a timer.  The state is the one of buffered connections,
  extended by the heaps of streams and of queued events and by the statics of the file.  The user's callback
  \<^verbatim>\<open>s_cb\<close> is a parameter; \<^verbatim>\<open>server_downstreamcb\<close> of \<^verbatim>\<open>server.c\<close> is one.
\<close>

section \<open>The state\<close>

definition DOWNSTREAM_EVENT_NEW :: int where [simp]: "DOWNSTREAM_EVENT_NEW = 0"
definition DOWNSTREAM_EVENT_BODY :: int where [simp]: "DOWNSTREAM_EVENT_BODY = 1"
definition DOWNSTREAM_EVENT_REQUEST_COMPLETE :: int where [simp]: "DOWNSTREAM_EVENT_REQUEST_COMPLETE = 2"
definition DOWNSTREAM_EVENT_DISCONNECT :: int where [simp]: "DOWNSTREAM_EVENT_DISCONNECT = 3"

datatype ds_callback = Accept_Cb | Event_Cb nat

record http_downstream =
  ds_list_events :: "nat list"
  ds_list_request_bodys :: "nat list"
  ds_fd :: int
  ds_client :: nat
  ds_request_header :: header
  ds_resposne_header :: "header option"
  ds_request_parser :: "unit http_parser"
  ds_args :: "nat option"
  ds_is_close_pending :: bool
  ds_is_incb :: bool
  ds_is_response_complete :: bool

record event_item =
  ei_timer :: nat
  ei_downstream :: nat
  ei_what :: int

record ds_base = "(ds_callback, nat) buf_base" +
  h_stream :: "nat \<rightharpoonup> http_downstream"
  h_item :: "nat \<rightharpoonup> event_item"
  s_listen_fd :: int
  s_file_listen :: "nat option"
  s_cb :: bool
  s_list_downstreams :: "nat list"

type_synonym 'z ds = "'z ds_base_scheme"
type_synonym 'z downstream_cb = "int \<Rightarrow> nat \<Rightarrow> nat option \<Rightarrow> 'z ds \<Rightarrow> 'z ds res"

definition upd_stream :: "nat \<Rightarrow> (http_downstream \<Rightarrow> http_downstream) \<Rightarrow> 'z ds \<Rightarrow> 'z ds res" where
  "upd_stream p g b = rbind (look (h_stream b) p) (\<lambda>x. Inr (b\<lparr>h_stream := (h_stream b)(p \<mapsto> g x)\<rparr>))"

definition upd_header :: "nat \<Rightarrow> (header \<Rightarrow> header res) \<Rightarrow> 'z ds \<Rightarrow> 'z ds res" where
  "upd_header p g b =
     rbind (look (h_stream b) p) (\<lambda>x.
     rbind (g (ds_request_header x)) (\<lambda>h.
     Inr (b\<lparr>h_stream := (h_stream b)(p \<mapsto> x\<lparr>ds_request_header := h\<rparr>)\<rparr>)))"

section \<open>Events for the user\<close>

definition http_upstream_queue_event :: "nat \<Rightarrow> int \<Rightarrow> 'z ds \<Rightarrow> 'z ds res" where
  "http_upstream_queue_event stream what b =
     (let item = b_next b;
          (timer, b1) = ep_timer_new (User_Cb (Event_Cb item)) (b\<lparr>b_next := Suc item\<rparr>);
          b2 = b1\<lparr>h_item := (h_item b1)(item \<mapsto> \<lparr>ei_timer = timer, ei_downstream = stream, ei_what = what\<rparr>)\<rparr>
      in rbind (upd_stream stream (\<lambda>x. x\<lparr>ds_list_events := item # ds_list_events x\<rparr>) b2) (ep_timer_add timer 0))"

definition http_upstream_eventcb :: "'z downstream_cb \<Rightarrow> nat \<Rightarrow> 'z ds \<Rightarrow> 'z ds res" where
  "http_upstream_eventcb cb item b =
     rbind (look (h_item b) item) (\<lambda>it.
     rbind (upd_stream (ei_downstream it) (\<lambda>x. x\<lparr>ds_is_incb := True\<rparr>) b) (\<lambda>b1.
     rbind (if s_cb b1
            then rbind (look (h_stream b1) (ei_downstream it)) (\<lambda>x.
                 cb (ei_what it) (ei_downstream it) (ds_args x) b1)
            else Inr b1) (\<lambda>b2.
     rbind (look (h_item b2) item) (\<lambda>it2.
     rbind (upd_stream (ei_downstream it2)
              (\<lambda>x. x\<lparr>ds_is_incb := False, ds_list_events := remove1 item (ds_list_events x)\<rparr>) b2) (\<lambda>b3.
     rbind (ep_timer_free (ei_timer it2) b3) (\<lambda>b4.
     let b5 = b4\<lparr>h_item := (h_item b4)(item := None)\<rparr>
     in rbind (look (h_stream b5) (ei_downstream it)) (\<lambda>_. Inr b5)))))))"

section \<open>The callbacks of the request parser\<close>

text \<open>The data of the parser: the whole state, and the stream the pointer names.\<close>

definition http_downstream_msg_begin :: "('z ds \<times> nat) http_cb" where
  "http_downstream_msg_begin ps = (let (b, p) = hp_data ps in cb_notify b p (Inr b))"

definition http_downstream_url_complete :: "('z ds \<times> nat) http_data_cb" where
  "http_downstream_url_complete ps d =
     (let (b, p) = hp_data ps in cb_notify b p (upd_header p (\<lambda>h. Inr (header_set_url h d)) b))"

definition http_downstream_header_fieldcb :: "('z ds \<times> nat) http_data_cb" where
  "http_downstream_header_fieldcb ps d =
     (let (b, p) = hp_data ps in cb_notify b p (upd_header p (\<lambda>h. header_append_field h d) b))"

definition http_downstream_header_valuecb :: "('z ds \<times> nat) http_data_cb" where
  "http_downstream_header_valuecb ps d =
     (let (b, p) = hp_data ps in cb_notify b p (upd_header p (\<lambda>h. header_append_value h d) b))"

definition http_downstream_headers_completecb :: "('z ds \<times> nat) http_cb" where
  "http_downstream_headers_completecb ps =
     (let (b, p) = hp_data ps in cb_notify b p
        (rbind (upd_header p header_append_complete b) (http_upstream_queue_event p DOWNSTREAM_EVENT_NEW)))"

definition http_downstream_bodycb :: "('z ds \<times> nat) http_data_cb" where
  "http_downstream_bodycb ps d = (let (b, p) = hp_data ps in cb_notify b p (Inr b))"

definition http_downstream_message_completecb :: "('z ds \<times> nat) http_cb" where
  "http_downstream_message_completecb ps = (let (b, p) = hp_data ps in cb_notify b p (Inr b))"

definition htp_hooks :: "('z ds \<times> nat) http_parser_settings" where
  "htp_hooks =
     \<lparr>on_message_begin = Some http_downstream_msg_begin, on_url = Some http_downstream_url_complete,
      on_status_complete = None, on_header_field = Some http_downstream_header_fieldcb,
      on_header_value = Some http_downstream_header_valuecb,
      on_headers_complete = Some http_downstream_headers_completecb, on_body = Some http_downstream_bodycb,
      on_message_complete = Some http_downstream_message_completecb\<rparr>"

section \<open>The handlers of the connection and of the listening socket\<close>

definition http_upstream_clientcb :: "nat \<Rightarrow> nat \<Rightarrow> int \<Rightarrow> 'z ds \<Rightarrow> 'z ds res" where
  "http_upstream_clientcb stream buf_file what b =
     (if what = EP_BUF_READ
      then rbind (ep_buf_read buf_file b) (\<lambda>(buf, len).
           if len \<le> 0 then Inr b
           else rbind (deref buf) (\<lambda>bytes.
                rbind (look (h_stream b) stream) (\<lambda>x.
                rbind (run_parser htp_hooks (take (nat len) bytes) (ds_request_parser x) (b, stream)) (\<lambda>(d, ps, n).
                upd_stream stream (\<lambda>x. x\<lparr>ds_request_parser := ps\<rparr>) (fst d)))))
      else Inr b)"

text \<open>\<open>acc\<close> is what \<^verbatim>\<open>accept\<close> returns, \<open>sock\<close> what \<^verbatim>\<open>socket\<close> would.\<close>

definition http_upstream_acceptcb :: "int \<Rightarrow> int \<Rightarrow> 'z ds \<Rightarrow> 'z ds res" where
  "http_upstream_acceptcb acc sock b =
     (let stream = b_next b
      in rbind (ep_buf_create sock acc stream (b\<lparr>b_next := Suc stream\<rparr>)) (\<lambda>(client, b1).
         rbind (ep_buf_enable client EP_BUF_READ b1) (\<lambda>b2.
         Inr (b2\<lparr>h_stream := (h_stream b2)(stream \<mapsto>
                \<lparr>ds_list_events = [], ds_list_request_bodys = [], ds_fd = acc, ds_client = client,
                 ds_request_header = header_new, ds_resposne_header = None,
                 ds_request_parser = http_parser_init HTTP_REQUEST (), ds_args = None, ds_is_close_pending = False,
                 ds_is_incb = False, ds_is_response_complete = True\<rparr>),
              s_list_downstreams := s_list_downstreams b2 @ [stream]\<rparr>))))"

definition http_downstream_setargs :: "nat \<Rightarrow> nat option \<Rightarrow> 'z ds \<Rightarrow> 'z ds res" where
  "http_downstream_setargs stream args b = upd_stream stream (\<lambda>x. x\<lparr>ds_args := args\<rparr>) b"

text \<open>\<open>lfd\<close> and \<open>nb\<close> are what \<^verbatim>\<open>server_create_listen_fd\<close> and \<^verbatim>\<open>make_socket_nonblocking\<close> return.\<close>

definition http_downstream_init :: "int \<Rightarrow> int \<Rightarrow> bool \<Rightarrow> 'z ds \<Rightarrow> (int \<times> 'z ds) res" where
  "http_downstream_init lfd nb cb b =
     (if lfd \<le> 0 then Inr (- 1, b\<lparr>s_listen_fd := lfd, s_cb := False\<rparr>)
      else if nb \<noteq> 0 then Inr (- 1, b\<lparr>s_listen_fd := 0, s_cb := False, b_closed := b_closed b @ [lfd]\<rparr>)
      else rbind (ep_file_create lfd (User_Cb Accept_Cb) (b\<lparr>s_listen_fd := lfd\<rparr>)) (\<lambda>(f, b1).
           rbind (ep_file_detect f EP_READ (- 1) (b1\<lparr>s_file_listen := Some f\<rparr>)) (\<lambda>b2.
           Inr (0, b2\<lparr>s_cb := cb\<rparr>))))"

text \<open>The rest of the interface is not implemented: the functions return constants and change nothing.\<close>

definition http_downstream_get_request_header :: "nat \<Rightarrow> header option" where
  "http_downstream_get_request_header stream = None"
definition http_downstream_send_response :: "header \<Rightarrow> 'z ds \<Rightarrow> 'z ds" where
  "http_downstream_send_response h b = b"
definition http_downstream_close :: "nat \<Rightarrow> 'z ds \<Rightarrow> 'z ds" where
  "http_downstream_close stream b = b"
definition http_downstream_get_body :: "nat \<Rightarrow> nat list option" where
  "http_downstream_get_body stream = None"
definition http_downstream_write_body :: "nat \<Rightarrow> char list \<Rightarrow> int" where
  "http_downstream_write_body stream buf = 0"
definition http_downstream_get_status :: "nat \<Rightarrow> int" where
  "http_downstream_get_status stream = 0"
definition http_downstream_get_write_buffer_len :: "nat \<Rightarrow> int" where
  "http_downstream_get_write_buffer_len stream = 0"

text \<open>The callback \<^verbatim>\<open>server.c\<close> has for this interface.\<close>

definition server_downstreamcb :: "'z downstream_cb" where
  "server_downstreamcb what stream args b = (if what = DOWNSTREAM_EVENT_NEW then Inr b else Inr b)"

text \<open>The handlers of the files and timers that are not buffered connections.\<close>

definition ds_handlers :: "'z downstream_cb \<Rightarrow> int \<Rightarrow> int \<Rightarrow> (ds_callback file_cb, 'z ds) ep_handlers" where
  "ds_handlers cb acc sock =
     \<lparr>on_file = (\<lambda>c f fd what b. case c of User_Cb Accept_Cb \<Rightarrow> http_upstream_acceptcb acc sock b | _ \<Rightarrow> Inr b),
      on_timer = (\<lambda>c t b. case c of User_Cb (Event_Cb item) \<Rightarrow> http_upstream_eventcb cb item b | _ \<Rightarrow> Inr b)\<rparr>"

section \<open>Queueing an event never fails\<close>

lemma base_wf_ds [simp]:
  "base_wf (b\<lparr>h_stream := h\<rparr>) \<longleftrightarrow> base_wf b" "base_wf (b\<lparr>h_item := i\<rparr>) \<longleftrightarrow> base_wf b"
  "base_wf (b\<lparr>s_listen_fd := fd\<rparr>) \<longleftrightarrow> base_wf b" "base_wf (b\<lparr>s_file_listen := f\<rparr>) \<longleftrightarrow> base_wf b"
  "base_wf (b\<lparr>s_cb := c\<rparr>) \<longleftrightarrow> base_wf b" "base_wf (b\<lparr>s_list_downstreams := l\<rparr>) \<longleftrightarrow> base_wf b"
  by (simp_all add: base_wf_def)

lemma ds_more:
  fixes b b' :: "'z ds"
  assumes "ep_base.more b' = ep_base.more b"
  shows "h_buf b' = h_buf b" "h_stream b' = h_stream b" "h_item b' = h_item b"
  using assms by (cases b; cases b'; simp)+

lemma queue_event_ok:
  fixes b :: "'z ds"
  assumes "base_wf b" and "h_stream b p = Some x"
  shows "\<exists>b'. http_upstream_queue_event p what b = Inr b' \<and> base_wf b' \<and> h_buf b' = h_buf b
    \<and> h_stream b' = (h_stream b)(p \<mapsto> x\<lparr>ds_list_events := b_next b # ds_list_events x\<rparr>)"
proof -
  let ?b = "b\<lparr>b_next := Suc (b_next b)\<rparr>"
  obtain t b1 where t: "ep_timer_new (User_Cb (Event_Cb (b_next b))) ?b = (t, b1)" by fastforce
  note new = ep_timer_new_ok [OF base_wf_next [OF assms(1)] t]
  have same: "h_buf b1 = h_buf b" "h_stream b1 = h_stream b" using t by (auto simp: ep_timer_new_def)
  let ?b3 = "b1\<lparr>h_item := (h_item b1)(b_next b \<mapsto> \<lparr>ei_timer = t, ei_downstream = p, ei_what = what\<rparr>),
      h_stream := (h_stream b)(p \<mapsto> x\<lparr>ds_list_events := b_next b # ds_list_events x\<rparr>)\<rparr>"
  have "base_wf ?b3" "\<exists>y. h_timer ?b3 t = Some y" using new by auto
  then obtain y where y: "base_wf ?b3" "h_timer ?b3 t = Some y" by blast
  from ep_timer_add_ok [OF this, of 0] obtain b' where b': "ep_timer_add t 0 ?b3 = Inr b'" "base_wf b'"
    "ep_base.more b' = ep_base.more ?b3" by blast
  have "http_upstream_queue_event p what b = ep_timer_add t 0 ?b3"
    using assms(2) t same by (simp add: http_upstream_queue_event_def Let_def upd_stream_def look_def)
  with b' ds_more [OF b'(3)] same show ?thesis by simp
qed

section \<open>The parser and the header it fills\<close>

text \<open>
  What holds between two callbacks: the loop is well-formed, the connections are untouched, the stream is
  live and its header is in order; \<open>ds_named\<close> while a value may come.
\<close>

definition ds_live :: "(nat \<rightharpoonup> nat ep_buf_impl) \<Rightarrow> nat \<Rightarrow> 'z ds \<times> nat \<Rightarrow> bool" where
  "ds_live bufs q d \<longleftrightarrow> base_wf (fst d) \<and> h_buf (fst d) = bufs \<and> snd d = q \<and> h_stream (fst d) q \<noteq> None"

definition ds_inv :: "(nat \<rightharpoonup> nat ep_buf_impl) \<Rightarrow> nat \<Rightarrow> phase \<Rightarrow> 'z ds \<times> nat \<Rightarrow> bool" where
  "ds_inv bufs q ph d \<longleftrightarrow> ds_live bufs q d \<and> (\<forall>x. h_stream (fst d) q = Some x \<longrightarrow> header_ok (ds_request_header x))"

definition ds_named :: "(nat \<rightharpoonup> nat ep_buf_impl) \<Rightarrow> nat \<Rightarrow> phase \<Rightarrow> 'z ds \<times> nat \<Rightarrow> bool" where
  "ds_named bufs q ph d \<longleftrightarrow> ds_inv bufs q ph d
     \<and> (\<forall>x. h_stream (fst d) q = Some x \<longrightarrow> hd_last_field (ds_request_header x) \<noteq> None)"

lemma upd_header_inv:
  assumes "ds_inv bufs q ph (b, p)" and "\<And>h. header_ok h \<Longrightarrow> \<exists>h'. g h = Inr h' \<and> header_ok h'"
  shows "\<exists>b'. upd_header p g b = Inr b' \<and> ds_inv bufs q ph (b', p)"
proof -
  obtain x where x: "h_stream b p = Some x" "header_ok (ds_request_header x)"
    using assms(1) by (auto simp: ds_inv_def ds_live_def)
  with assms(2) obtain h' where "g (ds_request_header x) = Inr h'" "header_ok h'" by blast
  with x assms(1) show ?thesis by (auto simp: upd_header_def look_def ds_inv_def ds_live_def)
qed

lemma upd_header_named:
  assumes "ds_inv bufs q ph (b, p)" and "h_stream b p = Some x"
    and "g (ds_request_header x) = Inr h'" "header_ok h'" "hd_last_field h' \<noteq> None"
  shows "\<exists>b'. upd_header p g b = Inr b' \<and> ds_named bufs q ph (b', p)"
  using assms by (auto simp: upd_header_def look_def ds_inv_def ds_live_def ds_named_def)

lemma ds_inv_stream: "ds_inv bufs q ph (b, p) \<Longrightarrow> \<exists>x. h_stream b p = Some x \<and> header_ok (ds_request_header x)"
  by (auto simp: ds_inv_def ds_live_def)

lemmas ds_callbacks = htp_hooks_def http_downstream_msg_begin_def http_downstream_url_complete_def
  http_downstream_header_fieldcb_def http_downstream_header_valuecb_def http_downstream_headers_completecb_def
  http_downstream_bodycb_def http_downstream_message_completecb_def cb_notify_def

lemma ds_urlcb:
  "ds_inv bufs q ph (b, p) \<Longrightarrow> \<exists>b'. upd_header p (\<lambda>h. Inr (header_set_url h d)) b = Inr b' \<and> ds_inv bufs q ph (b', p)"
  by (rule upd_header_inv) (auto simp: header_ok_def header_set_url_def)

lemma ds_fieldcb:
  assumes "ds_inv bufs q ph (b, p)"
  shows "\<exists>b'. upd_header p (\<lambda>h. header_append_field h d) b = Inr b' \<and> ds_named bufs q ph (b', p)"
proof -
  obtain x where x: "h_stream b p = Some x" "header_ok (ds_request_header x)" using ds_inv_stream [OF assms] by blast
  from header_append_field_ok [OF x(2), of d] obtain h' where
    "header_append_field (ds_request_header x) d = Inr h'" "header_ok h'" "hd_last_field h' \<noteq> None" by blast
  then show ?thesis by (intro upd_header_named [OF assms x(1)])
qed

lemma ds_valuecb:
  assumes "ds_named bufs q ph (b, p)"
  shows "\<exists>b'. upd_header p (\<lambda>h. header_append_value h d) b = Inr b' \<and> ds_named bufs q ph (b', p)"
proof -
  have i: "ds_inv bufs q ph (b, p)" using assms by (simp add: ds_named_def)
  obtain x where x: "h_stream b p = Some x" "header_ok (ds_request_header x)" using ds_inv_stream [OF i] by blast
  moreover have "hd_last_field (ds_request_header x) \<noteq> None"
    using assms x by (auto simp: ds_named_def ds_inv_def ds_live_def)
  ultimately obtain h' where
    "header_append_value (ds_request_header x) d = Inr h'" "header_ok h'" "hd_last_field h' \<noteq> None"
    using header_append_value_ok [of "ds_request_header x" d] by blast
  then show ?thesis by (intro upd_header_named [OF i x(1)])
qed

lemma ds_headers_completecb:
  assumes "ds_inv bufs q ph (b, p)"
  shows "\<exists>b'. rbind (upd_header p header_append_complete b) (http_upstream_queue_event p w) = Inr b' \<and> ds_inv bufs q ph' (b', p)"
proof -
  obtain b1 where b1: "upd_header p header_append_complete b = Inr b1" "ds_inv bufs q ph (b1, p)"
    using upd_header_inv [OF assms] header_append_complete_ok by metis
  then obtain x where x: "base_wf b1" "h_stream b1 p = Some x" "header_ok (ds_request_header x)"
    by (auto simp: ds_inv_def ds_live_def)
  from queue_event_ok [OF x(1,2), of w] b1 x show ?thesis by (auto simp: ds_inv_def ds_live_def)
qed

interpretation ds_parser: http_callbacks htp_hooks "ds_inv bufs q" "ds_named bufs q" for bufs q
proof unfold_locales
  show "notify_ok (on_message_begin htp_hooks) (ds_inv bufs q Idle) (ds_inv bufs q Head)"
    "notify_ok (on_message_complete htp_hooks) (ds_inv bufs q Body) (ds_inv bufs q Idle)"
    "notify_ok (on_status_complete htp_hooks) (ds_inv bufs q Head) (ds_inv bufs q Head)"
    "data_ok (on_body htp_hooks) (\<lambda>bs. bs \<noteq> []) (ds_inv bufs q Body) (ds_inv bufs q Body)"
    by (auto simp: notify_ok_def data_ok_def ds_callbacks ds_inv_def split: prod.splits)
  show "data_ok (on_url htp_hooks) (\<lambda>_. True) (ds_inv bufs q Head) (ds_inv bufs q Head)"
    by (simp add: htp_hooks_def cb_data_ok [OF http_downstream_url_complete_def] ds_urlcb)
  show "data_ok (on_header_field htp_hooks) (\<lambda>_. True) (ds_inv bufs q ph) (ds_named bufs q ph)" for ph
    by (simp add: htp_hooks_def cb_data_ok [OF http_downstream_header_fieldcb_def] ds_fieldcb)
  show "data_ok (on_header_value htp_hooks) (\<lambda>_. True) (ds_named bufs q ph) (ds_named bufs q ph)" for ph
    by (simp add: htp_hooks_def cb_data_ok [OF http_downstream_header_valuecb_def] ds_valuecb)
  show "notify_ok (on_headers_complete htp_hooks) (ds_inv bufs q Head) (ds_inv bufs q Body)"
    unfolding htp_hooks_def
    by (simp, rule cb_notify_ok [OF http_downstream_headers_completecb_def], rule ds_headers_completecb)
  show "ds_named bufs q ph d \<Longrightarrow> ds_inv bufs q ph d" for ph and d :: "'b ds \<times> nat"
    by (simp add: ds_named_def)
qed

text \<open>What the callbacks keep even when the parser fails.\<close>

lemma upd_header_live: "ds_live bufs q (b, p) \<Longrightarrow> res_all (\<lambda>b'. ds_live bufs q (b', p)) (upd_header p g b)"
  by (auto simp: ds_live_def upd_header_def rbind_eq_Inr intro!: res_allI)

lemma queue_event_live: "ds_live bufs q (b, p) \<Longrightarrow> res_all (\<lambda>b'. ds_live bufs q (b', p)) (http_upstream_queue_event p w b)"
proof -
  assume l: "ds_live bufs q (b, p)"
  then obtain x where "base_wf b" "h_stream b p = Some x" by (auto simp: ds_live_def)
  from queue_event_ok [OF this, of w] l show ?thesis by (auto simp: ds_live_def)
qed

interpretation ds_data: parser_user htp_hooks "ds_live bufs q" for bufs q
proof unfold_locales
  show "notify_keeps (ds_live bufs q) (on_message_begin htp_hooks)"
    "notify_keeps (ds_live bufs q) (on_message_complete htp_hooks)"
    "notify_keeps (ds_live bufs q) (on_status_complete htp_hooks)"
    "data_keeps (ds_live bufs q) (on_body htp_hooks)"
    by (auto simp: notify_keeps_def data_keeps_def ds_callbacks split: prod.splits)
  show "data_keeps (ds_live bufs q) (on_url htp_hooks)"
    by (simp add: htp_hooks_def cb_data_keeps [OF http_downstream_url_complete_def] upd_header_live)
  show "data_keeps (ds_live bufs q) (on_header_field htp_hooks)"
    by (simp add: htp_hooks_def cb_data_keeps [OF http_downstream_header_fieldcb_def] upd_header_live)
  show "data_keeps (ds_live bufs q) (on_header_value htp_hooks)"
    by (simp add: htp_hooks_def cb_data_keeps [OF http_downstream_header_valuecb_def] upd_header_live)
  show "notify_keeps (ds_live bufs q) (on_headers_complete htp_hooks)"
    unfolding htp_hooks_def
    by (simp, rule cb_notify_keeps [OF http_downstream_headers_completecb_def])
      (rule res_all_bind upd_header_live queue_event_live | assumption)+
qed

section \<open>A connection survives every input\<close>

definition stream_ok :: "nat \<Rightarrow> 'z ds \<Rightarrow> bool" where
  "stream_ok q b \<longleftrightarrow> (case h_stream b q of None \<Rightarrow> False | Some x \<Rightarrow>
     let ps = ds_request_parser x; h = ds_request_header x
     in hp_errno ps \<in> {HPE_OK, HPE_PAUSED} \<longrightarrow> hp_wf 0 ps \<and> header_ok h
          \<and> (hp_state ps \<in> value_states \<longrightarrow> hd_last_field h \<noteq> None))"

lemma ds_parser_ok:
  assumes "base_wf b" and "h_stream b q = Some x"
  shows "ds_parser.parser_ok (h_buf b) q (with_data (b, q) ps) \<longleftrightarrow>
    (hp_errno ps \<in> {HPE_OK, HPE_PAUSED} \<longrightarrow> hp_wf 0 ps \<and> header_ok (ds_request_header x)
       \<and> (hp_state ps \<in> value_states \<longrightarrow> hd_last_field (ds_request_header x) \<noteq> None))"
  using assms unfolding ds_parser.parser_ok_def ds_parser.pinv_def
  by (auto simp: ds_inv_def ds_live_def ds_named_def)

lemma clientcb_ok:
  assumes "base_wf b" and "h_buf b p = Some x" and "bi_is_incb x" and "bi_buf_read x = Some bytes"
    and "bi_read_buf_len x = int (length bytes) \<or> bi_read_buf_len x \<le> 0" and "int (length bytes) < 2 ^ 63" and "stream_ok q b"
  shows "\<exists>b'. http_upstream_clientcb q p EP_BUF_READ b = Inr b' \<and> base_wf b' \<and> h_buf b' = h_buf b \<and> stream_ok q b'"
proof (cases "bi_read_buf_len x \<le> 0")
  case True
  then show ?thesis using assms by (simp add: http_upstream_clientcb_def ep_buf_read_def look_def)
next
  case False
  then have bytes: "bytes \<noteq> []" "bi_read_buf_len x = int (length bytes)" using assms(5) by auto
  obtain y where y: "h_stream b q = Some y" using assms(7) by (auto simp: stream_ok_def split: option.splits)
  let ?ps = "ds_request_parser y"
  have "ds_parser.parser_ok (h_buf b) q (with_data (b, q) ?ps)"
    using assms(7) y ds_parser_ok [OF assms(1) y, of ?ps] by (simp add: stream_ok_def Let_def)
  from ds_parser.run_good [OF this assms(6) bytes(1)] obtain d ps n where
    r: "run_parser htp_hooks bytes ?ps (b, q) = Inr (d, ps, n)" "ds_parser.parser_ok (h_buf b) q (with_data d ps)" by blast
  have "ds_live (h_buf b) q (b, q)" using assms(1) y by (simp add: ds_live_def)
  from ds_data.run_keeps [OF this, of bytes ?ps] r(1) have l: "ds_live (h_buf b) q d" by (auto dest: res_allD)
  then obtain b1 z where d: "d = (b1, q)" "base_wf b1" "h_buf b1 = h_buf b" "h_stream b1 q = Some z"
    by (cases d) (auto simp: ds_live_def)
  have "http_upstream_clientcb q p EP_BUF_READ b = Inr (b1\<lparr>h_stream := (h_stream b1)(q \<mapsto> z\<lparr>ds_request_parser := ps\<rparr>)\<rparr>)"
    using assms(2-4) bytes y r(1) d
    by (simp add: http_upstream_clientcb_def ep_buf_read_def look_def deref_def upd_stream_def)
  moreover have "stream_ok q (b1\<lparr>h_stream := (h_stream b1)(q \<mapsto> z\<lparr>ds_request_parser := ps\<rparr>)\<rparr>)"
    using r(2) d ds_parser_ok [OF d(2,4), of ps] by (simp add: stream_ok_def Let_def)
  ultimately show ?thesis using d by simp
qed

text \<open>A connection and its stream, and a sequence of reads on it.\<close>

definition conn_ok :: "nat \<Rightarrow> 'z ds \<Rightarrow> bool" where
  "conn_ok p b \<longleftrightarrow> base_wf b \<and> (case h_buf b p of None \<Rightarrow> False | Some x \<Rightarrow> \<not> bi_is_free_pending x \<and> stream_ok (bi_cb x) b)"

fun read_all :: "nat \<Rightarrow> (unit + char list) list \<Rightarrow> 'z ds \<Rightarrow> 'z ds res" where
  "read_all p [] b = Inr b"
| "read_all p (rd # rds) b = rbind (ep_buf_file_readcb http_upstream_clientcb rd p b) (\<lambda>(go, b1). read_all p rds b1)"

lemma stream_ok_buf [simp]: "stream_ok q (b\<lparr>h_buf := h\<rparr>) = stream_ok q b"
  by (simp add: stream_ok_def)

lemma readcb_ok:
  fixes b :: "'z ds"
  assumes "conn_ok p b" and "case rd of Inl _ \<Rightarrow> True | Inr bs \<Rightarrow> length bs \<le> 4096"
  shows "\<exists>b'. ep_buf_file_readcb http_upstream_clientcb rd p b = Inr (True, b') \<and> conn_ok p b'"
proof -
  obtain x where x: "base_wf b" "h_buf b p = Some x" "\<not> bi_is_free_pending x" "stream_ok (bi_cb x) b"
    using assms(1) by (auto simp: conn_ok_def split: option.splits)
  define bs where "bs = (case rd of Inl _ \<Rightarrow> [] | Inr bs \<Rightarrow> bs)"
  define len where "len = (case rd of Inl _ \<Rightarrow> - 1 | Inr bs \<Rightarrow> int (length bs))"
  have len: "len = int (length bs) \<or> len \<le> 0" "int (length bs) < 2 ^ 63"
    using assms(2) by (auto simp: bs_def len_def split: sum.splits)
  define x1 where "x1 = x\<lparr>bi_buf_read := Some bs, bi_read_buf_len := len, bi_is_incb := True\<rparr>"
  define b1 where "b1 = b\<lparr>h_buf := (h_buf b)(p \<mapsto> x1)\<rparr>"
  have b1: "base_wf b1" "h_buf b1 p = Some x1" "stream_ok (bi_cb x1) b1" "\<not> bi_is_free_pending x1"
    using x by (simp_all add: b1_def x1_def)
  have u: "upd_buf p (\<lambda>x. x\<lparr>bi_is_incb := True\<rparr>) b1 = Inr b1"
    using b1(2) by (auto simp: upd_buf_def look_def x1_def b1_def)
  obtain b2 where b2: "http_upstream_clientcb (bi_cb x1) p EP_BUF_READ b1 = Inr b2" "base_wf b2" "h_buf b2 = h_buf b1"
    "stream_ok (bi_cb x1) b2"
    using clientcb_ok [OF b1(1,2) _ _ _ len(2) b1(3)] len(1) by (auto simp: x1_def)
  have "call_user http_upstream_clientcb p EP_BUF_READ b1 = Inr (b2\<lparr>h_buf := (h_buf b2)(p \<mapsto> x1\<lparr>bi_is_incb := False\<rparr>)\<rparr>)"
    using b2 b1(2) by (simp add: call_user_def u look_def, simp add: upd_buf_def look_def)
  then obtain b3 y where b3: "(if and (bi_detect x1) EP_BUF_READ \<noteq> 0 then call_user http_upstream_clientcb p EP_BUF_READ b1 else Inr b1) = Inr b3"
    "base_wf b3" "h_buf b3 p = Some y" "bi_cb y = bi_cb x1" "\<not> bi_is_free_pending y" "stream_ok (bi_cb x1) b3"
    using b1 b2 by (cases "and (bi_detect x1) EP_BUF_READ \<noteq> 0") auto
  have "ep_buf_file_readcb http_upstream_clientcb rd p b
      = Inr (True, b3\<lparr>h_buf := (h_buf b3)(p \<mapsto> y\<lparr>bi_buf_read := None, bi_read_buf_len := - 1\<rparr>)\<rparr>)"
    using x(2) b3 b1(2) unfolding ep_buf_file_readcb_def Let_def
    by (simp add: upd_buf_def look_def finish_free_def flip: bs_def len_def x1_def b1_def)
  with b3 show ?thesis by (simp add: conn_ok_def)
qed

text \<open>
  Claim C7.  Whatever arrives on a downstream connection, in reads of up to 4096 bytes or as errors, the chain from
  the read callback of the buffered connection through the request parser to the header and the event queue returns: no
  assertion of the parser or of the header fails, no pointer is bad, and the event loop, the connection and the
  stream are in order afterwards.
\<close>

theorem http_downstream_survives:
  assumes "conn_ok p b" and "\<forall>bs. Inr bs \<in> set rds \<longrightarrow> length bs \<le> 4096"
  shows "\<exists>b'. read_all p rds b = Inr b' \<and> conn_ok p b'"
  using assms
proof (induction rds arbitrary: b)
  case (Cons rd rds)
  obtain b1 where b1: "ep_buf_file_readcb http_upstream_clientcb rd p b = Inr (True, b1)" "conn_ok p b1"
    using readcb_ok [OF Cons.prems(1), of rd] Cons.prems(2) by (cases rd) auto
  with Cons.IH [OF b1(2)] Cons.prems(2) show ?case by auto
qed simp

text \<open>An accepted connection starts in order; the state before the first is that of a fresh event loop.\<close>

definition ds_create :: "int \<Rightarrow> ds_base" where
  "ds_create now = buf_base.extend (buf_create now) (ds_base.fields Map.empty Map.empty 0 None False [])"

lemma ds_create_simps [simp]:
  "base_wf (ds_create now)" "length (b_files (ds_create now)) = 1024" "b_next (ds_create now) = 1"
  "b_list_timers (ds_create now) = []"
proof -
  let ?b = "buf_create now :: (ds_callback, nat) buf_base"
  have "base_wf ?b" "length (b_files ?b) = 1024" "b_next ?b = 1" "b_list_timers ?b = []" by simp_all
  then show "base_wf (ds_create now)" "length (b_files (ds_create now)) = 1024" "b_next (ds_create now) = 1"
    "b_list_timers (ds_create now) = []"
    by (simp_all add: ds_create_def buf_base.extend_def base_wf_def)
qed

lemma accept_ok:
  fixes b :: "'z ds"
  assumes "base_wf b" and "0 \<le> acc" and "acc < int (length (b_files b))"
  shows "\<exists>b'. http_upstream_acceptcb acc sock b = Inr b' \<and> conn_ok (Suc (b_next b)) b'"
proof -
  let ?s = "b_next b" and ?b = "b\<lparr>b_next := Suc (b_next b)\<rparr>"
  have w: "base_wf ?b" "acc < int (length (b_files ?b))" using base_wf_next [OF assms(1)] assms(3) by simp_all
  obtain b1 x where b1: "ep_buf_create sock acc ?s ?b = Inr (Suc ?s, b1)" "watchable (Suc ?s) b1"
    "h_buf b1 (Suc ?s) = Some x" "bi_cb x = ?s" "\<not> bi_is_free_pending x"
    using ep_buf_create_ok [OF w(1) assms(2) w(2), of sock ?s] by auto
  obtain b2 where b2: "ep_buf_enable (Suc ?s) EP_BUF_READ b1 = Inr b2" "base_wf b2"
    "h_buf b2 = (h_buf b1)(Suc ?s \<mapsto> x\<lparr>bi_detect := EP_BUF_READ\<rparr>)"
    using ep_buf_enable_ok [OF b1(2,3), of EP_BUF_READ] by blast
  show ?thesis
    using b1 b2 header_new_ok
    by (simp add: http_upstream_acceptcb_def Let_def conn_ok_def stream_ok_def http_parser_init_def hp_wf_def state_sets)
qed

theorem http_downstream_survives_witness:
  "\<exists>b b'. http_upstream_acceptcb 5 6 (ds_create 0) = Inr b
     \<and> read_all 2 [Inr ''GET / HTTP/1.1'', Inr (CRLF @ ''A: b'' @ CRLF), Inl (), Inr (CRLF @ ''junk'')] b = Inr b' \<and> conn_ok 2 b'"
proof -
  obtain b where b: "http_upstream_acceptcb 5 6 (ds_create 0) = Inr b" "conn_ok 2 b"
    using accept_ok [of "ds_create 0" 5 6] by (auto simp: numeral_2_eq_2)
  have "\<exists>b'. read_all 2 [Inr ''GET / HTTP/1.1'', Inr (CRLF @ ''A: b'' @ CRLF), Inl (), Inr (CRLF @ ''junk'')] b = Inr b' \<and> conn_ok 2 b'"
    by (rule http_downstream_survives [OF b(2)]) auto
  with b(1) show ?thesis by blast
qed

section \<open>The downstream side on the event loop\<close>

lemma upd_stream_wf [wf_rules]: "base_wf b \<Longrightarrow> res_all base_wf (upd_stream p g b)"
  by (auto simp: upd_stream_def rbind_eq_Inr intro!: res_allI)

lemma upd_header_wf [wf_rules]: "base_wf b \<Longrightarrow> res_all base_wf (upd_header p g b)"
  by (auto simp: upd_header_def rbind_eq_Inr intro!: res_allI)

lemma queue_event_wf [wf_rules]:
  fixes b :: "'z ds"
  assumes "base_wf b"
  shows "res_all base_wf (http_upstream_queue_event p what b)"
proof -
  obtain t b1 where t: "ep_timer_new (User_Cb (Event_Cb (b_next b))) (b\<lparr>b_next := Suc (b_next b)\<rparr>) = (t, b1)" by fastforce
  have "base_wf b1" using ep_timer_new_ok [OF base_wf_next [OF assms] t] by simp
  then have "res_all base_wf (rbind (upd_stream p g (b1\<lparr>h_item := h\<rparr>)) (ep_timer_add t 0))" for g h
    by (intro res_all_bind [OF upd_stream_wf ep_rules(4)]) simp_all
  then show ?thesis by (simp add: http_upstream_queue_event_def Let_def t)
qed

lemma acceptcb_wf [wf_rules]: "base_wf b \<Longrightarrow> res_all base_wf (http_upstream_acceptcb acc sock b)"
  unfolding http_upstream_acceptcb_def Let_def
  by (rule wf_steps wf_rules base_wf_next | assumption | simp del: EP_BUF_READ_def)+

definition loop_wf :: "'z ds \<times> nat \<Rightarrow> bool" where
  "loop_wf d \<longleftrightarrow> base_wf (fst d)"

lemma loop_wf_pair [simp]: "loop_wf (b, p) = base_wf b"
  by (simp add: loop_wf_def)

interpretation ds_loop: parser_user htp_hooks loop_wf
proof unfold_locales
  show "notify_keeps loop_wf (on_message_begin htp_hooks)"
    "notify_keeps loop_wf (on_message_complete htp_hooks)"
    "notify_keeps loop_wf (on_status_complete htp_hooks)"
    "data_keeps loop_wf (on_body htp_hooks)"
    by (auto simp: notify_keeps_def data_keeps_def ds_callbacks split: prod.splits)
  show "data_keeps loop_wf (on_url htp_hooks)"
    unfolding htp_hooks_def by (simp, rule cb_data_keeps [OF http_downstream_url_complete_def], simp add: upd_header_wf)
  show "data_keeps loop_wf (on_header_field htp_hooks)"
    unfolding htp_hooks_def by (simp, rule cb_data_keeps [OF http_downstream_header_fieldcb_def], simp add: upd_header_wf)
  show "data_keeps loop_wf (on_header_value htp_hooks)"
    unfolding htp_hooks_def by (simp, rule cb_data_keeps [OF http_downstream_header_valuecb_def], simp add: upd_header_wf)
  show "notify_keeps loop_wf (on_headers_complete htp_hooks)"
    unfolding htp_hooks_def
    by (simp, rule cb_notify_keeps [OF http_downstream_headers_completecb_def])
      (unfold loop_wf_pair, (rule wf_steps wf_rules | assumption)+)
qed

lemma clientcb_wf [wf_rules]:
  assumes "base_wf b"
  shows "res_all base_wf (http_upstream_clientcb q p what b)"
proof -
  have run: "res_all (\<lambda>r. loop_wf (fst r)) (run_parser htp_hooks bytes ps (b, q))" for bytes ps
    by (rule ds_loop.run_keeps) (simp add: assms)
  have step: "res_all base_wf (rbind (run_parser htp_hooks bytes ps (b, q)) (\<lambda>(d, ps, n).
      upd_stream q (\<lambda>x. x\<lparr>ds_request_parser := ps\<rparr>) (fst d)))" for bytes ps
    by (rule res_all_bind [OF run]) (auto simp: loop_wf_def intro: wf_rules)
  have reads: "res_all (\<lambda>(x, y). True) (ep_buf_read p b)" "res_all (\<lambda>_. True) (deref r)" for r :: "char list option"
    by (auto intro: res_allI)
  show ?thesis
    unfolding http_upstream_clientcb_def
    by (rule wf_steps step reads wf_rules | simp add: assms)+
qed

text \<open>The contract of the user's callback, and what it gives.\<close>

locale downstream_user =
  fixes cb :: "'z downstream_cb"
  assumes cb_keeps: "base_wf b \<Longrightarrow> res_all base_wf (cb what s args b)"
begin

lemma queued_wf: "base_wf b \<Longrightarrow> res_all base_wf (http_upstream_eventcb cb item b)"
  unfolding http_upstream_eventcb_def Let_def
  by (rule wf_steps wf_rules cb_keeps | assumption | simp)+

end

sublocale downstream_user \<subseteq> ep_buf_user http_upstream_clientcb w rd "ds_handlers cb acc sock" for w rd acc sock
proof unfold_locales
  show "base_wf b \<Longrightarrow> res_all base_wf (http_upstream_clientcb d p what b)" for b :: "'z ds" and d p what
    by (rule clientcb_wf)
  show "base_wf b \<Longrightarrow> res_all base_wf (on_file (ds_handlers cb acc sock) (User_Cb u) f fd what b)" for b u f fd what
    by (cases u) (simp_all add: ds_handlers_def acceptcb_wf)
  show "base_wf b \<Longrightarrow> res_all base_wf (on_timer (ds_handlers cb acc sock) c t b)" for b c t
    by (auto simp: ds_handlers_def queued_wf split: file_cb.split ds_callback.split)
qed

interpretation server_user: downstream_user server_downstreamcb
  by unfold_locales (simp add: server_downstreamcb_def)



end
