(* ===== verification/Dns_Wire.thy ===== *)
theory Dns_Wire
  imports Prelude
begin

text \<open>
  The messages of \<^verbatim>\<open>dns.c\<close>: the query the resolver sends and the decoding of an answer, over byte arrays.  A message
  is the whole array of 512 bytes it is received into, because the sources never look at the length received; an
  access outside it is a fault.  A name may point back into the message, and the C function calls itself to follow
  the pointer: its model carries fuel for those calls, and \<open>No_Return\<close> says that they used it up.
\<close>

section \<open>Byte arrays\<close>

definition WORKSPACE_SIZE :: nat where [simp]: "WORKSPACE_SIZE = 512"

definition byte_at :: "char list \<Rightarrow> nat \<Rightarrow> char res" where
  "byte_at buf p = (if p < length buf then Inr (buf ! p) else Inl Out_Of_Bounds)"

definition bytes_at :: "char list \<Rightarrow> nat \<Rightarrow> nat \<Rightarrow> char list res" where
  "bytes_at buf p n = (if p + n \<le> length buf then Inr (take n (drop p buf)) else Inl Out_Of_Bounds)"

definition poke :: "char list \<Rightarrow> nat \<Rightarrow> char \<Rightarrow> char list res" where
  "poke buf p c = (if p < length buf then Inr (buf[p := c]) else Inl Out_Of_Bounds)"

text \<open>The sources read a field of two bytes with the factor 255.\<close>

definition field2 :: "char list \<Rightarrow> nat \<Rightarrow> nat res" where
  "field2 buf p = rbind (byte_at buf p) (\<lambda>h. rbind (byte_at buf (p + 1)) (\<lambda>l. Inr (nat (uchar h) * 255 + nat (uchar l))))"

lemma uchar_char_of: "k < 256 \<Longrightarrow> uchar (char_of k) = int k"
  using of_nat_of_char [of "char_of k", where 'a = int] by (simp add: uchar_def)

lemma byte_at_eq_Inr: "byte_at buf p = Inr c \<longleftrightarrow> p < length buf \<and> c = buf ! p"
  by (auto simp: byte_at_def)

fun join_dots :: "string list \<Rightarrow> string" where
  "join_dots [] = []"
| "join_dots [l] = l"
| "join_dots (l # ls) = l @ CHR ''.'' # join_dots ls"

section \<open>The query\<close>

text \<open>The inner loop of \<^verbatim>\<open>install_domain_name\<close>, which looks for the end of a label, and the outer one.\<close>

function scan_end :: "char list \<Rightarrow> nat \<Rightarrow> nat res" where
  "scan_end buf e = rbind (byte_at buf e) (\<lambda>c. if c \<noteq> CHR ''.'' \<and> c \<noteq> NUL then scan_end buf (e + 1) else Inr e)"
  by pat_completeness auto
termination
  by (relation "measure (\<lambda>(buf, e). length buf - e)") (auto simp: byte_at_eq_Inr)

function install_labels :: "char list \<Rightarrow> nat \<Rightarrow> (char list \<times> nat) res" where
  "install_labels buf p =
     rbind (byte_at buf p) (\<lambda>c.
     if c = NUL then Inr (buf, p + 1)
     else if c = CHR ''.''
     then rbind (scan_end buf (p + 1)) (\<lambda>e. install_labels (buf[p := char_of (e - p - 1)]) (p + 1))
     else install_labels buf (p + 1))"
  by pat_completeness auto
termination
  by (relation "measure (\<lambda>(buf, p). length buf - p)") (auto simp: byte_at_eq_Inr)

definition install_domain_name :: "char list \<Rightarrow> nat \<Rightarrow> string \<Rightarrow> (char list \<times> nat) res" where
  "install_domain_name buf p domain_name =
     rbind (poke buf p (CHR ''.'')) (\<lambda>buf1.
     rbind (memcpy_at buf1 (p + 1) (domain_name @ [NUL])) (\<lambda>buf2. install_labels buf2 p))"

text \<open>The bytes \<^verbatim>\<open>dns_send_req\<close> hands to \<^verbatim>\<open>sendto\<close>.\<close>

definition dns_query :: "string \<Rightarrow> char list res" where
  "dns_query host =
     (let send_buf = (replicate WORKSPACE_SIZE NUL)[1 := CHR 0x01, 2 := CHR 0x01, 5 := CHR 0x01]
      in rbind (install_domain_name send_buf 12 host) (\<lambda>(buf1, p).
         rbind (poke buf1 (p + 1) (CHR 0x01)) (\<lambda>buf2.
         rbind (poke buf2 (p + 3) (CHR 0x01)) (\<lambda>buf3. Inr (take (p + 4) buf3)))))"

section \<open>The answer\<close>

function decode_enc_str :: "nat \<Rightarrow> char list \<Rightarrow> nat \<Rightarrow> char list \<Rightarrow> (nat \<times> char list) res" where
  "decode_enc_str n msg p buf =
     rbind (byte_at msg p) (\<lambda>c.
     if c = NUL
     then rbind (c_strlen buf) (\<lambda>l. if l = 0 then Inl Out_Of_Bounds else Inr (p + 1, buf[l - 1 := NUL]))
     else if uchar c = 0xc0
     then rbind (byte_at msg (p + 1)) (\<lambda>d.
          case n of
            0 \<Rightarrow> Inl No_Return
          | Suc m \<Rightarrow>
              rbind (decode_enc_str m msg (nat (and (uchar c) 0x3f) * 255 + nat (uchar d)) buf) (\<lambda>(q, buf1).
              Inr (p + 2, buf1)))
     else let len = nat (uchar c)
          in rbind (bytes_at msg (p + 1) len) (\<lambda>bs.
             rbind (c_strlen buf) (\<lambda>l.
             rbind (memcpy_at buf l bs) (\<lambda>buf1.
             rbind (strcat buf1 ''.'') (\<lambda>buf2. decode_enc_str n msg (p + 1 + len) buf2)))))"
  by pat_completeness auto
termination
  by (relation "measures [\<lambda>(n, msg, p, buf). n, \<lambda>(n, msg, p, buf). length msg - p]") (auto simp: byte_at_eq_Inr)

text \<open>A \<^verbatim>\<open>struct request_record\<close> is its only field, the array \<^verbatim>\<open>host\<close>; \<^verbatim>\<open>calloc\<close> clears the records.\<close>

record response_record =
  rr_type :: nat
  rr_ip :: "char list"
  rr_cname :: "char list"
  rr_host :: "char list"

definition new_response_record :: response_record where
  "new_response_record =
     \<lparr>rr_type = 0, rr_ip = replicate 64 NUL, rr_cname = replicate 256 NUL, rr_host = replicate 256 NUL\<rparr>"

definition decode_request_items :: "nat \<Rightarrow> char list \<Rightarrow> nat \<Rightarrow> (nat \<times> char list) res" where
  "decode_request_items n msg p =
     rbind (decode_enc_str n msg p (replicate 256 NUL)) (\<lambda>(p1, host). Inr (p1 + 4, host))"

text \<open>\<^verbatim>\<open>snprintf\<close> of \<^verbatim>\<open>"%d.%d.%d.%d"\<close>, which the loop of the source repeats four times.\<close>

definition dotted :: "char list \<Rightarrow> string" where
  "dotted bs = join_dots (map (\<lambda>c. fmt_d (nat (uchar c))) bs)"

definition decode_resopnse_item :: "nat \<Rightarrow> char list \<Rightarrow> nat \<Rightarrow> (nat \<times> response_record) res" where
  "decode_resopnse_item n msg p =
     rbind (decode_enc_str n msg p (rr_host new_response_record)) (\<lambda>(p, host).
     rbind (field2 msg p) (\<lambda>type.
     rbind (field2 msg (p + 2)) (\<lambda>qclass.
     rbind (bytes_at msg (p + 4) 4) (\<lambda>ttl.
     rbind (field2 msg (p + 8)) (\<lambda>rdlen.
     let p = p + 10; resp = new_response_record\<lparr>rr_host := host, rr_type := type\<rparr>
     in rbind (if type = 1
               then rbind (bytes_at msg p 4) (\<lambda>a.
                    rbind (memcpy_at (rr_ip resp) 0 (dotted a @ [NUL])) (\<lambda>ip. Inr (resp\<lparr>rr_ip := ip\<rparr>)))
               else if type = 5
               then rbind (decode_enc_str n msg p (rr_cname resp)) (\<lambda>(q, cname). Inr (resp\<lparr>rr_cname := cname\<rparr>))
               else Inr resp) (\<lambda>resp.
        Inr (p + rdlen, resp)))))))"

text \<open>The two loops of \<^verbatim>\<open>decode_response\<close>, \<open>f\<close> the function that decodes an item.\<close>

fun decode_items :: "(nat \<Rightarrow> (nat \<times> 'a) res) \<Rightarrow> nat \<Rightarrow> nat \<Rightarrow> (nat \<times> 'a list) res" where
  "decode_items f 0 p = Inr (p, [])"
| "decode_items f (Suc k) p =
     rbind (f p) (\<lambda>(p1, x). rbind (decode_items f k p1) (\<lambda>(p2, xs). Inr (p2, x # xs)))"

text \<open>What \<^verbatim>\<open>decode_response\<close> reads of a message: \<^verbatim>\<open>rcode\<close>, the questions and the answers.\<close>

definition decode_message :: "nat \<Rightarrow> char list \<Rightarrow> (nat \<times> char list list \<times> response_record list) res" where
  "decode_message n msg =
     rbind (field2 msg 0) (\<lambda>id.
     rbind (byte_at msg 2) (\<lambda>qr.
     rbind (byte_at msg 3) (\<lambda>c3.
     rbind (field2 msg 4) (\<lambda>dcount.
     rbind (field2 msg 6) (\<lambda>answer_count.
     rbind (decode_items (decode_request_items n msg) dcount 12) (\<lambda>(p, reqs).
     rbind (decode_items (decode_resopnse_item n msg) answer_count p) (\<lambda>(p, resps).
     Inr (nat (and (uchar c3) 0xf), reqs, resps))))))))"

section \<open>The encoding of names\<close>

text \<open>The reference encoder: a name is cut at its dots, every label goes behind its length, a zero ends the name.\<close>

fun split_dots :: "string \<Rightarrow> string list" where
  "split_dots [] = [[]]"
| "split_dots (c # cs) =
     (let ls = split_dots cs in if c = CHR ''.'' then [] # ls else (c # hd ls) # tl ls)"

definition encode_label :: "string \<Rightarrow> char list" where
  "encode_label l = char_of (length l) # l"

definition encode_name :: "string list \<Rightarrow> char list" where
  "encode_name ls = concat (map encode_label ls) @ [NUL]"

definition plain_label :: "string \<Rightarrow> bool" where
  "plain_label l \<longleftrightarrow> NUL \<notin> set l \<and> CHR ''.'' \<notin> set l"

declare scan_end.simps [simp del] install_labels.simps [simp del] decode_enc_str.simps [simp del]

lemma split_dots_not_Nil [simp]: "split_dots s \<noteq> []"
  by (cases s) (simp_all add: Let_def)

lemma join_dots_Cons: "ls \<noteq> [] \<Longrightarrow> join_dots (l # ls) = l @ CHR ''.'' # join_dots ls"
  by (cases ls) simp_all

lemma join_split_dots: "join_dots (split_dots s) = s"
proof (induction s)
  case (Cons c s)
  then show ?case by (cases "split_dots s"; cases "tl (split_dots s)") (auto simp: Let_def join_dots_Cons)
qed simp

lemma split_dots_plain: "no_nul s \<Longrightarrow> list_all plain_label (split_dots s)"
proof (induction s)
  case (Cons c s)
  then show ?case by (cases "split_dots s") (auto simp: Let_def plain_label_def)
qed (simp add: plain_label_def)

lemma join_dots_dotted: "ls \<noteq> [] \<Longrightarrow> CHR ''.'' # join_dots ls = concat (map (\<lambda>l. CHR ''.'' # l) ls)"
  by (induction ls rule: join_dots.induct) simp_all

lemma join_dots_terminated: "ls \<noteq> [] \<Longrightarrow> concat (map (\<lambda>l. l @ ''.'') ls) = join_dots ls @ ''.''"
  by (induction ls rule: join_dots.induct) simp_all

lemma length_encode_name: "ls \<noteq> [] \<Longrightarrow> length (encode_name ls) = length (join_dots ls) + 2"
  by (induction ls rule: join_dots.induct) (simp_all add: encode_name_def encode_label_def)

lemma scan_end_label:
  assumes "plain_label l" and "c = CHR ''.'' \<or> c = NUL"
  shows "scan_end (pre @ l @ c # post) (length pre) = Inr (length pre + length l)"
  using assms(1)
proof (induction l arbitrary: pre)
  case Nil
  then show ?case using assms(2) by (subst scan_end.simps) (auto simp: byte_at_def)
next
  case (Cons x l)
  then show ?case using Cons.IH [of "pre @ [x]"]
    by (subst scan_end.simps) (auto simp: byte_at_def plain_label_def)
qed

lemma install_labels_skip:
  "plain_label l \<Longrightarrow> install_labels (pre @ l @ post) (length pre) = install_labels (pre @ l @ post) (length pre + length l)"
proof (induction l arbitrary: pre)
  case (Cons x l)
  then show ?case using Cons.IH [of "pre @ [x]"]
    by (subst install_labels.simps) (auto simp: byte_at_def plain_label_def)
qed simp

lemma install_labels_label:
  assumes "plain_label l" and "c = CHR ''.'' \<or> c = NUL"
  shows "install_labels (pre @ CHR ''.'' # l @ c # post) (length pre) =
    install_labels ((pre @ encode_label l) @ c # post) (length (pre @ encode_label l))"
  using scan_end_label [OF assms, of "pre @ [CHR ''.'']" post]
    install_labels_skip [OF assms(1), of "pre @ [char_of (length l)]" "c # post"]
  by (subst install_labels.simps) (simp add: byte_at_def encode_label_def)

lemma install_labels_name:
  "list_all plain_label ls \<Longrightarrow>
   install_labels (pre @ concat (map (\<lambda>l. CHR ''.'' # l) ls) @ NUL # post) (length pre) =
     Inr (pre @ encode_name ls @ post, length pre + length (encode_name ls))"
proof (induction ls arbitrary: pre)
  case Nil
  then show ?case by (subst install_labels.simps) (simp add: byte_at_def encode_name_def)
next
  case (Cons l ls)
  obtain c r where r: "concat (map (\<lambda>l. CHR ''.'' # l) ls) @ NUL # post = c # r" "c = CHR ''.'' \<or> c = NUL"
    by (cases ls) auto
  have "install_labels (pre @ CHR ''.'' # l @ c # r) (length pre) =
      install_labels ((pre @ encode_label l) @ c # r) (length (pre @ encode_label l))"
    using Cons.prems r(2) by (intro install_labels_label) auto
  then show ?case
    using Cons.IH [of "pre @ encode_label l"] Cons.prems r(1) by (simp add: encode_name_def)
qed

lemma install_domain_name_eq:
  assumes "no_nul domain_name" and "p + length domain_name + 2 \<le> length buf"
  shows "install_domain_name buf p domain_name =
    Inr (take p buf @ encode_name (split_dots domain_name) @ drop (p + length domain_name + 2) buf,
         p + length domain_name + 2)"
proof -
  let ?ls = "split_dots domain_name" and ?post = "drop (p + length domain_name + 2) buf"
  have body: "concat (map (\<lambda>l. CHR ''.'' # l) ?ls) = CHR ''.'' # domain_name"
    using join_dots_dotted [of ?ls] by (simp add: join_split_dots)
  have split: "buf[p := CHR ''.''] = take p buf @ CHR ''.'' # drop (Suc p) buf"
    using assms(2) by (simp add: upd_conv_take_nth_drop)
  have "memcpy_at (buf[p := CHR ''.'']) (p + 1) (domain_name @ [NUL])
      = Inr (take p buf @ (CHR ''.'' # domain_name) @ NUL # ?post)"
    using assms(2) unfolding split memcpy_at_def by (simp add: min_def add_ac)
  then show ?thesis
    using install_labels_name [OF split_dots_plain [OF assms(1)], of "take p buf" ?post] assms(2)
      length_encode_name [of ?ls]
    by (simp add: install_domain_name_def poke_def body join_split_dots)
qed

text \<open>
  Claim C13.  The in-place encoder of domain names equals the reference encoder: for every string the name of the question is
  its labels behind their lengths and a zero, the bytes around it are kept, and the pointer returned is behind it.
\<close>

theorem install_domain_name_encodes:
  assumes "no_nul domain_name" and "p + length domain_name + 2 \<le> length buf"
  shows "install_domain_name buf p domain_name =
    Inr (take p buf @ encode_name (split_dots domain_name) @ drop (p + length domain_name + 2) buf,
         p + length domain_name + 2)"
  using assms by (rule install_domain_name_eq)

theorem install_domain_name_encodes_witness:
  "install_domain_name (replicate 8 CHR 0x07) 1 ''a.bc'' =
     Inr ([CHR 0x07, CHR 0x01, CHR ''a'', CHR 0x02, CHR ''b'', CHR ''c'', NUL, CHR 0x07], 7)"
  using install_domain_name_encodes [of "''a.bc''" 1 "replicate 8 CHR 0x07"]
  by (simp add: encode_name_def encode_label_def Let_def numeral_eq_Suc) code_simp

text \<open>The query for a host: the header, the name and the type and class 1.\<close>

lemma dns_query_bytes:
  assumes "no_nul host" and "length host + 18 \<le> WORKSPACE_SIZE"
  shows "dns_query host = Inr ([NUL, CHR 0x01, CHR 0x01, NUL, NUL, CHR 0x01, NUL, NUL, NUL, NUL, NUL, NUL]
    @ encode_name (split_dots host) @ [NUL, CHR 0x01, NUL, CHR 0x01])"
proof -
  let ?e = "encode_name (split_dots host)" and ?buf = "(replicate 512 NUL)[1 := CHR 0x01, 2 := CHR 0x01, 5 := CHR 0x01]"
  have e: "length ?e = length host + 2"
    using length_encode_name [of "split_dots host"] by (simp add: join_split_dots)
  have head: "take 12 ?buf = [NUL, CHR 0x01, CHR 0x01, NUL, NUL, CHR 0x01, NUL, NUL, NUL, NUL, NUL, NUL]"
    by (simp add: take_update_swap take_replicate) (simp add: numeral_eq_Suc)
  have tail: "drop (14 + length host) ?buf = replicate (498 - length host) NUL"
    by (simp add: drop_update_cancel)
  have "498 - length host = Suc (Suc (Suc (Suc (494 - length host))))"
    using assms(2) by simp
  then show ?thesis
    using assms e
    by (simp add: dns_query_def Let_def install_domain_name_eq head [simplified] tail poke_def list_update_append)
      (simp add: take_Cons')
qed

section \<open>The decoding of names\<close>

text \<open>A cleared array of \<open>k\<close> bytes that holds the text \<open>s\<close>.\<close>

definition zbuf :: "nat \<Rightarrow> string \<Rightarrow> char list" where
  "zbuf k s = s @ replicate (k - length s) NUL"

lemma zbuf_Nil: "replicate k NUL = zbuf k []"
  by (simp add: zbuf_def)

lemma zbuf_c_str [simp]: "no_nul s \<Longrightarrow> c_str (zbuf k s) = s"
proof -
  assume "no_nul s"
  then show ?thesis by (cases "k - length s") (simp_all add: zbuf_def cstr_simps)
qed

lemma zbuf_strlen: "no_nul s \<Longrightarrow> length s < k \<Longrightarrow> c_strlen (zbuf k s) = Inr (length s)"
  by (simp add: c_strlen_def) (simp add: zbuf_def)

lemma zbuf_memcpy:
  "length s + length t \<le> k \<Longrightarrow> memcpy_at (zbuf k s) (length s) t = Inr (zbuf k (s @ t))"
  by (simp add: memcpy_at_def zbuf_def)

lemma zbuf_strcat:
  assumes "no_nul s" and "length s + length t < k"
  shows "strcat (zbuf k s) t = Inr (zbuf k (s @ t))"
proof -
  have "k - length s = Suc (k - Suc (length s))" and "k - (length s + length t) = Suc (k - Suc (length s + length t))"
    using assms(2) by simp_all
  then show ?thesis
    using assms by (simp add: strcat_def zbuf_strlen) (simp add: memcpy_at_def zbuf_def)
qed

lemma zbuf_cut: "length s < k \<Longrightarrow> (zbuf k (s @ [c]))[length s := NUL] = zbuf k s"
  by (simp add: zbuf_def list_update_append)
    (metis Suc_diff_Suc replicate_Suc)

text \<open>
  The labels a decoder can tell from a pointer and from the end of the name.
\<close>

definition wire_label :: "string \<Rightarrow> bool" where
  "wire_label l \<longleftrightarrow> l \<noteq> [] \<and> length l < 192 \<and> NUL \<notin> set l"

lemma decode_enc_str_label:
  assumes "wire_label l" and "no_nul s" and "length s + length l + 1 < k"
  shows "decode_enc_str n (pre @ encode_label l @ post) (length pre) (zbuf k s) =
    decode_enc_str n (pre @ encode_label l @ post) (length pre + length (encode_label l)) (zbuf k (s @ l @ ''.''))"
proof -
  have c: "uchar (char_of (length l)) = int (length l)"
    using assms(1) by (simp add: wire_label_def uchar_char_of)
  then have "char_of (length l) \<noteq> NUL"
    using assms(1) by (auto simp: uchar_def wire_label_def)
  moreover have "no_nul l"
    using assms(1) by (simp add: wire_label_def no_nul_def)
  ultimately show ?thesis
    using assms c
    by (subst decode_enc_str.simps)
      (simp add: byte_at_def bytes_at_def encode_label_def wire_label_def Let_def zbuf_strlen zbuf_memcpy zbuf_strcat)
qed

lemma decode_enc_str_labels:
  "list_all wire_label ls \<Longrightarrow> no_nul s \<Longrightarrow> length (s @ concat (map (\<lambda>l. l @ ''.'') ls)) < k \<Longrightarrow>
   decode_enc_str n (pre @ concat (map encode_label ls) @ post) (length pre) (zbuf k s) =
     decode_enc_str n (pre @ concat (map encode_label ls) @ post) (length pre + length (concat (map encode_label ls)))
       (zbuf k (s @ concat (map (\<lambda>l. l @ ''.'') ls)))"
proof (induction ls arbitrary: pre s)
  case (Cons l ls)
  have "no_nul l"
    using Cons.prems by (simp add: wire_label_def no_nul_def)
  then show ?case
    using decode_enc_str_label [of l s k n pre "concat (map encode_label ls) @ post"]
      Cons.IH [of "s @ l @ ''.''" "pre @ encode_label l"] Cons.prems
    by (simp add: add_ac)
qed simp

lemma decode_enc_str_name:
  assumes "ls \<noteq> []" and "list_all wire_label ls" and "length (join_dots ls) + 1 < k"
  shows "decode_enc_str n (pre @ encode_name ls @ post) (length pre) (zbuf k []) =
    Inr (length pre + length (encode_name ls), zbuf k (join_dots ls))"
proof -
  let ?t = "join_dots ls @ ''.''"
  have t: "concat (map (\<lambda>l. l @ ''.'') ls) = ?t"
    using assms(1) by (rule join_dots_terminated)
  have nul: "no_nul ?t"
    unfolding t [symmetric] using assms(2) by (auto simp: no_nul_def list_all_iff wire_label_def)
  have "decode_enc_str n (pre @ encode_name ls @ post) (length pre) (zbuf k []) =
      decode_enc_str n (pre @ encode_name ls @ post) (length pre + length (concat (map encode_label ls))) (zbuf k ?t)"
    using decode_enc_str_labels [OF assms(2), of "[]" k n pre "NUL # post"] assms(3)
    by (simp add: encode_name_def t)
  then show ?thesis
    using nul assms(3) zbuf_cut [of "join_dots ls" k "CHR ''.''"]
    by (subst (asm) (2) decode_enc_str.simps)
      (simp add: byte_at_def encode_name_def nth_append zbuf_strlen)
qed

section \<open>The decoding of answers\<close>

text \<open>
  The answers a name server gives to a query of this resolver: an address or an alias, owned by the name of the question,
  to which it points (offset 12).  An answer carries four bytes of time to live.
\<close>

datatype answer = Address "char list" "char list" | Alias "char list" "string list"

definition qname_pointer :: "char list" where
  "qname_pointer = [CHR 0xC0, CHR 0x0C]"

fun encode_answer :: "answer \<Rightarrow> char list" where
  "encode_answer (Address ttl a) = qname_pointer @ [NUL, CHR 0x01, NUL, CHR 0x01] @ ttl @ [NUL, CHR 0x04] @ a"
| "encode_answer (Alias ttl ls) =
     qname_pointer @ [NUL, CHR 0x05, NUL, CHR 0x01] @ ttl @ [NUL, char_of (length (encode_name ls))] @ encode_name ls"

definition wire_name :: "string list \<Rightarrow> bool" where
  "wire_name ls \<longleftrightarrow> ls \<noteq> [] \<and> list_all wire_label ls \<and> length (join_dots ls) \<le> 253"

fun wire_answer :: "answer \<Rightarrow> bool" where
  "wire_answer (Address ttl a) \<longleftrightarrow> length ttl = 4 \<and> length a = 4"
| "wire_answer (Alias ttl ls) \<longleftrightarrow> length ttl = 4 \<and> wire_name ls"

text \<open>The message, and the record the resolver should make of an answer to a question for \<open>host\<close>.\<close>

definition answer_message :: "char list \<Rightarrow> nat \<Rightarrow> char list \<Rightarrow> string list \<Rightarrow> answer list \<Rightarrow> char list \<Rightarrow> char list" where
  "answer_message ident rcode counts ls ans rest =
     ident @ [char_of rcode, NUL, CHR 0x01, NUL, char_of (length ans)] @ counts @ encode_name ls
     @ [NUL, CHR 0x01, NUL, CHR 0x01] @ concat (map encode_answer ans) @ rest"

fun answer_record :: "string \<Rightarrow> answer \<Rightarrow> response_record" where
  "answer_record host (Address ttl a) =
     \<lparr>rr_type = 1, rr_ip = zbuf 64 (dotted a), rr_cname = zbuf 256 [], rr_host = zbuf 256 host\<rparr>"
| "answer_record host (Alias ttl ls) =
     \<lparr>rr_type = 5, rr_ip = zbuf 64 [], rr_cname = zbuf 256 (join_dots ls), rr_host = zbuf 256 host\<rparr>"

lemma and_3F_C0: "and (0xC0 :: int) 0x3F = 0"
  by simp

lemma decode_pointer:
  assumes "decode_enc_str n msg 12 buf = Inr (q, buf1)" and "msg = pre @ qname_pointer @ post"
  shows "decode_enc_str (Suc n) msg (length pre) buf = Inr (length pre + 2, buf1)"
  using assms
  by (subst decode_enc_str.simps) (simp add: byte_at_def qname_pointer_def nth_append uchar_def)

lemma byte_at_append [simp]:
  "length pre \<le> p \<Longrightarrow> byte_at (pre @ bs) p = byte_at bs (p - length pre)"
  by (auto simp: byte_at_def nth_append)

lemma bytes_at_append [simp]:
  "length pre \<le> p \<Longrightarrow> bytes_at (pre @ bs) p k = bytes_at bs (p - length pre) k"
  by (auto simp: bytes_at_def)

lemma byte_at_Cons [simp]: "byte_at (c # bs) p = (if p = 0 then Inr c else byte_at bs (p - 1))"
  by (cases p) (auto simp: byte_at_def)

lemma bytes_at_Cons [simp]: "0 < p \<Longrightarrow> bytes_at (c # bs) p k = bytes_at bs (p - 1) k"
  by (cases p) (auto simp: bytes_at_def)

lemma bytes_at_0: "length a = k \<Longrightarrow> bytes_at (a @ r) 0 k = Inr a"
  by (simp add: bytes_at_def)

lemma fmt_d_byte: "length (fmt_d (nat (uchar c))) \<le> 3"
proof -
  have "nat (uchar c) < 256"
    using uchar_range [of c] by linarith
  then show ?thesis
    by (subst fmt_d.simps, subst fmt_d.simps, subst fmt_d.simps) auto
qed

lemma length_dotted:
  assumes "length a = 4"
  shows "length (dotted a) \<le> 15"
proof -
  obtain x y z w where "a = [x, y, z, w]"
    using assms by (auto simp: numeral_eq_Suc length_Suc_conv)
  then show ?thesis
    using fmt_d_byte [of x] fmt_d_byte [of y] fmt_d_byte [of z] fmt_d_byte [of w] by (simp add: dotted_def)
qed

lemma write_ip: "length a = 4 \<Longrightarrow> memcpy_at (zbuf 64 []) 0 (dotted a @ [NUL]) = Inr (zbuf 64 (dotted a))"
proof -
  assume "length a = 4"
  then have "length (dotted a) \<le> 15" by (rule length_dotted)
  then have "64 - length (dotted a) = Suc (63 - length (dotted a))" by simp
  then show ?thesis using \<open>length (dotted a) \<le> 15\<close> by (simp add: memcpy_at_def zbuf_def)
qed

lemma decode_answer:
  assumes "wire_answer a" and "decode_enc_str n msg 12 (zbuf 256 []) = Inr (q, zbuf 256 host)"
    and "msg = pre @ encode_answer a @ post"
  shows "decode_resopnse_item (Suc n) msg (length pre) =
    Inr (length pre + length (encode_answer a), answer_record host a)"
proof (cases a)
  case (Address ttl ip)
  have "decode_enc_str (Suc n) msg (length pre) (zbuf 256 []) = Inr (length pre + 2, zbuf 256 host)"
    using assms Address by (intro decode_pointer [OF assms(2)]) simp
  then show ?thesis
    using assms Address
    by (simp add: decode_resopnse_item_def new_response_record_def zbuf_Nil qname_pointer_def field2_def uchar_def
        bytes_at_0 write_ip)
next
  case (Alias ttl ls)
  have name: "wire_name ls" and ttl: "length ttl = 4"
    using assms(1) Alias by simp_all
  have len: "length (encode_name ls) < 256"
    using name length_encode_name [of ls] by (simp add: wire_name_def)
  have "decode_enc_str (Suc n) msg (length pre) (zbuf 256 []) = Inr (length pre + 2, zbuf 256 host)"
    using assms Alias by (intro decode_pointer [OF assms(2)]) simp
  moreover have "decode_enc_str (Suc n) msg (12 + length pre) (zbuf 256 []) =
      Inr (12 + length pre + length (encode_name ls), zbuf 256 (join_dots ls))"
    using decode_enc_str_name [of ls 256 "Suc n" "pre @ take 12 (encode_answer a)" post] name ttl assms(3) Alias
    by (simp add: wire_name_def qname_pointer_def add.commute)
  ultimately show ?thesis
    using assms Alias len
    by (simp add: decode_resopnse_item_def new_response_record_def zbuf_Nil qname_pointer_def field2_def uchar_char_of
        bytes_at_0) (simp add: uchar_def Let_def)
qed

lemma decode_answers:
  assumes "list_all wire_answer ans" and "decode_enc_str n msg 12 (zbuf 256 []) = Inr (q, zbuf 256 host)"
    and "msg = pre @ concat (map encode_answer ans) @ post"
  shows "decode_items (decode_resopnse_item (Suc n) msg) (length ans) (length pre) =
    Inr (length pre + length (concat (map encode_answer ans)), map (answer_record host) ans)"
  using assms(1,3)
proof (induction ans arbitrary: pre)
  case (Cons a ans)
  have "decode_resopnse_item (Suc n) msg (length pre) = Inr (length pre + length (encode_answer a), answer_record host a)"
    using Cons.prems by (intro decode_answer [OF _ assms(2)]) simp_all
  then show ?case
    using Cons.IH [of "pre @ encode_answer a"] Cons.prems by (simp add: add.assoc)
qed simp

lemma decode_answer_message:
  assumes "length ident = 3" and "rcode < 16" and "length counts = 4" and "wire_name ls"
    and "list_all wire_answer ans" and "length ans < 256"
  shows "decode_message (Suc n) (answer_message ident rcode counts ls ans rest) =
    Inr (rcode, [zbuf 256 (join_dots ls)], map (answer_record (join_dots ls)) ans)"
proof -
  let ?msg = "answer_message ident rcode counts ls ans rest"
  define pre where "pre = ident @ [char_of rcode, NUL, CHR 0x01, NUL, char_of (length ans)] @ counts"
  have pre: "length pre = 12" "?msg = pre @ encode_name ls @ [NUL, CHR 0x01, NUL, CHR 0x01] @ concat (map encode_answer ans) @ rest"
    using assms by (simp_all add: pre_def answer_message_def)
  have name: "decode_enc_str m ?msg 12 (zbuf 256 []) = Inr (12 + length (encode_name ls), zbuf 256 (join_dots ls))" for m
    using decode_enc_str_name [of ls 256 m pre] assms(4) pre by (simp add: wire_name_def)
  have "decode_items (decode_resopnse_item (Suc n) ?msg) (length ans) (12 + length (encode_name ls) + 4) =
      Inr (12 + length (encode_name ls) + 4 + length (concat (map encode_answer ans)), map (answer_record (join_dots ls)) ans)"
    using decode_answers [OF assms(5) name, of "pre @ encode_name ls @ [NUL, CHR 0x01, NUL, CHR 0x01]" rest] pre
    by (simp add: add_ac)
  moreover obtain x y z where i: "ident = [x, y, z]"
    using assms(1) by (auto simp: numeral_eq_Suc length_Suc_conv)
  have "is_ok (field2 ?msg 0)" "is_ok (byte_at ?msg 2)" "byte_at ?msg 3 = Inr (char_of rcode)"
    "field2 ?msg 4 = Inr 1" "field2 ?msg 6 = Inr (length ans)"
    using assms(6) by (simp_all add: i answer_message_def field2_def uchar_char_of) (simp_all add: uchar_def)
  moreover have "and (int rcode) 15 = int rcode"
    using assms(2) take_bit_eq_mask [of 4 "int rcode"] by (simp add: take_bit_eq_mod mask_eq_exp_minus_1)
  ultimately show ?thesis
    using name [of "Suc n"] assms(2)
    by (auto simp: decode_message_def decode_request_items_def zbuf_Nil uchar_char_of is_ok_def add_ac
        split: sum.splits)
qed

text \<open>
  Claim C11.  Decoding inverts encoding: of an answer to a query, whatever its identification, flags, response code and
  trailing bytes are, the resolver reads the host that was asked for and, in order, every address in dotted form and every alias.
\<close>

theorem decode_message_inverts:
  assumes "length ident = 3" and "rcode < 16" and "length counts = 4" and "wire_name ls"
    and "list_all wire_answer ans" and "length ans < 256"
  shows "decode_message (Suc n) (answer_message ident rcode counts ls ans rest) =
    Inr (rcode, [zbuf 256 (join_dots ls)], map (answer_record (join_dots ls)) ans)"
  using assms by (rule decode_answer_message)

theorem decode_message_inverts_witness:
  "decode_message 1 (answer_message ''abc'' 0 ''0000'' [''a'', ''bc'']
       [Alias ''1234'' [''d''], Address ''1234'' [CHR 0x7F, NUL, NUL, CHR 0x01]] []) =
     Inr (0, [zbuf 256 ''a.bc''],
       [\<lparr>rr_type = 5, rr_ip = zbuf 64 [], rr_cname = zbuf 256 ''d'', rr_host = zbuf 256 ''a.bc''\<rparr>,
        \<lparr>rr_type = 1, rr_ip = zbuf 64 ''127.0.0.1'', rr_cname = zbuf 256 [], rr_host = zbuf 256 ''a.bc''\<rparr>])"
  using decode_message_inverts [of "''abc''" 0 "''0000''" "[''a'', ''bc'']"
      "[Alias ''1234'' [''d''], Address ''1234'' [CHR 0x7F, NUL, NUL, CHR 0x01]]" 0 "[]"]
  by (simp add: wire_name_def wire_label_def dotted_def uchar_def fmt_d.simps hex_digit_def
      char_of_def bit_numeral_rec bit_0)

section \<open>Messages the decoder does not survive\<close>

text \<open>A name that is a pointer to itself: the function calls itself for ever.\<close>

lemma decode_pointer_loop:
  assumes "byte_at msg p = Inr CHR 0xC0" and "byte_at msg (p + 1) = Inr (char_of p)" and "p < 256"
  shows "decode_enc_str n msg p buf = Inl No_Return"
proof (induction n)
  case 0
  then show ?case using assms by (subst decode_enc_str.simps) (simp add: uchar_def)
next
  case (Suc n)
  then show ?case using assms by (subst decode_enc_str.simps, simp add: uchar_char_of) (simp add: uchar_def)
qed

text \<open>The root name: the byte before the buffer is written.\<close>

lemma decode_root_name: "byte_at msg p = Inr NUL \<Longrightarrow> 0 < k \<Longrightarrow> decode_enc_str n msg p (zbuf k []) = Inl Out_Of_Bounds"
  by (subst decode_enc_str.simps) (simp add: zbuf_strlen)

text \<open>
  Two different counts that are read as the same number, and a length that is not the one on the wire.
\<close>

lemma field2_confuses: "field2 [NUL, CHR 0xFF] 0 = field2 [CHR 0x01, NUL] 0"
  by (simp add: field2_def uchar_def)

lemma field2_short: "field2 [CHR 0x01, NUL] 0 = Inr 255"
  by (simp add: field2_def uchar_def)

end
