(* ===== verification/Dns.thy ===== *)
theory Dns
  imports Ep_Buf_Tcp Header Dns_Wire
begin

text \<open>
  The resolver of \<^verbatim>\<open>dns.c\<close>: requests for a host name are answered from the name itself when it is an address, from
  a cache, or by a query to the name server that all requests for the host share.  The state extends that of the
  buffered connections, because the users of the resolver have both.  The callback of a request and its argument are one value
  of type \<open>'a\<close>; what calling it does is a parameter.  What \<^verbatim>\<open>socket\<close> and \<^verbatim>\<open>recvfrom\<close> return are arguments.
\<close>

section \<open>Addresses in text form\<close>

text \<open>
  \<^verbatim>\<open>inet_aton\<close>: one to four numbers in C notation, separated by dots, the last of which fills the remaining bytes; white
  space may follow.  \<^verbatim>\<open>inet_ntoa\<close> writes the dotted form into a static buffer.
\<close>

definition digit_value :: "char \<Rightarrow> int" where
  "digit_value c =
     (let u = uchar c
      in if 48 \<le> u \<and> u \<le> 57 then u - 48 else if 97 \<le> u \<and> u \<le> 102 then u - 87
         else if 65 \<le> u \<and> u \<le> 70 then u - 55 else 255)"

definition isspace :: "char \<Rightarrow> bool" where
  "isspace c \<longleftrightarrow> c = SP \<or> (9 \<le> uchar c \<and> uchar c \<le> 13)"

definition strtoul0 :: "string \<Rightarrow> int \<times> string" where
  "strtoul0 s =
     (let (base, ds) =
        (if take 1 s = ''0''
         then (if 3 \<le> length s \<and> (s ! 1 = CHR ''x'' \<or> s ! 1 = CHR ''X'') \<and> digit_value (s ! 2) < 16
               then (16, drop 2 s) else (8, s))
         else (10, s))
      in (foldl (\<lambda>a c. a * base + digit_value c) 0 (takeWhile (\<lambda>c. digit_value c < base) ds),
          dropWhile (\<lambda>c. digit_value c < base) ds))"

definition net_bytes :: "int \<Rightarrow> int list" where
  "net_bytes v = [v div 2 ^ 24 mod 256, v div 2 ^ 16 mod 256, v div 2 ^ 8 mod 256, v mod 256]"

lemma strtoul0_rest: "length (snd (strtoul0 s)) \<le> length s"
  by (auto simp: strtoul0_def Let_def length_dropWhile_le intro: le_trans [OF length_dropWhile_le])

function inet_aton_loop :: "int list \<Rightarrow> string \<Rightarrow> char list option" where
  "inet_aton_loop parts s =
     (if s = [] \<or> 10 \<le> digit_value (hd s) then None
      else let (val, r) = strtoul0 s
           in if val > 0xffffffff then None
              else if take 1 r = ''.''
              then (if length parts > 2 \<or> val > 0xff then None else inet_aton_loop (parts @ [val]) (tl r))
              else if r \<noteq> [] \<and> \<not> isspace (hd r) then None
              else if val > 2 ^ (8 * (4 - length parts)) - 1 then None
              else Some (map char_of (parts @ drop (length parts) (net_bytes val))))"
  by pat_completeness auto
termination
proof (relation "measure (\<lambda>(parts, s). length s)", simp)
  fix parts :: "int list" and s x val r
  assume *: "\<not> (s = [] \<or> 10 \<le> digit_value (hd s))" "x = strtoul0 s" "(val, r) = x"
  then have "length r \<le> length s"
    using strtoul0_rest [of s] by (metis snd_conv)
  with * show "((parts @ [val], tl r), (parts, s)) \<in> measure (\<lambda>(parts, s). length s)"
    by (cases r) auto
qed

definition inet_aton :: "string \<Rightarrow> char list option" where
  "inet_aton s = inet_aton_loop [] s"

section \<open>The state\<close>

definition CACHE_HASH_BUCKET_SIZE :: nat where [simp]: "CACHE_HASH_BUCKET_SIZE = 4096"
definition HASH_BUCKET_SIZE :: nat where [simp]: "HASH_BUCKET_SIZE = 512"

datatype 'u dns_callback = Dns_Real_Tmr nat | Dns_Right_Tmr nat | Dns_Event | Dns_User 'u

record cache_record =
  cr_cname :: "char list"
  cr_host :: "char list"
  cr_ip :: "char list"

text \<open>Where \<^verbatim>\<open>right_result\<close> points: to the static buffer of \<^verbatim>\<open>inet_ntoa\<close> or into a cache record.\<close>

datatype right_result = Ntoa_Buffer | Record_Ip nat

text \<open>
  \<open>dq_list\<close> says where the list node of a request is linked: in the list of a \<^verbatim>\<open>dns_real_req\<close>, or nowhere, when it still has
  the null pointers of \<^verbatim>\<open>calloc\<close>.
\<close>

record 'a dns_req =
  dq_is_canceled :: bool
  dq_list :: "nat option"
  dq_cb :: 'a
  dq_real_req :: "nat option"
  dq_tmr_right_callback :: "nat option"
  dq_right_result :: "right_result option"

record dns_real_req =
  rq_list_reqs :: "nat list"
  rq_host :: "char list"
  rq_timer :: "nat option"
  rq_count_timeout :: int

record ('u, 'd, 'a) dns_base = "('u dns_callback, 'd) buf_base" +
  h_dns_req :: "nat \<rightharpoonup> 'a dns_req"
  h_real_req :: "nat \<rightharpoonup> dns_real_req"
  h_cache :: "nat \<rightharpoonup> cache_record"
  s_hash :: "nat list list"
  s_cache_hash :: "nat list list"
  s_dns_fd :: int
  s_dns_event :: "nat option"
  s_ns_addr :: "char list"
  s_server_addr :: "char list option"
  ntoa_buffer :: string
  dns_sent :: "char list list"

type_synonym ('u, 'd, 'a, 'z) dbase = "('u, 'd, 'a, 'z) dns_base_scheme"

text \<open>What a \<^verbatim>\<open>dnscb\<close> does: its argument, the code, the array of addresses, how many, the alias, the state.\<close>

type_synonym ('u, 'd, 'a, 'z) dnscb =
  "'a \<Rightarrow> int \<Rightarrow> string option list \<Rightarrow> int \<Rightarrow> string \<Rightarrow> ('u, 'd, 'a, 'z) dbase \<Rightarrow> ('u, 'd, 'a, 'z) dbase res"

definition upd_dns_req :: "nat \<Rightarrow> ('a dns_req \<Rightarrow> 'a dns_req) \<Rightarrow> ('u, 'd, 'a, 'z) dbase \<Rightarrow> ('u, 'd, 'a, 'z) dbase res" where
  "upd_dns_req q g b = rbind (look (h_dns_req b) q) (\<lambda>x. Inr (b\<lparr>h_dns_req := (h_dns_req b)(q \<mapsto> g x)\<rparr>))"

definition upd_real_req :: "nat \<Rightarrow> (dns_real_req \<Rightarrow> dns_real_req) \<Rightarrow> ('u, 'd, 'a, 'z) dbase \<Rightarrow> ('u, 'd, 'a, 'z) dbase res" where
  "upd_real_req r g b = rbind (look (h_real_req b) r) (\<lambda>x. Inr (b\<lparr>h_real_req := (h_real_req b)(r \<mapsto> g x)\<rparr>))"

definition free_dns_req :: "nat \<Rightarrow> ('u, 'd, 'a, 'z) dbase \<Rightarrow> ('u, 'd, 'a, 'z) dbase" where
  "free_dns_req q b = b\<lparr>h_dns_req := (h_dns_req b)(q := None)\<rparr>"

section \<open>The cache\<close>

text \<open>\<^verbatim>\<open>total += *str\<close> adds a signed \<^verbatim>\<open>char\<close> to a \<^verbatim>\<open>uint64_t\<close>.\<close>

definition str_total :: "string \<Rightarrow> int" where
  "str_total str = foldl (\<lambda>total c. (total + schar c) mod 2 ^ 64) 0 str"

definition dns_hash_str :: "string \<Rightarrow> nat" where
  "dns_hash_str str = nat (str_total str mod int HASH_BUCKET_SIZE)"

definition dns_hash_cache_str :: "string \<Rightarrow> nat" where
  "dns_hash_cache_str str = nat (str_total str mod int CACHE_HASH_BUCKET_SIZE)"

fun find_record :: "(nat \<rightharpoonup> cache_record) \<Rightarrow> string \<Rightarrow> nat list \<Rightarrow> nat option res" where
  "find_record h host [] = Inr None"
| "find_record h host (r # rs) =
     rbind (look h r) (\<lambda>x. rbind (cstr_at (cr_host x)) (\<lambda>s. if s = host then Inr (Some r) else find_record h host rs))"

definition dns_cache_find :: "string \<Rightarrow> ('u, 'd, 'a, 'z) dbase \<Rightarrow> nat option res" where
  "dns_cache_find host b = find_record (h_cache b) host (s_cache_hash b ! dns_hash_cache_str host)"

text \<open>The alias is cut at the size of the field \<^verbatim>\<open>ip\<close>.\<close>

definition dns_cache_add :: "string \<Rightarrow> string option \<Rightarrow> string \<Rightarrow> ('u, 'd, 'a, 'z) dbase \<Rightarrow> ('u, 'd, 'a, 'z) dbase res" where
  "dns_cache_add host ip cname b =
     rbind (dns_cache_find host b) (\<lambda>found.
     if found \<noteq> None then Inr b
     else let i = dns_hash_cache_str host; r = b_next b
          in rbind (strncpy (replicate 256 NUL) host 256) (\<lambda>host'.
             rbind (deref ip) (\<lambda>ip.
             rbind (strncpy (replicate 64 NUL) ip 64) (\<lambda>ip'.
             rbind (strncpy (replicate 256 NUL) cname 64) (\<lambda>cname'.
             Inr (b\<lparr>b_next := Suc r, h_cache := (h_cache b)(r \<mapsto> \<lparr>cr_cname = cname', cr_host = host', cr_ip = ip'\<rparr>),
                    s_cache_hash := (s_cache_hash b)[i := (s_cache_hash b ! i) @ [r]]\<rparr>))))))"

section \<open>Queries in progress\<close>

fun find_real_req :: "(nat \<rightharpoonup> dns_real_req) \<Rightarrow> string \<Rightarrow> nat list \<Rightarrow> nat option res" where
  "find_real_req h host [] = Inr None"
| "find_real_req h host (r # rs) =
     rbind (look h r) (\<lambda>x. if take 256 (c_str (rq_host x)) = take 256 host then Inr (Some r) else find_real_req h host rs)"

definition dns_real_req_find :: "string \<Rightarrow> ('u, 'd, 'a, 'z) dbase \<Rightarrow> nat option res" where
  "dns_real_req_find host b = find_real_req (h_real_req b) host (s_hash b ! dns_hash_str host)"

definition dns_real_req_add :: "nat \<Rightarrow> ('u, 'd, 'a, 'z) dbase \<Rightarrow> ('u, 'd, 'a, 'z) dbase res" where
  "dns_real_req_add r b =
     rbind (look (h_real_req b) r) (\<lambda>x.
     rbind (cstr_at (rq_host x)) (\<lambda>host.
     let pos = dns_hash_str host in Inr (b\<lparr>s_hash := (s_hash b)[pos := (s_hash b ! pos) @ [r]]\<rparr>)))"

definition dns_send_req :: "string \<Rightarrow> ('u, 'd, 'a, 'z) dbase \<Rightarrow> ('u, 'd, 'a, 'z) dbase res" where
  "dns_send_req host b =
     rbind (dns_query host) (\<lambda>msg.
     rbind (deref (s_dns_event b)) (\<lambda>f.
     rbind (ep_file_detect f EP_READ (- 1) b) (\<lambda>b1. Inr (b1\<lparr>dns_sent := dns_sent b1 @ [msg]\<rparr>))))"

definition unlink_real_req :: "nat \<Rightarrow> ('u, 'd, 'a, 'z) dbase \<Rightarrow> ('u, 'd, 'a, 'z) dbase" where
  "unlink_real_req r b = b\<lparr>s_hash := map (remove1 r) (s_hash b)\<rparr>"

text \<open>\<^verbatim>\<open>if(ep_timer_pending(t)) ep_timer_del(t);\<close> and \<^verbatim>\<open>ep_timer_free(t)\<close>.\<close>

definition drop_timer :: "nat \<Rightarrow> ('u, 'd, 'a, 'z) dbase \<Rightarrow> ('u, 'd, 'a, 'z) dbase res" where
  "drop_timer t b =
     rbind (ep_timer_pending t b) (\<lambda>pending.
     rbind (if pending then ep_timer_del t b else Inr b) (ep_timer_free t))"

definition dns_real_req_del :: "nat \<Rightarrow> ('u, 'd, 'a, 'z) dbase \<Rightarrow> ('u, 'd, 'a, 'z) dbase res" where
  "dns_real_req_del r b =
     rbind (look (h_real_req b) r) (\<lambda>x.
     rbind (cassert (rq_list_reqs x = [])) (\<lambda>_.
     let b1 = unlink_real_req r b
     in rbind (case rq_timer x of None \<Rightarrow> Inr b1 | Some t \<Rightarrow> drop_timer t b1) (\<lambda>b2.
        Inr (b2\<lparr>h_real_req := (h_real_req b2)(r := None)\<rparr>))))"

definition dns_real_req_start :: "nat \<Rightarrow> ('u, 'd, 'a, 'z) dbase \<Rightarrow> ('u, 'd, 'a, 'z) dbase res" where
  "dns_real_req_start r b =
     rbind (look (h_real_req b) r) (\<lambda>x.
     let (t, b1) = (case rq_timer x of Some t \<Rightarrow> (t, b) | None \<Rightarrow> ep_timer_new (User_Cb (Dns_Real_Tmr r)) b)
     in rbind (upd_real_req r (\<lambda>x. x\<lparr>rq_timer := Some t\<rparr>) b1) (\<lambda>b2.
        rbind (ep_timer_pending t b2) (\<lambda>pending.
        if pending then Inr b2
        else rbind (ep_timer_add t (1000 * (rq_count_timeout x + 1)) b2) (\<lambda>b3.
             rbind (cstr_at (rq_host x)) (\<lambda>host. dns_send_req host b3)))))"

section \<open>Completing a query\<close>

text \<open>\<^verbatim>\<open>list_del\<close> of a request: a node that was never linked holds null pointers.\<close>

definition unlink_dns_req :: "nat \<Rightarrow> ('u, 'd, 'a, 'z) dbase \<Rightarrow> ('u, 'd, 'a, 'z) dbase res" where
  "unlink_dns_req q b =
     rbind (look (h_dns_req b) q) (\<lambda>y.
     rbind (deref (dq_list y)) (\<lambda>r. upd_real_req r (\<lambda>x. x\<lparr>rq_list_reqs := remove1 q (rq_list_reqs x)\<rparr>) b))"

text \<open>
  The loop over the waiting requests, with the saved successor.  A callback can add requests behind the cursor for ever, so it
  carries fuel.
\<close>

fun notify_loop :: "('u, 'd, 'a, 'z) dnscb \<Rightarrow> nat \<Rightarrow> nat \<Rightarrow> int \<Rightarrow> string option list \<Rightarrow> int \<Rightarrow> string \<Rightarrow> timer_cursor
    \<Rightarrow> ('u, 'd, 'a, 'z) dbase \<Rightarrow> ('u, 'd, 'a, 'z) dbase res" where
  "notify_loop U n r ret ips ip_count cname At_Head b = Inr b"
| "notify_loop U n r ret ips ip_count cname Poisoned b = Inl Bad_Pointer"
| "notify_loop U 0 r ret ips ip_count cname (At q) b = Inl No_Return"
| "notify_loop U (Suc n) r ret ips ip_count cname (At q) b =
     rbind (look (h_dns_req b) q) (\<lambda>y.
     rbind (look (h_real_req b) r) (\<lambda>x.
     let temp = next_in q (rq_list_reqs x)
     in rbind (U (dq_cb y) ret ips ip_count cname b) (\<lambda>b1.
        rbind (unlink_dns_req q b1) (\<lambda>b2. notify_loop U n r ret ips ip_count cname temp (free_dns_req q b2)))))"

text \<open>The array of addresses and the alias that the loop over the answers leaves.\<close>

definition answer_ips :: "response_record list \<Rightarrow> string list" where
  "answer_ips resps = map (\<lambda>x. c_str (rr_ip x)) (filter (\<lambda>x. rr_type x = 1) resps)"

definition answer_cname :: "response_record list \<Rightarrow> string" where
  "answer_cname resps = foldl (\<lambda>c x. if rr_type x = 5 then c_str (rr_cname x) else c) [] resps"

definition dns_real_req_active_and_free :: "('u, 'd, 'a, 'z) dnscb \<Rightarrow> nat \<Rightarrow> nat \<Rightarrow> response_record list \<Rightarrow> int
    \<Rightarrow> ('u, 'd, 'a, 'z) dbase \<Rightarrow> ('u, 'd, 'a, 'z) dbase res" where
  "dns_real_req_active_and_free U n r resps ret_code b =
     (let found = answer_ips resps; ip_count = length found; resp_count = length resps;
          ips = map Some found @ replicate (resp_count - ip_count) None; cname = answer_cname resps;
          ret = (if resp_count = 0 \<and> ret_code = 0 then - 1 else ret_code)
      in rbind (look (h_real_req b) r) (\<lambda>x0.
         rbind (notify_loop U n r ret ips (int ip_count) cname (first_in (rq_list_reqs x0)) b) (\<lambda>b1.
         rbind (look (h_real_req b1) r) (\<lambda>x.
         rbind (if ret = 0 then rbind (cstr_at (rq_host x)) (\<lambda>host. dns_cache_add host (ips ! 0) cname b1) else Inr b1) (\<lambda>b2.
         let b3 = unlink_real_req r b2
         in rbind (case rq_timer x of
                     None \<Rightarrow> Inr b3
                   | Some t \<Rightarrow> rbind (ep_timer_pending t b3) (\<lambda>pending. if pending then drop_timer t b3 else Inr b3)) (\<lambda>b4.
            Inr (b4\<lparr>h_real_req := (h_real_req b4)(r := None)\<rparr>)))))))"

definition dns_real_req_timercb :: "('u, 'd, 'a, 'z) dnscb \<Rightarrow> nat \<Rightarrow> nat \<Rightarrow> ('u, 'd, 'a, 'z) dbase \<Rightarrow> ('u, 'd, 'a, 'z) dbase res" where
  "dns_real_req_timercb U n r b =
     rbind (upd_real_req r (\<lambda>x. x\<lparr>rq_count_timeout := rq_count_timeout x + 1\<rparr>) b) (\<lambda>b1.
     rbind (look (h_real_req b1) r) (\<lambda>x.
     if rq_count_timeout x \<ge> 5 then dns_real_req_active_and_free U n r [] (- 1) b1 else dns_real_req_start r b1))"

section \<open>The interface of the resolver\<close>

definition dns_init :: "int \<Rightarrow> string \<Rightarrow> ('u, 'd, 'a, 'z) dbase \<Rightarrow> ('u, 'd, 'a, 'z) dbase res" where
  "dns_init sock ns_addr b =
     rbind (ep_file_create sock (User_Cb Dns_Event) b) (\<lambda>(f, b1).
     rbind (strncpy (s_ns_addr b1) ns_addr 255) (\<lambda>ns.
     Inr (b1\<lparr>s_dns_fd := sock, s_dns_event := Some f, s_ns_addr := ns, s_server_addr := inet_aton ns_addr,
             s_hash := replicate HASH_BUCKET_SIZE [], s_cache_hash := replicate CACHE_HASH_BUCKET_SIZE []\<rparr>)))"

definition right_text :: "'a dns_req \<Rightarrow> ('u, 'd, 'a, 'z) dbase \<Rightarrow> string option res" where
  "right_text y b =
     (case dq_right_result y of
        None \<Rightarrow> Inr None
      | Some Ntoa_Buffer \<Rightarrow> Inr (Some (ntoa_buffer b))
      | Some (Record_Ip r) \<Rightarrow> rbind (look (h_cache b) r) (\<lambda>x. Inr (Some (c_str (cr_ip x)))))"

definition dns_rightnow_tmrcb :: "('u, 'd, 'a, 'z) dnscb \<Rightarrow> nat \<Rightarrow> ('u, 'd, 'a, 'z) dbase \<Rightarrow> ('u, 'd, 'a, 'z) dbase res" where
  "dns_rightnow_tmrcb U q b =
     rbind (look (h_dns_req b) q) (\<lambda>y.
     rbind (cassert (dq_real_req y = None)) (\<lambda>_.
     rbind (right_text y b) (\<lambda>ip.
     rbind (U (dq_cb y) 0 [ip] 1 ''fake.cname'' b) (\<lambda>b1.
     rbind (look (h_dns_req b1) q) (\<lambda>y1.
     rbind (deref (dq_tmr_right_callback y1)) (\<lambda>t.
     rbind (ep_timer_free t b1) (\<lambda>b2. Inr (free_dns_req q b2))))))))"

text \<open>The end of both branches that answer at once: a timer that fires in the next round of the loop.\<close>

definition answer_at_once :: "nat \<Rightarrow> 'a \<Rightarrow> right_result \<Rightarrow> ('u, 'd, 'a, 'z) dbase \<Rightarrow> (nat \<times> ('u, 'd, 'a, 'z) dbase) res" where
  "answer_at_once q cb res b =
     (let (t, b1) = ep_timer_new (User_Cb (Dns_Right_Tmr q)) b;
          b2 = b1\<lparr>h_dns_req := (h_dns_req b1)(q \<mapsto>
                  \<lparr>dq_is_canceled = False, dq_list = None, dq_cb = cb, dq_real_req = None,
                   dq_tmr_right_callback = Some t, dq_right_result = Some res\<rparr>)\<rparr>
      in rbind (ep_timer_add t 0 b2) (\<lambda>b3. Inr (q, b3)))"

text \<open>A query for a host no query is in progress for.\<close>

definition new_real_req :: "string \<Rightarrow> ('u, 'd, 'a, 'z) dbase \<Rightarrow> (nat \<times> ('u, 'd, 'a, 'z) dbase) res" where
  "new_real_req host b =
     (let r = b_next b
      in rbind (strncpy (replicate 256 NUL) host 256) (\<lambda>host'.
         rbind (dns_real_req_add r (b\<lparr>b_next := Suc r, h_real_req := (h_real_req b)(r \<mapsto>
                  \<lparr>rq_list_reqs = [], rq_host = host', rq_timer = None, rq_count_timeout = 0\<rparr>)\<rparr>)) (\<lambda>b1.
         rbind (dns_real_req_start r b1) (\<lambda>b2. Inr (r, b2)))))"

text \<open>The field \<^verbatim>\<open>real_req\<close> of a request is never set.\<close>

definition dns_resolve :: "string \<Rightarrow> 'a \<Rightarrow> ('u, 'd, 'a, 'z) dbase \<Rightarrow> (nat \<times> ('u, 'd, 'a, 'z) dbase) res" where
  "dns_resolve host cb b =
     (let q = b_next b; b1 = b\<lparr>b_next := Suc q\<rparr>
      in case inet_aton host of
           Some a \<Rightarrow> answer_at_once q cb Ntoa_Buffer (b1\<lparr>ntoa_buffer := dotted a\<rparr>)
         | None \<Rightarrow>
             rbind (dns_cache_find host b1) (\<lambda>record.
             case record of
               Some r \<Rightarrow> answer_at_once q cb (Record_Ip r) b1
             | None \<Rightarrow>
                 rbind (dns_real_req_find host b1) (\<lambda>found.
                 rbind (case found of Some r \<Rightarrow> Inr (r, b1) | None \<Rightarrow> new_real_req host b1) (\<lambda>(r, b2).
                 rbind (upd_real_req r (\<lambda>x. x\<lparr>rq_list_reqs := rq_list_reqs x @ [q]\<rparr>) b2) (\<lambda>b3.
                 Inr (q, b3\<lparr>h_dns_req := (h_dns_req b3)(q \<mapsto>
                   \<lparr>dq_is_canceled = False, dq_list = Some r, dq_cb = cb, dq_real_req = None,
                    dq_tmr_right_callback = None, dq_right_result = None\<rparr>)\<rparr>))))))"

definition decode_response :: "('u, 'd, 'a, 'z) dnscb \<Rightarrow> nat \<Rightarrow> char list \<Rightarrow> ('u, 'd, 'a, 'z) dbase \<Rightarrow> ('u, 'd, 'a, 'z) dbase res" where
  "decode_response U n resp b =
     rbind (decode_message n resp) (\<lambda>(rcode, reqs, resps).
     case reqs of
       [] \<Rightarrow> Inr b
     | h # _ \<Rightarrow>
         rbind (cstr_at h) (\<lambda>host.
         rbind (dns_real_req_find host b) (\<lambda>real_req.
         case real_req of
           None \<Rightarrow> Inr b
         | Some r \<Rightarrow> dns_real_req_active_and_free U n r resps (int rcode) b)))"

text \<open>\<open>d\<close> is the datagram \<^verbatim>\<open>recvfrom\<close> delivers, cut at the size of the buffer; \<open>None\<close> is an error.\<close>

definition dns_recv_cb :: "('u, 'd, 'a, 'z) dnscb \<Rightarrow> nat \<Rightarrow> char list option \<Rightarrow> int \<Rightarrow> ('u, 'd, 'a, 'z) dbase
    \<Rightarrow> ('u, 'd, 'a, 'z) dbase res" where
  "dns_recv_cb U n d what b =
     (if what \<noteq> EP_READ then Inr b
      else case d of None \<Rightarrow> Inr b | Some bs \<Rightarrow> decode_response U n (take 512 bs @ replicate (512 - length bs) NUL) b)"

definition dns_cancel :: "nat \<Rightarrow> ('u, 'd, 'a, 'z) dbase \<Rightarrow> ('u, 'd, 'a, 'z) dbase res" where
  "dns_cancel q b =
     rbind (upd_dns_req q (\<lambda>y. y\<lparr>dq_is_canceled := True\<rparr>) b) (\<lambda>b1.
     rbind (unlink_dns_req q b1) (\<lambda>b2.
     rbind (look (h_dns_req b2) q) (\<lambda>y.
     rbind (case dq_real_req y of
              Some r \<Rightarrow> rbind (look (h_real_req b2) r) (\<lambda>x. if rq_list_reqs x = [] then dns_real_req_del r b2 else Inr b2)
            | None \<Rightarrow> (case dq_tmr_right_callback y of None \<Rightarrow> Inr b2 | Some t \<Rightarrow> drop_timer t b2)) (\<lambda>b3.
     Inr (free_dns_req q b3)))))"

definition dns_fini :: "('u, 'd, 'a, 'z) dbase \<Rightarrow> ('u, 'd, 'a, 'z) dbase res" where
  "dns_fini b =
     (case s_dns_event b of
        None \<Rightarrow> Inr b
      | Some f \<Rightarrow> rbind (ep_file_detect f 0 (- 1) b) (\<lambda>b1.
                  rbind (ep_file_free f b1) (\<lambda>b2. Inr (b2\<lparr>s_dns_event := None\<rparr>))))"

text \<open>The event loop with the resolver on it; \<open>user\<close> handles the files and timers of everybody else.\<close>

definition dns_handlers :: "('u, 'd, 'a, 'z) dnscb \<Rightarrow> nat \<Rightarrow> char list option
    \<Rightarrow> ('u dns_callback file_cb, ('u, 'd, 'a, 'z) dbase) ep_handlers
    \<Rightarrow> ('u dns_callback file_cb, ('u, 'd, 'a, 'z) dbase) ep_handlers" where
  "dns_handlers U n d user =
     \<lparr>on_file = (\<lambda>c f fd what b. case c of User_Cb Dns_Event \<Rightarrow> dns_recv_cb U n d what b | _ \<Rightarrow> on_file user c f fd what b),
      on_timer = (\<lambda>c t b. case c of
          User_Cb (Dns_Real_Tmr r) \<Rightarrow> dns_real_req_timercb U n r b
        | User_Cb (Dns_Right_Tmr q) \<Rightarrow> dns_rightnow_tmrcb U q b
        | _ \<Rightarrow> on_timer user c t b)\<rparr>"

end
