(* ===== verification/Dns_Props.thy ===== *)
theory Dns_Props
  imports Dns
begin

text \<open>
  What the resolver guarantees: its operations keep the invariant of the event loop whatever its users' callbacks do within
  theirs, its cache is a finite map that is only ever extended, an answer completes all requests that wait for it.  And what it
  does not: a lost query is not sent again, and a request that is answered at once cannot be cancelled.
\<close>

section \<open>The invariant of the loop\<close>

lemma base_wf_dns [simp]:
  "base_wf (b\<lparr>h_dns_req := x1\<rparr>) \<longleftrightarrow> base_wf b" "base_wf (b\<lparr>h_real_req := x2\<rparr>) \<longleftrightarrow> base_wf b"
  "base_wf (b\<lparr>h_cache := x3\<rparr>) \<longleftrightarrow> base_wf b" "base_wf (b\<lparr>s_hash := x4\<rparr>) \<longleftrightarrow> base_wf b"
  "base_wf (b\<lparr>s_cache_hash := x5\<rparr>) \<longleftrightarrow> base_wf b" "base_wf (b\<lparr>s_dns_fd := x6\<rparr>) \<longleftrightarrow> base_wf b"
  "base_wf (b\<lparr>s_dns_event := x7\<rparr>) \<longleftrightarrow> base_wf b" "base_wf (b\<lparr>s_ns_addr := x8\<rparr>) \<longleftrightarrow> base_wf b"
  "base_wf (b\<lparr>s_server_addr := x9\<rparr>) \<longleftrightarrow> base_wf b" "base_wf (b\<lparr>ntoa_buffer := x10\<rparr>) \<longleftrightarrow> base_wf b"
  "base_wf (b\<lparr>dns_sent := x11\<rparr>) \<longleftrightarrow> base_wf b" "base_wf (free_dns_req q b) \<longleftrightarrow> base_wf b"
  "base_wf (unlink_real_req r b) \<longleftrightarrow> base_wf b"
  by (simp_all add: base_wf_def free_dns_req_def unlink_real_req_def)

lemma upd_dns_wf [wf_rules]:
  "base_wf b \<Longrightarrow> res_all base_wf (upd_dns_req q f b)" "base_wf b \<Longrightarrow> res_all base_wf (upd_real_req r g b)"
  by (auto simp: upd_dns_req_def upd_real_req_def rbind_eq_Inr intro!: res_allI)

lemma timer_new_wf [wf_rules]: "base_wf b \<Longrightarrow> base_wf (snd (ep_timer_new cb b))"
  by (rule ep_timer_new_wf) (auto simp: prod_eq_iff)

lemma drop_timer_wf [wf_rules]: "base_wf b \<Longrightarrow> res_all base_wf (drop_timer t b)"
  unfolding drop_timer_def ep_timer_pending_def by (rule wf_all wf_rules res_all_True | assumption | simp)+

lemma unlink_dns_req_wf [wf_rules]: "base_wf b \<Longrightarrow> res_all base_wf (unlink_dns_req q b)"
  unfolding unlink_dns_req_def by (rule wf_all wf_rules res_all_True | assumption)+

lemma dns_cache_add_wf [wf_rules]: "base_wf b \<Longrightarrow> res_all base_wf (dns_cache_add host ip cname b)"
  unfolding dns_cache_add_def Let_def
  by (rule wf_all wf_rules res_all_True | assumption | simp add: base_wf_next)+

lemma dns_send_req_wf [wf_rules]: "base_wf b \<Longrightarrow> res_all base_wf (dns_send_req host b)"
  unfolding dns_send_req_def by (rule wf_all wf_rules res_all_True | assumption | simp)+

lemma dns_real_req_add_wf [wf_rules]: "base_wf b \<Longrightarrow> res_all base_wf (dns_real_req_add r b)"
  unfolding dns_real_req_add_def Let_def by (rule wf_all wf_rules res_all_True | assumption | simp)+

lemma dns_real_req_del_wf [wf_rules]: "base_wf b \<Longrightarrow> res_all base_wf (dns_real_req_del r b)"
  unfolding dns_real_req_del_def Let_def by (rule wf_all wf_rules res_all_True | assumption | simp)+

lemma real_req_timer_wf:
  "base_wf b \<Longrightarrow> (case tm of Some t \<Rightarrow> (t, b) | None \<Rightarrow> ep_timer_new cb b) = (t, b') \<Longrightarrow> base_wf b'"
  by (auto split: option.splits intro: ep_timer_new_wf)

lemma dns_real_req_start_wf [wf_rules]: "base_wf b \<Longrightarrow> res_all base_wf (dns_real_req_start r b)"
  unfolding dns_real_req_start_def Let_def ep_timer_pending_def
  by (rule wf_all wf_rules res_all_True | assumption | erule (1) real_req_timer_wf | simp)+

lemma answer_at_once_wf [wf_rules]: "base_wf b \<Longrightarrow> res_all (\<lambda>(q, b). base_wf b) (answer_at_once q cb res b)"
  unfolding answer_at_once_def Let_def
  by (rule wf_all wf_rules res_all_True | assumption | simp add: ep_timer_new_wf)+

lemma new_real_req_wf [wf_rules]: "base_wf b \<Longrightarrow> res_all (\<lambda>(r, b). base_wf b) (new_real_req host b)"
  unfolding new_real_req_def Let_def
  by (rule wf_all wf_rules res_all_True | assumption | simp add: base_wf_next)+

lemma dns_resolve_wf [wf_rules]: "base_wf b \<Longrightarrow> res_all (\<lambda>(q, b). base_wf b) (dns_resolve host cb b)"
  unfolding dns_resolve_def Let_def
  by (rule wf_all wf_rules res_all_True | assumption | simp add: base_wf_next)+

lemma dns_cancel_wf [wf_rules]: "base_wf b \<Longrightarrow> res_all base_wf (dns_cancel q b)"
  unfolding dns_cancel_def by (rule wf_all wf_rules res_all_True | assumption | simp)+

lemma dns_init_wf [wf_rules]: "base_wf b \<Longrightarrow> res_all base_wf (dns_init sock ns b)"
  unfolding dns_init_def by (rule wf_all wf_rules res_all_True | assumption | simp)+

lemma dns_fini_wf [wf_rules]: "base_wf b \<Longrightarrow> res_all base_wf (dns_fini b)"
  unfolding dns_fini_def by (rule wf_all wf_rules res_all_True | assumption | simp)+

lemma res_all_list:
  "(xs = [] \<Longrightarrow> res_all P r) \<Longrightarrow> (\<And>y ys. xs = y # ys \<Longrightarrow> res_all P (k y ys)) \<Longrightarrow>
     res_all P (case xs of [] \<Rightarrow> r | y # ys \<Rightarrow> k y ys)"
  by (cases xs) simp_all

text \<open>The contract of the resolver's users, and of the other users of the loop.\<close>

locale dns_user =
  fixes U :: "('u, 'd, 'a, 'z) dnscb"
    and n :: nat
    and d :: "char list option"
    and user :: "('u dns_callback file_cb, ('u, 'd, 'a, 'z) dbase) ep_handlers"
  assumes reply_wf: "base_wf b \<Longrightarrow> res_all base_wf (U a ret ips k cname b)"
    and rest_file_wf: "base_wf b \<Longrightarrow> res_all base_wf (on_file user (User_Cb v) f fd what b)"
    and rest_timer_wf: "base_wf b \<Longrightarrow> res_all base_wf (on_timer user c t b)"
begin

lemma notify_wf: "base_wf b \<Longrightarrow> res_all base_wf (notify_loop U m r ret ips k cname cur b)"
proof (induction m arbitrary: cur b)
  case 0
  then show ?case by (cases cur) simp_all
next
  case (Suc m)
  then show ?case
    by (cases cur) (simp_all add: Let_def, (rule wf_all wf_rules res_all_True reply_wf Suc.IH | assumption | simp)+)
qed

lemma active_and_free_wf: "base_wf b \<Longrightarrow> res_all base_wf (dns_real_req_active_and_free U m r resps ret b)"
  unfolding dns_real_req_active_and_free_def Let_def ep_timer_pending_def
  by (rule wf_all wf_rules res_all_True notify_wf | assumption | simp)+

lemma real_req_timercb_wf: "base_wf b \<Longrightarrow> res_all base_wf (dns_real_req_timercb U m r b)"
  unfolding dns_real_req_timercb_def by (rule wf_all wf_rules active_and_free_wf res_all_True | assumption)+

lemma rightnow_tmrcb_wf: "base_wf b \<Longrightarrow> res_all base_wf (dns_rightnow_tmrcb U q b)"
  unfolding dns_rightnow_tmrcb_def by (rule wf_all wf_rules reply_wf res_all_True | assumption | simp)+

lemma decode_response_wf: "base_wf b \<Longrightarrow> res_all base_wf (decode_response U m msg b)"
  unfolding decode_response_def
  by (rule res_all_bind [OF res_all_True] res_all_case3 res_all_list base_wf_Inr res_all_option active_and_free_wf | assumption)+

lemma recv_cb_wf: "base_wf b \<Longrightarrow> res_all base_wf (dns_recv_cb U m x what b)"
  by (simp add: dns_recv_cb_def decode_response_wf split: option.split)

lemma dns_timers_wf: "base_wf b \<Longrightarrow> res_all base_wf (on_timer (dns_handlers U n d user) c t b)"
  by (auto simp: dns_handlers_def real_req_timercb_wf rightnow_tmrcb_wf rest_timer_wf split: file_cb.split dns_callback.split)

lemma dns_files_wf: "base_wf b \<Longrightarrow> res_all base_wf (on_file (dns_handlers U n d user) (User_Cb u) f fd what b)"
  by (auto simp: dns_handlers_def recv_cb_wf rest_file_wf split: dns_callback.split)

end

text \<open>The resolver and buffered connections on one loop.\<close>

locale buffered_dns = dns_user U n d user
  for U :: "('u, 'd, 'a, 'z) dnscb" and n d user +
  fixes cb :: "('u dns_callback, 'd, ('a, 'z) dns_base_ext) buf_user"
    and w :: io_result
    and rd :: "unit + char list"
  assumes conn_cb_wf: "base_wf b \<Longrightarrow> res_all base_wf (cb e p what b)"
begin
end

sublocale buffered_dns \<subseteq> ep_buf_user cb w rd "dns_handlers U n d user"
  by unfold_locales (simp_all add: conn_cb_wf dns_files_wf dns_timers_wf)

section \<open>The cache is a map\<close>

text \<open>
  Every record of a bucket is live, its host is a terminated string of that bucket, and addresses not handed out yet are unused.
\<close>

definition cache_wf :: "('u, 'd, 'a, 'z) dbase \<Rightarrow> bool" where
  "cache_wf b \<longleftrightarrow> length (s_cache_hash b) = CACHE_HASH_BUCKET_SIZE
     \<and> (\<forall>i < CACHE_HASH_BUCKET_SIZE. \<forall>r \<in> set (s_cache_hash b ! i). r < b_next b
          \<and> (\<exists>x. h_cache b r = Some x \<and> NUL \<in> set (cr_host x)))"

definition cache_bucket :: "('u, 'd, 'a, 'z) dbase \<Rightarrow> string \<Rightarrow> nat list" where
  "cache_bucket b host = s_cache_hash b ! dns_hash_cache_str host"

definition host_of :: "(nat \<rightharpoonup> cache_record) \<Rightarrow> nat \<Rightarrow> string" where
  "host_of h r = c_str (cr_host (the (h r)))"

definition cache_map :: "('u, 'd, 'a, 'z) dbase \<Rightarrow> string \<rightharpoonup> string" where
  "cache_map b host =
     map_option (\<lambda>r. c_str (cr_ip (the (h_cache b r)))) (find (\<lambda>r. host_of (h_cache b) r = host) (cache_bucket b host))"

lemma cache_hash_less [simp]: "dns_hash_cache_str host < 4096"
proof -
  have "str_total host mod 4096 < 4096" by simp
  then show ?thesis by (simp add: dns_hash_cache_str_def nat_less_iff)
qed

lemma find_record_find:
  "(\<And>r. r \<in> set rs \<Longrightarrow> \<exists>x. h r = Some x \<and> NUL \<in> set (cr_host x)) \<Longrightarrow>
   find_record h host rs = Inr (find (\<lambda>r. host_of h r = host) rs)"
proof (induction rs)
  case (Cons r rs)
  moreover obtain x where "h r = Some x" "NUL \<in> set (cr_host x)"
    using Cons.prems [of r] by auto
  ultimately show ?case by (simp add: host_of_def cstr_at_def)
qed simp

lemma cache_live:
  "cache_wf b \<Longrightarrow> r \<in> set (cache_bucket b host) \<Longrightarrow> r < b_next b \<and> (\<exists>x. h_cache b r = Some x \<and> NUL \<in> set (cr_host x))"
  unfolding cache_wf_def cache_bucket_def by (drule conjunct2, drule spec [of _ "dns_hash_cache_str host"]) simp

lemma cache_find:
  "cache_wf b \<Longrightarrow> dns_cache_find host b = Inr (find (\<lambda>r. host_of (h_cache b) r = host) (cache_bucket b host))"
  unfolding dns_cache_find_def cache_bucket_def [symmetric] by (rule find_record_find) (use cache_live in blast)

lemma strncpy_zeros:
  assumes "n \<le> k"
  shows "strncpy (replicate k NUL) s n = Inr (zbuf k (take n s))"
proof -
  have "take n (s @ replicate n NUL) = take n s @ replicate (n - length s) NUL"
    by (simp add: take_replicate min_def)
  then show ?thesis
    using assms by (auto simp: strncpy_def memcpy_at_def zbuf_def min_def simp flip: replicate_add)
qed

lemma zbuf_terminated: "length s < k \<Longrightarrow> NUL \<in> set (zbuf k s)"
  by (simp add: zbuf_def)

lemma find_cong_set: "(\<And>x. x \<in> set xs \<Longrightarrow> P x = Q x) \<Longrightarrow> find P xs = find Q xs"
  by (induction xs) auto

lemma find_snoc: "find P (xs @ [y]) = (case find P xs of None \<Rightarrow> if P y then Some y else None | Some x \<Rightarrow> Some x)"
  by (induction xs) auto

lemma find_in_set: "find P xs = Some x \<Longrightarrow> x \<in> set xs \<and> P x"
  by (induction xs) (auto split: if_splits)

text \<open>A record that is added behind the ones of its bucket.\<close>

definition add_record :: "cache_record \<Rightarrow> ('u, 'd, 'a, 'z) dbase \<Rightarrow> ('u, 'd, 'a, 'z) dbase" where
  "add_record x b =
     (let host = c_str (cr_host x); r = b_next b
      in b\<lparr>b_next := Suc r, h_cache := (h_cache b)(r \<mapsto> x),
           s_cache_hash := (s_cache_hash b)[dns_hash_cache_str host := cache_bucket b host @ [r]]\<rparr>)"

lemma add_record_wf:
  assumes "cache_wf b" and "NUL \<in> set (cr_host x)"
  shows "cache_wf (add_record x b)"
proof -
  have "r < Suc (b_next b) \<and> (\<exists>y. ((h_cache b)(b_next b \<mapsto> x)) r = Some y \<and> NUL \<in> set (cr_host y))"
    if "i < 4096" "r \<in> set (s_cache_hash (add_record x b) ! i)" for i r
  proof (cases "r = b_next b")
    case False
    then have "r \<in> set (s_cache_hash b ! i)"
      using that assms(1) by (auto simp: add_record_def Let_def cache_wf_def cache_bucket_def nth_list_update split: if_splits)
    then show ?thesis using assms(1) that(1) by (fastforce simp: cache_wf_def)
  qed (simp add: assms(2))
  then show ?thesis using assms(1) by (auto simp: cache_wf_def) (auto simp: add_record_def Let_def)
qed

lemma add_record_map:
  assumes "cache_wf b" and "cache_map b (c_str (cr_host x)) = None"
  shows "cache_map (add_record x b) = (cache_map b)(c_str (cr_host x) \<mapsto> c_str (cr_ip x))"
proof
  fix h
  let ?host = "c_str (cr_host x)" and ?r = "b_next b" and ?h = "(h_cache b)(b_next b \<mapsto> x)"
  have old: "q \<noteq> ?r" if "q \<in> set (cache_bucket b h)" for q
    using cache_live [OF assms(1) that] by auto
  then have same: "find (\<lambda>r. host_of ?h r = h) (cache_bucket b h) = find (\<lambda>r. host_of (h_cache b) r = h) (cache_bucket b h)"
    by (intro find_cong_set) (simp add: host_of_def)
  have bucket: "cache_bucket (add_record x b) h =
      (if dns_hash_cache_str h = dns_hash_cache_str ?host then cache_bucket b h @ [?r] else cache_bucket b h)"
    using assms(1) cache_hash_less [of ?host]
    by (simp add: add_record_def Let_def cache_bucket_def cache_wf_def nth_list_update)
  have ip: "c_str (cr_ip (the (?h q))) = c_str (cr_ip (the (h_cache b q)))"
    if "find (\<lambda>r. host_of (h_cache b) r = h) (cache_bucket b h) = Some q" for q
    using old find_in_set [OF that] by simp
  have "find (\<lambda>r. host_of ?h r = h) (cache_bucket (add_record x b) h) =
      (case find (\<lambda>r. host_of (h_cache b) r = h) (cache_bucket b h) of
         None \<Rightarrow> if h = ?host then Some ?r else None | Some q \<Rightarrow> Some q)"
    unfolding bucket by (auto simp: find_snoc same [symmetric] host_of_def [of ?h ?r] split: option.split)
  moreover have "h_cache (add_record x b) = ?h" by (simp add: add_record_def Let_def)
  ultimately show "cache_map (add_record x b) h = ((cache_map b)(?host \<mapsto> c_str (cr_ip x))) h"
    using assms(2) ip by (auto simp: cache_map_def split: option.splits if_splits)
qed

lemma dns_cache_add_map:
  assumes "cache_wf b" and "no_nul host" and "length host < 256" and "no_nul ip" and "length ip < 64"
  shows "\<exists>b'. dns_cache_add host (Some ip) cname b = Inr b' \<and> cache_wf b' \<and> cache_map b' = [host \<mapsto> ip] ++ cache_map b"
proof (cases "cache_map b host")
  case None
  let ?x = "\<lparr>cr_cname = zbuf 256 (take 64 cname), cr_host = zbuf 256 host, cr_ip = zbuf 64 ip\<rparr>"
  have "dns_cache_add host (Some ip) cname b = Inr (add_record ?x b)"
    using assms None cache_find [OF assms(1), of host]
    by (simp add: dns_cache_add_def strncpy_zeros cache_map_def add_record_def Let_def cache_bucket_def deref_def)
  moreover have "cache_wf (add_record ?x b)"
    using assms by (intro add_record_wf) (simp_all add: zbuf_terminated)
  moreover have "cache_map (add_record ?x b) = [host \<mapsto> ip] ++ cache_map b"
    using assms None add_record_map [of b ?x] by (auto simp: map_add_def fun_eq_iff split: option.splits)
  ultimately show ?thesis by blast
next
  case (Some a)
  then have "dns_cache_add host (Some ip) cname b = Inr b"
    using cache_find [OF assms(1), of host] by (auto simp: dns_cache_add_def cache_map_def)
  then show ?thesis
    using assms(1) Some by (auto simp: map_add_def fun_eq_iff split: option.splits)
qed


section \<open>Answers\<close>

text \<open>Callbacks that only work on their own part of the state.\<close>

definition own_state :: "('a \<Rightarrow> int \<Rightarrow> string option list \<Rightarrow> int \<Rightarrow> string \<Rightarrow> 'z \<Rightarrow> 'z) \<Rightarrow> ('u, 'd, 'a, 'z) dnscb" where
  "own_state g a ret ips k cname b = Inr (dns_base.more_update (g a ret ips k cname) b)"

lemma more_update_out:
  "(dns_base.more_update g b)\<lparr>h_real_req := x\<rparr> = dns_base.more_update g (b\<lparr>h_real_req := x\<rparr>)"
  "(dns_base.more_update g b)\<lparr>h_dns_req := y\<rparr> = dns_base.more_update g (b\<lparr>h_dns_req := y\<rparr>)"
  by (cases b; simp)+

lemma next_in_first: "next_in q (q # qs) = first_in qs"
  by (cases qs) (simp_all add: first_in_def)

lemma notify_all:
  "distinct qs \<Longrightarrow> (\<And>q. q \<in> set qs \<Longrightarrow> \<exists>y. h_dns_req b q = Some y \<and> dq_list y = Some r) \<Longrightarrow>
   h_real_req b r = Some x \<Longrightarrow> rq_list_reqs x = qs \<Longrightarrow> length qs \<le> n \<Longrightarrow>
   notify_loop (own_state g) n r ret ips k cname (first_in qs) b =
     Inr (dns_base.more_update (fold (\<lambda>q. g (dq_cb (the (h_dns_req b q))) ret ips k cname) qs)
       (b\<lparr>h_dns_req := (h_dns_req b) |` (- set qs), h_real_req := (h_real_req b)(r \<mapsto> x\<lparr>rq_list_reqs := []\<rparr>)\<rparr>))"
proof (induction qs arbitrary: b n x)
  case Nil
  then show ?case by (simp add: first_in_def fun_upd_idem)
next
  case (Cons q qs)
  obtain m where m: "n = Suc m" using Cons.prems(5) by (cases n) simp_all
  obtain y where y: "h_dns_req b q = Some y" "dq_list y = Some r" using Cons.prems(2) [of q] by auto
  let ?b = "free_dns_req q (dns_base.more_update (g (dq_cb y) ret ips k cname)
      (b\<lparr>h_real_req := (h_real_req b)(r \<mapsto> x\<lparr>rq_list_reqs := qs\<rparr>)\<rparr>))"
  have "notify_loop (own_state g) n r ret ips k cname (At q) b =
      notify_loop (own_state g) m r ret ips k cname (first_in qs) ?b"
    using y Cons.prems m
    by (simp add: own_state_def unlink_dns_req_def upd_real_req_def deref_def Let_def next_in_first free_dns_req_def
        more_update_out) (simp add: first_in_def)
  moreover have "notify_loop (own_state g) m r ret ips k cname (first_in qs) ?b =
     Inr (dns_base.more_update (fold (\<lambda>q. g (dq_cb (the (h_dns_req ?b q))) ret ips k cname) qs)
       (?b\<lparr>h_dns_req := (h_dns_req ?b) |` (- set qs), h_real_req := (h_real_req ?b)(r \<mapsto> x\<lparr>rq_list_reqs := []\<rparr>)\<rparr>))"
    using Cons.prems m Cons.IH [of ?b "x\<lparr>rq_list_reqs := qs\<rparr>" m] by (fastforce simp: free_dns_req_def)
  moreover have "fold (\<lambda>q. g (dq_cb (the (h_dns_req ?b q))) ret ips k cname) qs = fold (\<lambda>q. g (dq_cb (the (h_dns_req b q))) ret ips k cname) qs"
    using Cons.prems(1) by (intro ext fold_cong) (auto simp: free_dns_req_def)
  ultimately show ?case
    using y by (simp add: first_in_def) (simp add: free_dns_req_def more_update_out restrict_map_def fun_eq_iff comp_def)
qed

lemma no_nul_fmt_d: "no_nul (fmt_d n)"
proof (induction n rule: fmt_d.induct)
  case (1 n)
  have "hex_digit k \<noteq> NUL" if "k < 10" for k
    using that by (simp add: hex_digit_def char_of_eq_iff take_bit_eq_mod)
  then show ?case using 1 by (subst fmt_d.simps) simp
qed

lemma no_nul_dotted: "no_nul (dotted a)"
proof -
  have "no_nul (join_dots ls)" if "list_all no_nul ls" for ls
    using that by (induction ls rule: join_dots.induct) simp_all
  then show ?thesis by (simp add: dotted_def list_all_iff no_nul_fmt_d)
qed

fun addresses :: "answer list \<Rightarrow> char list list" where
  "addresses [] = []"
| "addresses (Address ttl a # ans) = a # addresses ans"
| "addresses (Alias ttl ls # ans) = addresses ans"

lemma answer_ips_addresses: "answer_ips (map (answer_record host) ans) = map dotted (addresses ans)"
  by (induction ans rule: addresses.induct) (simp_all add: answer_ips_def no_nul_dotted)

lemma addresses_wire: "list_all wire_answer ans \<Longrightarrow> a \<in> set (addresses ans) \<Longrightarrow> length a = 4"
  by (induction ans rule: addresses.induct) auto

lemma drop_timer_ok:
  assumes "base_wf b" and "h_timer b t = Some x"
  shows "\<exists>b'. drop_timer t b = Inr b' \<and> base_wf b' \<and> ep_base.more b' = ep_base.more b"
proof (cases "et_pending x")
  case True
  obtain b1 where b1: "ep_timer_del t b = Inr b1" "base_wf b1" "ep_base.more b1 = ep_base.more b"
    "h_timer b1 t = Some (x\<lparr>et_info := None, et_pending := False\<rparr>)"
    using ep_timer_del_ok [OF assms] by auto
  then show ?thesis
    using ep_timer_free_ok [OF b1(2,4)] assms(2) True by (auto simp: drop_timer_def ep_timer_pending_def)
next
  case False
  then show ?thesis
    using ep_timer_free_ok [OF assms] assms(2) by (auto simp: drop_timer_def ep_timer_pending_def)
qed

lemma dns_more:
  fixes b b' :: "('u, 'd, 'a, 'z) dbase"
  assumes "ep_base.more b' = ep_base.more b"
  shows "h_dns_req b' = h_dns_req b" "h_real_req b' = h_real_req b" "h_cache b' = h_cache b" "s_hash b' = s_hash b"
    "s_cache_hash b' = s_cache_hash b" "dns_sent b' = dns_sent b" "dns_base.more b' = dns_base.more b"
    "s_dns_event b' = s_dns_event b" "ntoa_buffer b' = ntoa_buffer b"
  using assms by (cases b; cases b'; simp)+

text \<open>
  A query for \<open>host\<close> is in progress, with the requests \<open>qs\<close> waiting for it.
\<close>

definition in_progress :: "('u, 'd, 'a, 'z) dbase \<Rightarrow> nat \<Rightarrow> string \<Rightarrow> nat list \<Rightarrow> bool" where
  "in_progress b r host qs \<longleftrightarrow> base_wf b \<and> dns_real_req_find host b = Inr (Some r) \<and> distinct qs
     \<and> (\<forall>q \<in> set qs. \<exists>y. h_dns_req b q = Some y \<and> dq_list y = Some r)
     \<and> (\<exists>x t. h_real_req b r = Some x \<and> rq_list_reqs x = qs \<and> rq_host x = zbuf 256 host \<and> rq_timer x = Some t
          \<and> h_timer b t \<noteq> None)"

lemma more_update_keeps [simp]:
  "base_wf (dns_base.more_update g b) \<longleftrightarrow> base_wf b" "cache_wf (dns_base.more_update g b) \<longleftrightarrow> cache_wf b"
  "cache_map (dns_base.more_update g b) = cache_map b"
  by (simp_all add: base_wf_def cache_wf_def cache_map_def cache_bucket_def fun_eq_iff)

lemma cache_frame:
  assumes "h_cache b' = h_cache b" and "s_cache_hash b' = s_cache_hash b" and "b_next b \<le> b_next b'"
  shows "cache_wf b \<Longrightarrow> cache_wf b'" and "cache_map b' = cache_map b"
proof -
  show "cache_map b' = cache_map b" by (rule ext) (simp add: assms cache_map_def cache_bucket_def)
qed (use assms in \<open>fastforce simp: cache_wf_def\<close>)

lemma release_info_next: "release_info i b = Inr b' \<Longrightarrow> b_next b' = b_next b"
  by (auto simp: release_info_def ep_timer_info_del_def rbind_eq_Inr put_defs split: option.splits if_splits)

lemma drop_timer_next: "drop_timer t b = Inr b' \<Longrightarrow> b_next b' = b_next b"
  by (auto simp: drop_timer_def ep_timer_pending_def ep_timer_del_def ep_timer_free_def rbind_eq_Inr put_defs
      dest!: release_info_next split: if_splits)

lemma dns_cache_add_keeps:
  "dns_cache_add host ip cname b = Inr b' \<Longrightarrow> h_real_req b' = h_real_req b \<and> h_dns_req b' = h_dns_req b
     \<and> h_timer b' = h_timer b \<and> dns_base.more b' = dns_base.more b"
  by (auto simp: dns_cache_add_def rbind_eq_Inr Let_def split: if_splits)

lemma active_and_free_ok:
  assumes "in_progress b r host qs" and "cache_wf b" and "no_nul host" and "length host < 256" and "length qs \<le> n"
    and "answer_ips resps = ip # ips" and "no_nul ip" and "length ip < 64"
  shows "\<exists>b'. dns_real_req_active_and_free (own_state g) n r resps 0 b = Inr b' \<and> base_wf b'
    \<and> h_real_req b' = (h_real_req b)(r := None) \<and> h_dns_req b' = (h_dns_req b) |` (- set qs)
    \<and> cache_wf b' \<and> cache_map b' = [host \<mapsto> ip] ++ cache_map b
    \<and> dns_base.more b' = fold (\<lambda>q. g (dq_cb (the (h_dns_req b q))) 0
        (map Some (ip # ips) @ replicate (length resps - Suc (length ips)) None) (int (Suc (length ips))) (answer_cname resps))
        qs (dns_base.more b)"
proof -
  let ?ips = "map Some (ip # ips) @ replicate (length resps - Suc (length ips)) None"
  let ?k = "int (Suc (length ips))" and ?c = "answer_cname resps"
  obtain x t where x: "h_real_req b r = Some x" "rq_list_reqs x = qs" "rq_host x = zbuf 256 host" "rq_timer x = Some t"
    "h_timer b t \<noteq> None" using assms(1) by (auto simp: in_progress_def)
  define b1 where "b1 = dns_base.more_update (fold (\<lambda>q. g (dq_cb (the (h_dns_req b q))) 0 ?ips ?k ?c) qs)
       (b\<lparr>h_dns_req := (h_dns_req b) |` (- set qs), h_real_req := (h_real_req b)(r \<mapsto> x\<lparr>rq_list_reqs := []\<rparr>)\<rparr>)"
  have notify: "notify_loop (own_state g) n r 0 ?ips ?k ?c (first_in qs) b = Inr b1"
    unfolding b1_def using assms(1,5) x by (intro notify_all) (auto simp: in_progress_def)
  have b1: "base_wf b1" "cache_wf b1" "cache_map b1 = cache_map b"
    using assms(1,2) cache_frame [of "b\<lparr>h_dns_req := u, h_real_req := v\<rparr>" b for u v]
    by (simp_all add: b1_def in_progress_def)
  obtain b2 where b2: "dns_cache_add host (Some ip) ?c b1 = Inr b2" "cache_wf b2" "cache_map b2 = [host \<mapsto> ip] ++ cache_map b"
    using dns_cache_add_map [OF b1(2) assms(3,4,7,8), of ?c] b1(3) by auto
  note keeps = dns_cache_add_keeps [OF b2(1)]
  let ?b3 = "unlink_real_req r b2"
  have wf3: "base_wf ?b3" using res_allD [OF dns_cache_add_wf [OF b1(1)] b2(1)] by simp
  obtain tm where tm: "h_timer ?b3 t = Some tm" using x(5) keeps by (auto simp: b1_def unlink_real_req_def)
  obtain b4 where b4: "(if et_pending tm then drop_timer t ?b3 else Inr ?b3) = Inr b4" "base_wf b4"
    "ep_base.more b4 = ep_base.more ?b3"
    using drop_timer_ok [OF wf3 tm] wf3 by (cases "et_pending tm") auto
  have next4: "b_next b4 = b_next b2"
    using b4(1) by (auto dest: drop_timer_next simp: unlink_real_req_def split: if_splits)
  have r1: "h_real_req b1 r = Some (x\<lparr>rq_list_reqs := []\<rparr>)" by (simp add: b1_def)
  have "resps \<noteq> []" using assms(6) by (auto simp: answer_ips_def)
  then have "dns_real_req_active_and_free (own_state g) n r resps 0 b = Inr (b4\<lparr>h_real_req := (h_real_req b4)(r := None)\<rparr>)"
    using notify x assms(3,4,6) b2(1) tm b4(1) r1
    by (simp add: dns_real_req_active_and_free_def Let_def cstr_at_def zbuf_terminated ep_timer_pending_def)
  moreover have "cache_wf (b4\<lparr>h_real_req := (h_real_req b4)(r := None)\<rparr>)"
    "cache_map (b4\<lparr>h_real_req := (h_real_req b4)(r := None)\<rparr>) = cache_map b2"
    using cache_frame [of "b4\<lparr>h_real_req := (h_real_req b4)(r := None)\<rparr>" b2] b2(2) dns_more [OF b4(3)] next4
    by (simp_all add: unlink_real_req_def)
  ultimately show ?thesis
    using b2(3) b4(2) dns_more [OF b4(3)] keeps by (auto simp: unlink_real_req_def b1_def fun_eq_iff)
qed

lemma wire_name_no_nul: "wire_name ls \<Longrightarrow> no_nul (join_dots ls)"
proof -
  have "list_all wire_label ls \<Longrightarrow> no_nul (join_dots ls)"
    by (induction ls rule: join_dots.induct) (auto simp: wire_label_def no_nul_def)
  then show "wire_name ls \<Longrightarrow> no_nul (join_dots ls)" by (simp add: wire_name_def)
qed

text \<open>
  Claim C4.  An answer completes the query it belongs to: the resolver decodes the datagram, calls every waiting request once and in
  order with the addresses of the answer, frees the requests and the query, and caches the first address.
\<close>

theorem dns_answer_completes:
  assumes "in_progress b r (join_dots ls) qs" and "cache_wf b" and "length qs \<le> Suc n"
    and "wire_name ls" and "list_all wire_answer ans" and "addresses ans = a # as" and "length ans < 256"
    and "length ident = 3" and "length counts = 4" and "length (answer_message ident 0 counts ls ans rest) \<le> 512"
  shows "\<exists>b'. dns_recv_cb (own_state g) (Suc n) (Some (answer_message ident 0 counts ls ans rest)) EP_READ b = Inr b'
    \<and> base_wf b' \<and> h_real_req b' = (h_real_req b)(r := None) \<and> h_dns_req b' = (h_dns_req b) |` (- set qs)
    \<and> cache_wf b' \<and> cache_map b' = [join_dots ls \<mapsto> dotted a] ++ cache_map b
    \<and> dns_base.more b' = fold (\<lambda>q. g (dq_cb (the (h_dns_req b q))) 0
        (map Some (map dotted (a # as)) @ replicate (length ans - length (a # as)) None) (int (length (a # as)))
        (answer_cname (map (answer_record (join_dots ls)) ans))) qs (dns_base.more b)"
proof -
  let ?host = "join_dots ls" and ?resps = "map (answer_record (join_dots ls)) ans"
  let ?msg = "answer_message ident 0 counts ls ans rest"
  have host: "no_nul ?host" "length ?host < 256"
    using assms(4) wire_name_no_nul by (simp_all add: wire_name_def)
  have len: "length a = 4" using addresses_wire [OF assms(5), of a] assms(6) by simp
  have "take 512 ?msg @ replicate (512 - length ?msg) NUL =
      answer_message ident 0 counts ls ans (rest @ replicate (512 - length ?msg) NUL)"
    using assms(10) by (simp add: answer_message_def)
  then have "dns_recv_cb (own_state g) (Suc n) (Some ?msg) EP_READ b
      = dns_real_req_active_and_free (own_state g) (Suc n) r ?resps 0 b"
    using assms(1,4,5,7-9) host
    by (simp add: dns_recv_cb_def decode_response_def decode_answer_message cstr_at_def zbuf_terminated in_progress_def)
  moreover have "answer_ips ?resps = dotted a # map dotted as"
    using assms(6) by (simp add: answer_ips_addresses)
  ultimately show ?thesis
    using active_and_free_ok [OF assms(1,2) host assms(3), of ?resps "dotted a" "map dotted as" g]
      no_nul_dotted [of a] length_dotted [OF len] by simp
qed

section \<open>Queries\<close>

text \<open>The rest of the resolver's invariant: the table of queries, fresh addresses, and a live file for its socket.\<close>

definition resolver_wf :: "('u, 'd, 'a, 'z) dbase \<Rightarrow> bool" where
  "resolver_wf b \<longleftrightarrow> cache_wf b \<and> length (s_hash b) = HASH_BUCKET_SIZE
     \<and> (\<forall>p \<ge> b_next b. h_real_req b p = None \<and> h_dns_req b p = None) \<and> (\<exists>f. s_dns_event b = Some f \<and> watched b f)"

definition same_cache :: "('u, 'd, 'a, 'z) dbase \<Rightarrow> ('u, 'd, 'a, 'z) dbase \<Rightarrow> bool" where
  "same_cache b b' \<longleftrightarrow> h_cache b' = h_cache b \<and> s_cache_hash b' = s_cache_hash b \<and> b_next b \<le> b_next b'"

definition query_bytes :: "string \<Rightarrow> char list" where
  "query_bytes host = [NUL, CHR 0x01, CHR 0x01, NUL, NUL, CHR 0x01, NUL, NUL, NUL, NUL, NUL, NUL]
     @ encode_name (split_dots host) @ [NUL, CHR 0x01, NUL, CHR 0x01]"

lemma watched_dns [simp]:
  "watched (b\<lparr>h_dns_req := x1\<rparr>) f \<longleftrightarrow> watched b f" "watched (b\<lparr>h_real_req := x2\<rparr>) f \<longleftrightarrow> watched b f"
  "watched (b\<lparr>s_hash := x3\<rparr>) f \<longleftrightarrow> watched b f" "watched (b\<lparr>dns_sent := x4\<rparr>) f \<longleftrightarrow> watched b f"
  by (simp_all add: watched_def file_at_def)

lemma watched_next [simp]: "watched b f \<Longrightarrow> watched (b\<lparr>b_next := Suc (b_next b)\<rparr>) f"
  by (auto simp: watched_def file_at_def intro: base_wf_next)

lemma watched_timer:
  assumes "watched b f" and "base_wf b'" and "h_file b' = h_file b" and "b_files b' = b_files b"
  shows "watched b' f"
  using assms by (auto simp: watched_def file_at_def)

lemma detect_timers:
  assumes "watched b f" and "ep_file_detect f what t b = Inr b'"
  shows "h_timer b' = h_timer b"
proof -
  obtain ev where "base_wf b" "h_file b f = Some ev" "file_at b f (ef_fd ev)"
    using assms(1) by (auto simp: watched_def)
  then show ?thesis using ep_file_detect_ok [of b f ev what t] assms(2) by auto
qed

lemma hash_less [simp]: "dns_hash_str host < 512"
proof -
  have "str_total host mod 512 < 512" by simp
  then show ?thesis by (simp add: dns_hash_str_def nat_less_iff)
qed

lemma find_real_req_snoc:
  "find_real_req h host rs = Inr None \<Longrightarrow> h r = None \<Longrightarrow> take 256 (c_str (rq_host x)) = take 256 host \<Longrightarrow>
   find_real_req (h(r \<mapsto> x)) host (rs @ [r]) = Inr (Some r)"
proof (induction rs)
  case (Cons a rs)
  then show ?case by (cases "h a") (auto simp: look_def split: if_splits)
qed simp

lemma ep_timer_add_more: "ep_timer_add t ms b = Inr b' \<Longrightarrow> ep_base.more b' = ep_base.more b"
  by (auto simp: ep_timer_add_def ep_timer_info_add_def ep_timer_info_create_def rbind_eq_Inr put_defs Let_def
      split: option.splits if_splits prod.splits)

lemma ep_timer_add_next: "ep_timer_add t ms b = Inr b' \<Longrightarrow> b_next b \<le> b_next b'"
  by (auto simp: ep_timer_add_def ep_timer_info_add_def ep_timer_info_create_def rbind_eq_Inr put_defs Let_def
      split: option.splits if_splits prod.splits)

lemma ep_timer_info_next:
  "ep_timer_info_del p b = Inr b' \<Longrightarrow> b_next b' = b_next b" "ep_timer_info_add p ms b = Inr (rc, b') \<Longrightarrow> b_next b' = b_next b"
  by (auto simp: ep_timer_info_del_def ep_timer_info_add_def rbind_eq_Inr put_defs Let_def split: if_splits)

lemma ep_file_detect_next: "ep_file_detect f what t b = Inr b' \<Longrightarrow> b_next b \<le> b_next b'"
  by (auto simp: ep_file_detect_def ep_file_set_timer_def ep_timer_info_create_def rbind_eq_Inr put_defs Let_def
      dest!: ep_timer_info_next split: option.splits if_splits prod.splits)

lemma dns_real_req_start_ok:
  assumes "watched b f" and "s_dns_event b = Some f" and "h_real_req b r = Some x" and "rq_timer x = None"
    and "rq_host x = zbuf 256 host" and "no_nul host" and "length host < 256" and "rq_count_timeout x = 0"
  shows "\<exists>t b'. dns_real_req_start r b = Inr b' \<and> watched b' f \<and> h_real_req b' = (h_real_req b)(r \<mapsto> x\<lparr>rq_timer := Some t\<rparr>)
    \<and> h_timer b' t \<noteq> None \<and> dns_sent b' = dns_sent b @ [query_bytes host] \<and> s_hash b' = s_hash b
    \<and> h_dns_req b' = h_dns_req b \<and> same_cache b b' \<and> s_dns_event b' = s_dns_event b"
proof -
  obtain t b1 where b1: "ep_timer_new (User_Cb (Dns_Real_Tmr r)) b = (t, b1)" by (cases "ep_timer_new (User_Cb (Dns_Real_Tmr r)) b")
  have wf: "base_wf b" using assms(1) by (simp add: watched_def)
  let ?b2 = "b1\<lparr>h_real_req := (h_real_req b)(r \<mapsto> x\<lparr>rq_timer := Some t\<rparr>)\<rparr>"
  have same: "h_file b1 = h_file b" "b_files b1 = b_files b" "ep_base.more b1 = ep_base.more b" "h_timer b1 t \<noteq> None"
    "ep_timer_pending t ?b2 = Inr False"
    using b1 by (auto simp: ep_timer_new_def ep_timer_pending_def)
  have w2: "watched ?b2 f" using watched_timer [OF assms(1)] ep_timer_new_wf [OF wf b1] same by simp
  obtain tm where "h_timer ?b2 t = Some tm" using same(4) by auto
  then obtain b3 y where b3: "ep_timer_add t 1000 ?b2 = Inr b3" "base_wf b3" "h_timer b3 = (h_timer ?b2)(t \<mapsto> y)"
    "h_file b3 = h_file ?b2" "b_files b3 = b_files ?b2" "ep_base.more b3 = ep_base.more ?b2"
    using ep_timer_add_ok [of ?b2 t _ 1000] w2 by (auto simp: watched_def)
  have w3: "watched b3 f" using watched_timer [OF w2 b3(2,4,5)] .
  obtain b4 where b4: "ep_file_detect f EP_READ (- 1) b3 = Inr b4" "watched b4 f" "ep_base.more b4 = ep_base.more b3"
    using watched_detect [OF w3, of EP_READ "- 1"] by blast
  note more = dns_more [OF b4(3)] dns_more [OF b3(6)] dns_more [OF same(3)]
  have q: "dns_query host = Inr (query_bytes host)"
    unfolding query_bytes_def using assms(6,7) by (intro dns_query_bytes) simp_all
  have "dns_real_req_start r b = Inr (b4\<lparr>dns_sent := dns_sent b4 @ [query_bytes host]\<rparr>)"
    using assms b1 same(5) b3(1) b4(1) q more
    by (simp add: dns_real_req_start_def upd_real_req_def cstr_at_def zbuf_terminated dns_send_req_def deref_def)
  moreover have "b_next b \<le> b_next b4"
    using b1 ep_timer_add_next [OF b3(1)] ep_file_detect_next [OF b4(1)] by (auto simp: ep_timer_new_def)
  ultimately show ?thesis
    using b4(2) more detect_timers [OF w3 b4(1)] b3(3) by (intro exI [of _ t]) (simp add: same_cache_def)
qed

lemma new_real_req_ok:
  assumes "watched b f" and "s_dns_event b = Some f" and "length (s_hash b) = 512" and "h_real_req b (b_next b) = None"
    and "dns_real_req_find host b = Inr None" and "no_nul host" and "length host < 256"
  shows "\<exists>t x b'. new_real_req host b = Inr (b_next b, b') \<and> watched b' f \<and> h_real_req b' = (h_real_req b)(b_next b \<mapsto> x)
    \<and> rq_host x = zbuf 256 host \<and> rq_timer x = Some t \<and> rq_list_reqs x = [] \<and> h_timer b' t \<noteq> None
    \<and> find_real_req ((h_real_req b)(b_next b \<mapsto> x)) host (s_hash b' ! dns_hash_str host) = Inr (Some (b_next b))
    \<and> dns_sent b' = dns_sent b @ [query_bytes host] \<and> h_dns_req b' = h_dns_req b \<and> same_cache b b' \<and> b_next b < b_next b'
    \<and> s_dns_event b' = s_dns_event b \<and> length (s_hash b') = 512"
proof -
  let ?r = "b_next b" and ?x = "\<lparr>rq_list_reqs = [], rq_host = zbuf 256 host, rq_timer = None, rq_count_timeout = 0\<rparr>"
  let ?i = "dns_hash_str host"
  let ?b1 = "b\<lparr>b_next := Suc ?r, h_real_req := (h_real_req b)(?r \<mapsto> ?x), s_hash := (s_hash b)[?i := (s_hash b ! ?i) @ [?r]]\<rparr>"
  obtain t b2 where b2: "dns_real_req_start ?r ?b1 = Inr b2" "watched b2 f" "h_timer b2 t \<noteq> None"
    "h_real_req b2 = (h_real_req ?b1)(?r \<mapsto> ?x\<lparr>rq_timer := Some t\<rparr>)" "dns_sent b2 = dns_sent ?b1 @ [query_bytes host]"
    "s_hash b2 = s_hash ?b1" "h_dns_req b2 = h_dns_req ?b1" "same_cache ?b1 b2" "s_dns_event b2 = s_dns_event b"
    using dns_real_req_start_ok [of ?b1 f ?r ?x host] assms by (auto simp del: fun_upd_apply) (auto)
  have "new_real_req host b = Inr (?r, b2)"
    using assms b2(1) by (simp add: new_real_req_def Let_def strncpy_zeros dns_real_req_add_def cstr_at_def zbuf_terminated)
  moreover have "find_real_req ((h_real_req b)(?r \<mapsto> ?x\<lparr>rq_timer := Some t\<rparr>)) host (s_hash b2 ! ?i) = Inr (Some ?r)"
    using find_real_req_snoc [of "h_real_req b" host "s_hash b ! ?i" ?r "?x\<lparr>rq_timer := Some t\<rparr>"] assms b2(6)
    by (simp add: dns_real_req_find_def)
  ultimately show ?thesis
    using b2 assms(3) by (intro exI [of _ t] exI [of _ "?x\<lparr>rq_timer := Some t\<rparr>"] exI [of _ b2]) (simp add: same_cache_def)
qed

lemma cache_miss: "cache_wf b \<Longrightarrow> cache_map b host = None \<Longrightarrow> dns_cache_find host (b\<lparr>b_next := k\<rparr>) = Inr None"
  using cache_find [of b host] by (simp add: dns_cache_find_def cache_map_def)

lemma find_real_req_relabel:
  "h r = Some x \<Longrightarrow> rq_host y = rq_host x \<Longrightarrow> find_real_req (h(r \<mapsto> y)) host rs = find_real_req h host rs"
proof (induction rs)
  case (Cons a rs)
  then show ?case by (cases "h a") (auto simp: look_def)
qed simp

lemma resolve_new:
  assumes "resolver_wf b" and "inet_aton host = None" and "cache_map b host = None"
    and "dns_real_req_find host b = Inr None" and "no_nul host" and "length host < 256"
  shows "\<exists>b'. dns_resolve host cb b = Inr (b_next b, b') \<and> in_progress b' (Suc (b_next b)) host [b_next b]
    \<and> resolver_wf b' \<and> dns_sent b' = dns_sent b @ [query_bytes host]"
proof -
  let ?q = "b_next b"
  let ?b1 = "b\<lparr>b_next := Suc ?q\<rparr>"
  obtain f where f: "s_dns_event b = Some f" "watched b f" using assms(1) by (auto simp: resolver_wf_def)
  have cache: "dns_cache_find host ?b1 = Inr None"
    using assms(1,3) by (simp add: resolver_wf_def cache_miss)
  obtain t x b2 where b2: "new_real_req host ?b1 = Inr (Suc ?q, b2)" "watched b2 f"
    "h_real_req b2 = (h_real_req b)(Suc ?q \<mapsto> x)" "rq_host x = zbuf 256 host" "rq_timer x = Some t" "rq_list_reqs x = []"
    "h_timer b2 t \<noteq> None" "find_real_req ((h_real_req b)(Suc ?q \<mapsto> x)) host (s_hash b2 ! dns_hash_str host) = Inr (Some (Suc ?q))"
    "dns_sent b2 = dns_sent b @ [query_bytes host]" "h_dns_req b2 = h_dns_req b" "same_cache b b2" "Suc ?q < b_next b2"
    "s_dns_event b2 = Some f" "length (s_hash b2) = 512"
    using new_real_req_ok [of ?b1 f host] f assms by (auto simp: resolver_wf_def dns_real_req_find_def same_cache_def)
  let ?y = "\<lparr>dq_is_canceled = False, dq_list = Some (Suc ?q), dq_cb = cb, dq_real_req = None,
    dq_tmr_right_callback = None, dq_right_result = None\<rparr>"
  let ?b' = "b2\<lparr>h_real_req := (h_real_req b2)(Suc ?q \<mapsto> x\<lparr>rq_list_reqs := [?q]\<rparr>), h_dns_req := (h_dns_req b2)(?q \<mapsto> ?y)\<rparr>"
  have "dns_resolve host cb b = Inr (?q, ?b')"
    using assms cache b2 by (simp add: dns_resolve_def Let_def dns_real_req_find_def upd_real_req_def)
  moreover have "dns_real_req_find host ?b' = Inr (Some (Suc ?q))"
    using find_real_req_relabel [of "(h_real_req b)(Suc ?q \<mapsto> x)" "Suc ?q" x "x\<lparr>rq_list_reqs := [?q]\<rparr>"] b2(3,8)
    by (simp add: dns_real_req_find_def)
  moreover have "resolver_wf ?b'"
    using b2 cache_frame(1) [of ?b' b] assms(1) by (simp add: resolver_wf_def same_cache_def)
  ultimately show ?thesis
    using b2 by (auto simp: in_progress_def watched_def)
qed

lemma resolve_shared:
  assumes "resolver_wf b" and "inet_aton host = None" and "cache_map b host = None" and "in_progress b r host qs"
  shows "\<exists>b'. dns_resolve host cb b = Inr (b_next b, b') \<and> in_progress b' r host (qs @ [b_next b])
    \<and> resolver_wf b' \<and> dns_sent b' = dns_sent b"
proof -
  let ?q = "b_next b"
  let ?b1 = "b\<lparr>b_next := Suc ?q\<rparr>"
  have cache: "dns_cache_find host ?b1 = Inr None"
    using assms(1,3) by (simp add: resolver_wf_def cache_miss)
  obtain x t where x: "h_real_req b r = Some x" "rq_list_reqs x = qs" "rq_host x = zbuf 256 host" "rq_timer x = Some t"
    "h_timer b t \<noteq> None" "dns_real_req_find host b = Inr (Some r)" using assms(4) by (auto simp: in_progress_def)
  let ?y = "\<lparr>dq_is_canceled = False, dq_list = Some r, dq_cb = cb, dq_real_req = None,
    dq_tmr_right_callback = None, dq_right_result = None\<rparr>"
  let ?b' = "?b1\<lparr>h_real_req := (h_real_req b)(r \<mapsto> x\<lparr>rq_list_reqs := qs @ [?q]\<rparr>), h_dns_req := (h_dns_req b)(?q \<mapsto> ?y)\<rparr>"
  have "dns_resolve host cb b = Inr (?q, ?b')"
    using assms(2) cache x by (simp add: dns_resolve_def Let_def dns_real_req_find_def upd_real_req_def)
  moreover have "dns_real_req_find host ?b' = Inr (Some r)"
    using find_real_req_relabel [of "h_real_req b" r x "x\<lparr>rq_list_reqs := qs @ [?q]\<rparr>"] x(1,6) by (simp add: dns_real_req_find_def)
  moreover have "h_dns_req b ?q = None" "base_wf ?b1"
    using assms(1,4) by (simp_all add: resolver_wf_def in_progress_def base_wf_next)
  moreover have "resolver_wf ?b'"
    using cache_frame(1) [of ?b' b] assms(1) x(1) by (auto simp: resolver_wf_def)
  ultimately show ?thesis
    using x assms(4) by (auto simp: in_progress_def)
qed

text \<open>
  Claim C14.  A host is asked for once: a request for a host that is neither an address nor cached joins the query in progress for it,
  behind the requests that wait already, and the query is sent exactly when none was in progress; the resolver keeps its invariant.
\<close>

theorem dns_resolve_one_query:
  assumes "resolver_wf b" and "inet_aton host = None" and "cache_map b host = None" and "no_nul host" and "length host < 256"
    and "dns_real_req_find host b = Inr found"
    and "case found of None \<Rightarrow> qs = [] \<and> r = Suc (b_next b) | Some s \<Rightarrow> r = s \<and> in_progress b r host qs"
  shows "\<exists>b'. dns_resolve host cb b = Inr (b_next b, b') \<and> in_progress b' r host (qs @ [b_next b])
    \<and> resolver_wf b' \<and> dns_sent b' = dns_sent b @ (if found = None then [query_bytes host] else [])"
proof (cases found)
  case None
  then show ?thesis using resolve_new [OF assms(1-3) _ assms(4,5), of cb] assms(6,7) by simp
next
  case (Some s)
  then show ?thesis using resolve_shared [OF assms(1-3), of s qs cb] assms(7) by auto
qed

section \<open>What does not work\<close>

text \<open>
  Claim C39.  A lost query is not repeated: when the timer of a query in progress fires, the only effect is that the query counts one more
  timeout.  The event loop leaves a timer that has fired marked pending, so the query is not sent again and the timer is not set
  again, and the fifth timeout, which would tell the requests of the failure, never comes.
\<close>

theorem dns_query_not_retried:
  assumes "h_info b p = Some i" and "ti_pending i" and "ti_type i = EP_TIMER_TIMER" and "ti_info i = t"
    and "h_timer b t = Some tm" and "et_pending tm" and "et_cb tm = User_Cb (Dns_Real_Tmr r)"
    and "h_real_req b r = Some x" and "rq_timer x = Some t" and "rq_count_timeout x < 4"
  shows "fire_info (dns_handlers U n d user) p i b =
    Inr (b\<lparr>h_info := (h_info b)(p \<mapsto> i\<lparr>ti_pending := False\<rparr>), b_list_timers := remove1 p (b_list_timers b),
           h_real_req := (h_real_req b)(r \<mapsto> x\<lparr>rq_count_timeout := rq_count_timeout x + 1\<rparr>)\<rparr>)"
proof -
  have eq: "x\<lparr>rq_count_timeout := c, rq_timer := Some t\<rparr> = x\<lparr>rq_count_timeout := c\<rparr>" for c
    using assms(9) by (cases x) simp
  show ?thesis
    using assms
    by (simp add: fire_info_def ep_timer_info_del_def put_info_def dns_handlers_def dns_real_req_timercb_def upd_real_req_def
        dns_real_req_start_def ep_timer_pending_def) (simp only: eq)
qed

lemma answer_at_once_req:
  assumes "answer_at_once q cb res b = Inr (q', b')"
  shows "\<exists>t. q' = q \<and> h_dns_req b' = (h_dns_req b)(q \<mapsto> \<lparr>dq_is_canceled = False, dq_list = None, dq_cb = cb, dq_real_req = None,
      dq_tmr_right_callback = Some t, dq_right_result = Some res\<rparr>) \<and> ntoa_buffer b' = ntoa_buffer b"
proof -
  let ?y = "\<lambda>t. \<lparr>dq_is_canceled = False, dq_list = None, dq_cb = cb, dq_real_req = None,
      dq_tmr_right_callback = Some t, dq_right_result = Some res\<rparr>"
  obtain t b1 where t: "ep_timer_new (User_Cb (Dns_Right_Tmr q)) b = (t, b1)"
    by (cases "ep_timer_new (User_Cb (Dns_Right_Tmr q)) b")
  then have "q' = q" and add: "ep_timer_add t 0 (b1\<lparr>h_dns_req := (h_dns_req b1)(q \<mapsto> ?y t)\<rparr>) = Inr b'"
    using assms by (auto simp: answer_at_once_def Let_def rbind_eq_Inr)
  have m: "ep_base.more b1 = ep_base.more b" using t by (auto simp: ep_timer_new_def)
  show ?thesis
    using \<open>q' = q\<close> dns_more [OF ep_timer_add_more [OF add]] dns_more [OF m] by (intro exI [of _ t]) simp
qed

text \<open>
  Claim C40.  A request that is answered at once cannot be cancelled: for a host that is an address, \<^verbatim>\<open>dns_resolve\<close> returns a
  request whose list node was never linked, and \<^verbatim>\<open>dns_cancel\<close> on it follows a null pointer.
\<close>

theorem dns_cancel_at_once_faults:
  assumes "inet_aton host = Some a" and "dns_resolve host cb b = Inr (q, b')"
  shows "dns_cancel q b' = Inl Bad_Pointer"
  using assms answer_at_once_req [of "b_next b" cb Ntoa_Buffer "b\<lparr>b_next := Suc (b_next b), ntoa_buffer := dotted a\<rparr>" q b']
  by (auto simp: dns_resolve_def Let_def dns_cancel_def upd_dns_req_def unlink_dns_req_def deref_def)

text \<open>
  The answer to a request for an address is read from the buffer of \<^verbatim>\<open>inet_ntoa\<close> when the timer fires: it is the address that was
  resolved last.
\<close>

lemma right_result_last:
  assumes "inet_aton host2 = Some a2" and "dns_resolve host2 cb2 b1 = Inr (q2, b2)" and "dq_right_result y = Some Ntoa_Buffer"
  shows "right_text y b2 = Inr (Some (dotted a2))"
  using assms answer_at_once_req [of "b_next b1" cb2 Ntoa_Buffer "b1\<lparr>b_next := Suc (b_next b1), ntoa_buffer := dotted a2\<rparr>" q2 b2]
  by (auto simp: dns_resolve_def Let_def right_text_def)

section \<open>A resolver that has been initialised\<close>

definition resolver_start :: "int \<Rightarrow> ('u, 'd, 'a) dns_base" where
  "resolver_start now = buf_base.extend (ep_base.extend (ep_base_create now) (buf_base.fields Map.empty (\<lambda>_. []) []))
     (dns_base.fields Map.empty Map.empty Map.empty [] [] 0 None (replicate 255 NUL) None [] [])"

lemma resolver_start_simps [simp]:
  "base_wf (resolver_start now)" "h_dns_req (resolver_start now) = Map.empty" "h_real_req (resolver_start now) = Map.empty"
  "h_cache (resolver_start now) = Map.empty" "s_ns_addr (resolver_start now) = replicate 255 NUL"
  "length (b_files (resolver_start now)) = 1024" "b_next (resolver_start now) = 1"
  by (simp_all add: resolver_start_def buf_base.extend_def dns_base.fields_def ep_base.extend_def ep_base_create_def
      buf_base.fields_def base_wf_def polls_ok_def timers_ok_def fresh_ok_def list_ok_def slot_ok_def)

lemma resolver_start_sent [simp]: "dns_sent (resolver_start now) = []" "ntoa_buffer (resolver_start now) = []"
  by (simp_all add: resolver_start_def buf_base.extend_def dns_base.fields_def ep_base.extend_def ep_base_create_def
      buf_base.fields_def)

text \<open>\<^verbatim>\<open>dns_init\<close> leaves a resolver in its invariant, with an empty cache and no query in progress.\<close>

lemma dns_init_ok:
  assumes "0 \<le> sock" and "sock < 1024"
  shows "\<exists>b. dns_init sock ns (resolver_start now :: ('u, 'd, 'a) dns_base) = Inr b \<and> resolver_wf b \<and> cache_map b = Map.empty
    \<and> (\<forall>host. dns_real_req_find host b = Inr None) \<and> dns_sent b = []"
proof -
  let ?b = "resolver_start now :: ('u, 'd, 'a) dns_base"
  obtain f b1 where b1: "ep_file_create sock (User_Cb Dns_Event) ?b = Inr (f, b1)" "base_wf b1" "f = b_next ?b"
    "file_at b1 f sock" "ep_base.more b1 = ep_base.more ?b"
    using ep_file_create_ok [of ?b sock "User_Cb Dns_Event"] assms by auto
  have f: "fi_file (b_files b1 ! nat sock) = Some f" "b_next b1 = 2" "s_ns_addr b1 = replicate 255 NUL"
    using b1(1) assms by (auto simp: ep_file_create_def put_defs Let_def fd_slot_def)
  then have w: "watched b1 f" using b1(2,4) by (auto simp: watched_def file_at_def)
  define b2 where "b2 = b1\<lparr>s_dns_fd := sock, s_dns_event := Some f, s_ns_addr := zbuf 255 (take 255 ns),
    s_server_addr := inet_aton ns, s_hash := replicate 512 [], s_cache_hash := replicate 4096 []\<rparr>"
  have "dns_init sock ns ?b = Inr b2"
    using b1(1) f(3) strncpy_zeros [of 255 255 ns] by (simp add: dns_init_def b2_def)
  moreover have "resolver_wf b2"
    using w f(2) dns_more [OF b1(5)] by (simp add: resolver_wf_def cache_wf_def b2_def watched_def file_at_def)
  moreover have "cache_map b2 = Map.empty" "\<forall>host. dns_real_req_find host b2 = Inr None"
    by (simp_all add: b2_def cache_map_def cache_bucket_def dns_real_req_find_def fun_eq_iff)
  moreover have "dns_sent b2 = []"
    using dns_more [OF b1(5)] by (simp add: b2_def)
  ultimately show ?thesis by blast
qed

section \<open>Instances\<close>

definition proxy_resolver :: "(unit, unit, nat) dns_base res" where
  "proxy_resolver = dns_init 5 ''114.114.114.114'' (resolver_start 0)"

lemma proxy_resolver_ok:
  "\<exists>b. proxy_resolver = Inr b \<and> resolver_wf b \<and> cache_map b = Map.empty
    \<and> (\<forall>host. dns_real_req_find host b = Inr None) \<and> dns_sent b = []"
  unfolding proxy_resolver_def by (rule dns_init_ok) simp_all

lemma aton_name: "inet_aton ''a.com'' = None"
  by (simp add: inet_aton_def digit_value_def uchar_def)


theorem dns_resolve_one_query_witness:
  "\<exists>b b' q. proxy_resolver = Inr b \<and> dns_resolve ''a.com'' 7 b = Inr (q, b') \<and> dns_sent b' = [query_bytes ''a.com'']"
proof -
  obtain b where b: "proxy_resolver = Inr b" "resolver_wf b" "cache_map b = Map.empty"
    "dns_real_req_find ''a.com'' b = Inr None" "dns_sent b = []" using proxy_resolver_ok by blast
  then show ?thesis
    using dns_resolve_one_query [of b "''a.com''" None "[]" "Suc (b_next b)" 7] by (auto simp: aton_name)
qed

theorem dns_answer_completes_witness:
  "\<exists>b b1 q b2. proxy_resolver = Inr b \<and> dns_resolve ''a.com'' 7 b = Inr (q, b1)
     \<and> dns_recv_cb (own_state (\<lambda>a ret ips k cname. id)) 1
          (Some (answer_message ''abc'' 0 ''0000'' [''a'', ''com''] [Address ''1234'' ''ABCD''] [])) EP_READ b1 = Inr b2
     \<and> h_dns_req b2 q = None \<and> cache_map b2 ''a.com'' \<noteq> None"
proof -
  obtain b where b: "proxy_resolver = Inr b" "resolver_wf b" "cache_map b = Map.empty"
    "dns_real_req_find ''a.com'' b = Inr None" using proxy_resolver_ok by blast
  then obtain b1 where b1: "dns_resolve ''a.com'' 7 b = Inr (b_next b, b1)" "in_progress b1 (Suc (b_next b)) ''a.com'' [b_next b]"
    "resolver_wf b1" using resolve_new [of b "''a.com''" 7] by (auto simp: aton_name)
  let ?ans = "[Address ''1234'' ''ABCD'']"
  have "length (answer_message ''abc'' 0 ''0000'' [''a'', ''com''] ?ans []) \<le> 512"
    by (simp add: answer_message_def encode_name_def encode_label_def qname_pointer_def)
  then show ?thesis
    using dns_answer_completes [of b1 "Suc (b_next b)" "[''a'', ''com'']" "[b_next b]" 0 ?ans "''ABCD''" "[]" "''abc''" "''0000''" "[]"
        "\<lambda>a ret ips k cname. id"] b(1) b1
    by (auto simp: resolver_wf_def wire_name_def wire_label_def map_add_def split: option.split)
qed

definition waiting_query :: dns_real_req where
  "waiting_query = \<lparr>rq_list_reqs = [2], rq_host = zbuf 256 ''a.com'', rq_timer = Some 4, rq_count_timeout = 0\<rparr>"

definition due_info :: ep_timer_info where
  "due_info = \<lparr>ti_type = EP_TIMER_TIMER, ti_info = 4, ti_timeout_ms = 1000, ti_pending = True\<rparr>"

definition due_query :: "(unit, unit, nat) dns_base" where
  "due_query = (resolver_start 1000)\<lparr>h_info := [5 \<mapsto> due_info], b_list_timers := [5],
     h_timer := [4 \<mapsto> \<lparr>et_info = Some 5, et_cb = User_Cb (Dns_Real_Tmr 3), et_pending = True\<rparr>], h_real_req := [3 \<mapsto> waiting_query]\<rparr>"

theorem dns_query_not_retried_witness:
  "\<exists>b'. fire_info (dns_handlers (own_state (\<lambda>a ret ips k cname. id)) 1 None
         \<lparr>on_file = \<lambda>c f fd what b. Inr b, on_timer = \<lambda>c t b. Inr b\<rparr>) 5 due_info due_query = Inr b'
     \<and> dns_sent b' = [] \<and> b_list_timers b' = []"
  using dns_query_not_retried [of due_query 5 due_info 4 "\<lparr>et_info = Some 5, et_cb = User_Cb (Dns_Real_Tmr 3), et_pending = True\<rparr>" 3
      waiting_query "own_state (\<lambda>a ret ips k cname. id)" 1 None "\<lparr>on_file = \<lambda>c f fd what b. Inr b, on_timer = \<lambda>c t b. Inr b\<rparr>"]
  by (simp add: due_query_def due_info_def waiting_query_def)

lemma answer_at_once_ok: "base_wf b \<Longrightarrow> \<exists>b'. answer_at_once q cb res b = Inr (q, b')"
proof -
  assume wf: "base_wf b"
  obtain t b1 where t: "ep_timer_new (User_Cb (Dns_Right_Tmr q)) b = (t, b1)"
    by (cases "ep_timer_new (User_Cb (Dns_Right_Tmr q)) b")
  then obtain tm where tm: "h_timer b1 t = Some tm" by (auto simp: ep_timer_new_def)
  have "\<exists>b'. ep_timer_add t 0 (b1\<lparr>h_dns_req := z\<rparr>) = Inr b'" for z
    using ep_timer_add_ok [of "b1\<lparr>h_dns_req := z\<rparr>" t tm 0] ep_timer_new_wf [OF wf t] tm by auto
  then show ?thesis using t by (simp add: answer_at_once_def Let_def) (metis rbind_Inr)
qed

theorem dns_cancel_at_once_faults_witness:
  "\<exists>b b' q. proxy_resolver = Inr b \<and> dns_resolve ''127.0.0.1'' 7 b = Inr (q, b') \<and> dns_cancel q b' = Inl Bad_Pointer"
proof -
  obtain b where b: "proxy_resolver = Inr b" "resolver_wf b" using proxy_resolver_ok by blast
  have a: "inet_aton ''127.0.0.1'' = Some [CHR 0x7F, NUL, NUL, CHR 0x01]" by code_simp
  have "base_wf b" using b(2) by (auto simp: resolver_wf_def watched_def)
  then obtain b' where "answer_at_once (b_next b) 7 Ntoa_Buffer
      (b\<lparr>b_next := Suc (b_next b), ntoa_buffer := dotted [CHR 0x7F, NUL, NUL, CHR 0x01]\<rparr>) = Inr (b_next b, b')"
    using answer_at_once_ok [of "b\<lparr>b_next := Suc (b_next b), ntoa_buffer := dotted [CHR 0x7F, NUL, NUL, CHR 0x01]\<rparr>"
        "b_next b" 7 Ntoa_Buffer] by (auto simp: base_wf_next)
  then have "dns_resolve ''127.0.0.1'' 7 b = Inr (b_next b, b')"
    using a by (simp add: dns_resolve_def Let_def)
  with b(1) dns_cancel_at_once_faults [OF a this] show ?thesis by blast
qed

end
