(* ===== verification/Relay.thy ===== *)
theory Relay
  imports Prelude
begin

text \<open>
  The interface of the relays, \<^verbatim>\<open>relay.h\<close>: the events a relay reports to its owner and the states it can be
  asked for; and the number of buckets of idle relays in \<^verbatim>\<open>relay_http.c\<close>.
\<close>

definition RELAY_CONNECTED :: int where [simp]: "RELAY_CONNECTED = 0"
definition RELAY_HEADER_COMPLETE :: int where [simp]: "RELAY_HEADER_COMPLETE = 1"
definition RELAY_BODY :: int where [simp]: "RELAY_BODY = 2"
definition RELAY_MSG_COMPLETE :: int where [simp]: "RELAY_MSG_COMPLETE = 3"
definition RELAY_ERR_DNS_FAILED :: int where [simp]: "RELAY_ERR_DNS_FAILED = 4"
definition RELAY_ERR_CONN_FAILED :: int where [simp]: "RELAY_ERR_CONN_FAILED = 5"

definition RELAY_ERR_RESPONSE_PARSE_FAILED :: int where [simp]: "RELAY_ERR_RESPONSE_PARSE_FAILED = 6"
definition RELAY_ERR_CONN_TERMINATE :: int where [simp]: "RELAY_ERR_CONN_TERMINATE = 7"

definition IDLE_RELAY_BUCKET_COUNT :: nat where [simp]: "IDLE_RELAY_BUCKET_COUNT = 512"

definition RELAY_STATUS_CONNECTING :: int where [simp]: "RELAY_STATUS_CONNECTING = 0"
definition RELAY_STATUS_CONNECTED :: int where [simp]: "RELAY_STATUS_CONNECTED = 1"
definition RELAY_STATUS_REQUEST_SENT :: int where [simp]: "RELAY_STATUS_REQUEST_SENT = 2"
definition RELAY_STATUS_HEADER_COMPLETE :: int where [simp]: "RELAY_STATUS_HEADER_COMPLETE = 3"
definition RELAY_STATUS_MSG_COMPLETE :: int where [simp]: "RELAY_STATUS_MSG_COMPLETE = 4"

end
