(* ===== verification/Relay_Http.thy ===== *)
theory Relay_Http
  imports Dns Relay Http_Parser_Run
begin

text \<open>
  The HTTP/1.1 relay of \<^verbatim>\<open>relay_http.c\<close>: a connection per request, found among the idle ones or made after resolving the host,
  and a response parser on it.  The state extends that of the resolver by the relays, the headers they own, the idle relays by
  hash of their host, and by what coming calls of \<^verbatim>\<open>send\<close> and \<^verbatim>\<open>socket\<close> answer; when the first is used up the kernel takes
  everything, when the second is, \<^verbatim>\<open>socket\<close> fails.  The callback of a relay's owner is a parameter.  The functions are static in the
  source and named as those of \<^verbatim>\<open>relay_http2.c\<close>; here they have the prefix \<^verbatim>\<open>http_\<close>.
\<close>

section \<open>The state\<close>

definition HOST_LENGTH :: nat where [simp]: "HOST_LENGTH = 255"

datatype 'v hr_callback = Hr_Conn_Tmr nat | Hr_Response_Tmr nat | Hr_User 'v

record http_relay =
  rl_host :: "char list"
  rl_port :: int
  rl_parser :: "unit http_parser"
  rl_conn_proto :: bool
  rl_conn :: "nat option"
  rl_dns_req :: "nat option"
  rl_response_header :: "nat option"
  rl_request_header :: "nat option"
  rl_tmr_connected :: "nat option"
  rl_is_chunk_post :: bool
  rl_connected :: bool
  rl_in_body_callback :: bool
  rl_args :: "nat option"
  rl_ptr_body :: "char list option"
  rl_cur_body_len :: int
  rl_is_idle :: bool
  rl_should_free :: bool
  rl_relay_status :: int

record 'v hr_base = "('v hr_callback, nat, nat) dns_base" +
  h_http_relay :: "nat \<rightharpoonup> http_relay"
  h_msg :: "nat \<rightharpoonup> header"
  s_idle_relays :: "nat list list"
  hr_io :: "io_result list"
  hr_socks :: "int list"

type_synonym ('v, 'z) hrs = "('v, 'z) hr_base_scheme"
type_synonym ('v, 'z) hr_owner = "nat \<Rightarrow> int \<Rightarrow> nat option \<Rightarrow> ('v, 'z) hrs \<Rightarrow> ('v, 'z) hrs res"

definition upd_http_relay :: "nat \<Rightarrow> (http_relay \<Rightarrow> http_relay) \<Rightarrow> ('v, 'z) hrs \<Rightarrow> ('v, 'z) hrs res" where
  "upd_http_relay p g b = rbind (look (h_http_relay b) p) (\<lambda>x. Inr (b\<lparr>h_http_relay := (h_http_relay b)(p \<mapsto> g x)\<rparr>))"

text \<open>\<^verbatim>\<open>relay->cb(relay, what, relay->args)\<close>.\<close>

definition tell_owner :: "('v, 'z) hr_owner \<Rightarrow> nat \<Rightarrow> int \<Rightarrow> ('v, 'z) hrs \<Rightarrow> ('v, 'z) hrs res" where
  "tell_owner ucb p what b = rbind (look (h_http_relay b) p) (\<lambda>x. ucb p what (rl_args x) b)"

text \<open>\<^verbatim>\<open>relay->conn_proto->f(relay->conn, ...)\<close>: the table of functions is null until the host is resolved.\<close>

definition with_conn :: "nat \<Rightarrow> (nat \<Rightarrow> ('v, 'z) hrs \<Rightarrow> 'r res) \<Rightarrow> ('v, 'z) hrs \<Rightarrow> 'r res" where
  "with_conn p f b =
     rbind (look (h_http_relay b) p) (\<lambda>x.
     if rl_conn_proto x then rbind (deref (rl_conn x)) (\<lambda>c. f c b) else Inl Bad_Pointer)"

text \<open>\<^verbatim>\<open>write\<close> of the connection: \<^verbatim>\<open>send\<close> fails or takes a part of the data.\<close>

definition conn_write :: "char list \<Rightarrow> nat \<Rightarrow> ('v, 'z) hrs \<Rightarrow> ('v, 'z) hrs res" where
  "conn_write data c b =
     (let r = (case hr_io b of [] \<Rightarrow> \<lparr>io_ret = int (length data), io_errno = 0\<rparr> | r # _ \<Rightarrow> r);
          n = (if io_ret r < 0 then - 1 else min (io_ret r) (int (length data)))
      in ep_buf_write (r\<lparr>io_ret := n\<rparr>) c data (b\<lparr>hr_io := tl (hr_io b)\<rparr>))"

definition free_msg :: "nat option \<Rightarrow> ('v, 'z) hrs \<Rightarrow> ('v, 'z) hrs res" where
  "free_msg h b = (case h of None \<Rightarrow> Inr b
     | Some q \<Rightarrow> rbind (look (h_msg b) q) (\<lambda>_. Inr (b\<lparr>h_msg := (h_msg b)(q := None)\<rparr>)))"

section \<open>Idle relays\<close>

text \<open>\<^verbatim>\<open>res + host[i]\<close> adds a signed \<^verbatim>\<open>char\<close> to a \<^verbatim>\<open>uint32_t\<close>.\<close>

definition relay_count_hash :: "string \<Rightarrow> nat" where
  "relay_count_hash host = nat (foldl (\<lambda>res c. (res + schar c) mod 2 ^ 32) 0 host mod int IDLE_RELAY_BUCKET_COUNT)"

definition http_relay_init :: "('v, 'z) hrs \<Rightarrow> ('v, 'z) hrs" where
  "http_relay_init b = b\<lparr>s_idle_relays := replicate IDLE_RELAY_BUCKET_COUNT []\<rparr>"

definition relay_sys_reuse_relay :: "nat \<Rightarrow> ('v, 'z) hrs \<Rightarrow> ('v, 'z) hrs res" where
  "relay_sys_reuse_relay p b =
     rbind (look (h_http_relay b) p) (\<lambda>x.
     rbind (cstr_at (rl_host x)) (\<lambda>host.
     let hash = relay_count_hash host
     in rbind (cassert (\<not> rl_should_free x)) (\<lambda>_.
        rbind (cassert (\<not> rl_is_idle x)) (\<lambda>_.
        rbind (cassert (rl_dns_req x = None)) (\<lambda>_.
        rbind (cassert (rl_conn x \<noteq> None)) (\<lambda>_.
        rbind (free_msg (rl_response_header x) b) (\<lambda>b1.
        rbind (upd_http_relay p (\<lambda>x. x\<lparr>rl_relay_status := RELAY_STATUS_CONNECTED, rl_args := None, rl_is_idle := True,
                 rl_response_header := None\<rparr>) b1) (\<lambda>b2.
        Inr (b2\<lparr>s_idle_relays := (s_idle_relays b2)[hash := (s_idle_relays b2 ! hash) @ [p]]\<rparr>)))))))))"

fun find_alive :: "(nat \<rightharpoonup> http_relay) \<Rightarrow> string \<Rightarrow> int \<Rightarrow> nat list \<Rightarrow> nat option res" where
  "find_alive h host prt [] = Inr None"
| "find_alive h host prt (p # ps) =
     rbind (look h p) (\<lambda>x.
     rbind (cstr_at (rl_host x)) (\<lambda>s.
     if strcaseeq s host \<and> rl_port x = prt then Inr (Some p) else find_alive h host prt ps))"

definition relay_sys_find_alive_relay :: "string \<Rightarrow> int \<Rightarrow> ('v, 'z) hrs \<Rightarrow> (nat option \<times> ('v, 'z) hrs) res" where
  "relay_sys_find_alive_relay host prt b =
     (let hash = relay_count_hash host
      in rbind (find_alive (h_http_relay b) host prt (s_idle_relays b ! hash)) (\<lambda>found.
         case found of
           None \<Rightarrow> Inr (None, b)
         | Some p \<Rightarrow> rbind (upd_http_relay p (\<lambda>x. x\<lparr>rl_is_idle := False\<rparr>) b) (\<lambda>b1.
             Inr (Some p, b1\<lparr>s_idle_relays := (s_idle_relays b1)[hash := remove1 p (s_idle_relays b1 ! hash)]\<rparr>))))"

definition http_relay_free :: "nat \<Rightarrow> ('v, 'z) hrs \<Rightarrow> ('v, 'z) hrs res" where
  "http_relay_free p b =
     rbind (look (h_http_relay b) p) (\<lambda>x.
     rbind (free_msg (rl_response_header x) b) (\<lambda>b1.
     let b2 = (if rl_is_idle x then b1\<lparr>s_idle_relays := map (remove1 p) (s_idle_relays b1)\<rparr> else b1)
     in rbind (if rl_conn x \<noteq> None then with_conn p ep_buf_free b2 else Inr b2) (\<lambda>b3.
        rbind (case rl_dns_req x of None \<Rightarrow> Inr b3 | Some q \<Rightarrow> dns_cancel q b3) (\<lambda>b4.
        rbind (case rl_tmr_connected x of None \<Rightarrow> Inr b4 | Some t \<Rightarrow> drop_timer t b4) (\<lambda>b5.
        Inr (b5\<lparr>h_http_relay := (h_http_relay b5)(p := None)\<rparr>))))))"

section \<open>The callbacks of the response parser\<close>

definition upd_response :: "nat \<Rightarrow> (header \<Rightarrow> header res) \<Rightarrow> ('v, 'z) hrs \<Rightarrow> ('v, 'z) hrs res" where
  "upd_response p g b =
     rbind (look (h_http_relay b) p) (\<lambda>x.
     rbind (deref (rl_response_header x)) (\<lambda>q.
     rbind (look (h_msg b) q) (\<lambda>h.
     rbind (g h) (\<lambda>h'. Inr (b\<lparr>h_msg := (h_msg b)(q \<mapsto> h')\<rparr>)))))"

definition begin_response :: "nat \<Rightarrow> ('v, 'z) hrs \<Rightarrow> ('v, 'z) hrs res" where
  "begin_response p b =
     (let q = b_next b
      in upd_http_relay p (\<lambda>x. x\<lparr>rl_response_header := Some q\<rparr>)
           (b\<lparr>b_next := Suc q, h_msg := (h_msg b)(q \<mapsto> header_new)\<rparr>))"

definition http_relay_message_begincb :: "(('v, 'z) hrs \<times> nat) http_cb" where
  "http_relay_message_begincb ps = (let (b, p) = hp_data ps in cb_notify b p (begin_response p b))"

definition http_relay_status_completecb :: "(('v, 'z) hrs \<times> nat) http_cb" where
  "http_relay_status_completecb ps =
     (let (b, p) = hp_data ps in cb_notify b p (upd_response p (\<lambda>h. Inr (header_set_status_code h (uint (hp_status_code ps)))) b))"

definition http_relay_url_complete :: "(('v, 'z) hrs \<times> nat) http_data_cb" where
  "http_relay_url_complete ps d = (let (b, p) = hp_data ps in cb_notify b p (upd_response p (\<lambda>h. Inr (header_set_url h d)) b))"

definition http_relay_header_fieldcb :: "(('v, 'z) hrs \<times> nat) http_data_cb" where
  "http_relay_header_fieldcb ps d = (let (b, p) = hp_data ps in cb_notify b p (upd_response p (\<lambda>h. header_append_field h d) b))"

definition http_relay_header_valuecb :: "(('v, 'z) hrs \<times> nat) http_data_cb" where
  "http_relay_header_valuecb ps d = (let (b, p) = hp_data ps in cb_notify b p (upd_response p (\<lambda>h. header_append_value h d) b))"

definition http_relay_has_length_info :: "nat \<Rightarrow> ('v, 'z) hrs \<Rightarrow> bool res" where
  "http_relay_has_length_info p b =
     rbind (look (h_http_relay b) p) (\<lambda>x.
     rbind (deref (rl_response_header x)) (\<lambda>q.
     rbind (look (h_msg b) q) (\<lambda>h. Inr (header_value h ''content-length'' \<noteq> None))))"

text \<open>The status is set to the value of an event, which is that of \<^verbatim>\<open>RELAY_STATUS_CONNECTED\<close>.\<close>

definition response_headers :: "('v, 'z) hr_owner \<Rightarrow> nat \<Rightarrow> ('v, 'z) hrs \<Rightarrow> ('v, 'z) hrs res" where
  "response_headers ucb p b =
     rbind (upd_response p header_append_complete b) (\<lambda>b1.
     rbind (http_relay_has_length_info p b1) (\<lambda>_.
     rbind (upd_http_relay p (\<lambda>x. x\<lparr>rl_relay_status := RELAY_HEADER_COMPLETE\<rparr>) b1) (tell_owner ucb p RELAY_HEADER_COMPLETE)))"

definition http_relay_headers_completecb :: "('v, 'z) hr_owner \<Rightarrow> (('v, 'z) hrs \<times> nat) http_cb" where
  "http_relay_headers_completecb ucb ps = (let (b, p) = hp_data ps in cb_notify b p (response_headers ucb p b))"

definition response_body :: "('v, 'z) hr_owner \<Rightarrow> nat \<Rightarrow> char list \<Rightarrow> ('v, 'z) hrs \<Rightarrow> ('v, 'z) hrs res" where
  "response_body ucb p d b =
     rbind (upd_http_relay p (\<lambda>x. x\<lparr>rl_in_body_callback := True, rl_ptr_body := Some d, rl_cur_body_len := int (length d)\<rparr>) b) (\<lambda>b1.
     rbind (tell_owner ucb p RELAY_BODY b1) (\<lambda>b2.
     upd_http_relay p (\<lambda>x. x\<lparr>rl_in_body_callback := False, rl_ptr_body := None, rl_cur_body_len := - 1\<rparr>) b2))"

definition http_relay_bodycb :: "('v, 'z) hr_owner \<Rightarrow> (('v, 'z) hrs \<times> nat) http_data_cb" where
  "http_relay_bodycb ucb ps d = (let (b, p) = hp_data ps in cb_notify b p (response_body ucb p d b))"

definition response_complete :: "('v, 'z) hr_owner \<Rightarrow> nat \<Rightarrow> ('v, 'z) hrs \<Rightarrow> ('v, 'z) hrs res" where
  "response_complete ucb p b =
     rbind (upd_http_relay p (\<lambda>x. x\<lparr>rl_relay_status := RELAY_STATUS_CONNECTED\<rparr>) b) (\<lambda>b1.
     rbind (tell_owner ucb p RELAY_MSG_COMPLETE b1) (relay_sys_reuse_relay p))"

definition http_relay_message_completecb :: "('v, 'z) hr_owner \<Rightarrow> (('v, 'z) hrs \<times> nat) http_cb" where
  "http_relay_message_completecb ucb ps = (let (b, p) = hp_data ps in cb_notify b p (response_complete ucb p b))"

definition response_hooks :: "('v, 'z) hr_owner \<Rightarrow> (('v, 'z) hrs \<times> nat) http_parser_settings" where
  "response_hooks ucb =
     \<lparr>on_message_begin = Some http_relay_message_begincb, on_url = Some http_relay_url_complete,
      on_status_complete = Some http_relay_status_completecb, on_header_field = Some http_relay_header_fieldcb,
      on_header_value = Some http_relay_header_valuecb, on_headers_complete = Some (http_relay_headers_completecb ucb),
      on_body = Some (http_relay_bodycb ucb), on_message_complete = Some (http_relay_message_completecb ucb)\<rparr>"

text \<open>\<^verbatim>\<open>http_parser_execute_(&relay->parser, &htp_hooks, data, len)\<close>.\<close>

definition parse_response :: "('v, 'z) hr_owner \<Rightarrow> nat \<Rightarrow> char list \<Rightarrow> ('v, 'z) hrs \<Rightarrow> ('v, 'z) hrs res" where
  "parse_response ucb p data b =
     rbind (look (h_http_relay b) p) (\<lambda>x.
     rbind (run_parser (response_hooks ucb) data (rl_parser x) (b, p)) (\<lambda>(d, ps, nparsed).
     upd_http_relay p (\<lambda>x. x\<lparr>rl_parser := ps\<rparr>) (fst d)))"

section \<open>Connecting\<close>

definition take_sock :: "('v, 'z) hrs \<Rightarrow> int \<times> ('v, 'z) hrs" where
  "take_sock b = (case hr_socks b of [] \<Rightarrow> (- 1, b) | s # r \<Rightarrow> (s, b\<lparr>hr_socks := r\<rparr>))"

text \<open>The result of \<^verbatim>\<open>connect\<close> is not looked at; its address is parsed from the first text, which must not be null.\<close>

definition relay_dns_resolved :: "('v, 'z) hr_owner \<Rightarrow> ('v hr_callback, nat, nat, 'z hr_base_ext) dnscb" where
  "relay_dns_resolved ucb p code ips num cname b =
     rbind (upd_http_relay p (\<lambda>x. x\<lparr>rl_dns_req := None\<rparr>) b) (\<lambda>b1.
     if code \<noteq> 0
     then rbind (tell_owner ucb p RELAY_ERR_DNS_FAILED b1) (http_relay_free p)
     else let (sock, b2) = take_sock b1
          in rbind (ep_buf_create sock (- 1) p b2) (\<lambda>(c, b3).
             rbind (upd_http_relay p (\<lambda>x. x\<lparr>rl_conn_proto := True, rl_conn := Some c\<rparr>) b3) (\<lambda>b4.
             rbind (case ips of [] \<Rightarrow> Inl Bad_Pointer | ip # _ \<Rightarrow> deref ip) (\<lambda>ip.
             with_conn p (\<lambda>c. ep_buf_enable c EP_BUF_WRITE) b4))))"

definition relay_handle_conn_err :: "('v, 'z) hr_owner \<Rightarrow> nat \<Rightarrow> ('v, 'z) hrs \<Rightarrow> ('v, 'z) hrs res" where
  "relay_handle_conn_err ucb p b =
     rbind (with_conn p ep_buf_free b) (\<lambda>b1.
     rbind (upd_http_relay p (\<lambda>x. x\<lparr>rl_conn := None\<rparr>) b1) (\<lambda>b2.
     rbind (look (h_http_relay b2) p) (\<lambda>x.
     rbind (if rl_is_idle x then Inr b2
            else rbind (if rl_response_header x = None then Inr True else http_relay_has_length_info p b2) (\<lambda>has.
                 if rl_response_header x \<noteq> None \<and> \<not> has then tell_owner ucb p RELAY_MSG_COMPLETE b2
                 else if rl_relay_status x < RELAY_STATUS_CONNECTED then tell_owner ucb p RELAY_ERR_CONN_FAILED b2
                 else tell_owner ucb p RELAY_ERR_CONN_TERMINATE b2)) (\<lambda>b3.
     http_relay_free p b3))))"

definition relay_conn_tmrcb :: "('v, 'z) hr_owner \<Rightarrow> nat \<Rightarrow> ('v, 'z) hrs \<Rightarrow> ('v, 'z) hrs res" where
  "relay_conn_tmrcb ucb p b =
     rbind (look (h_http_relay b) p) (\<lambda>x.
     rbind (case rl_tmr_connected x of None \<Rightarrow> Inr b | Some t \<Rightarrow> ep_timer_free t b) (\<lambda>b1.
     rbind (upd_http_relay p (\<lambda>x. x\<lparr>rl_tmr_connected := None\<rparr>) b1) (tell_owner ucb p RELAY_CONNECTED)))"

text \<open>The bytes \<^verbatim>\<open>read\<close> delivered, as the first \<^verbatim>\<open>len\<close> of the buffer.\<close>

definition relay_readcb :: "('v, 'z) hr_owner \<Rightarrow> nat \<Rightarrow> ('v, 'z) hrs \<Rightarrow> ('v, 'z) hrs res" where
  "relay_readcb ucb p b =
     rbind (with_conn p ep_buf_read b) (\<lambda>(read_buf, len).
     rbind (look (h_http_relay b) p) (\<lambda>x.
     if len \<le> 0 \<or> rl_is_idle x then relay_handle_conn_err ucb p b
     else rbind (deref read_buf) (\<lambda>buf.
          rbind (mem_read buf 0 len) (\<lambda>data.
          rbind (parse_response ucb p data b) (\<lambda>b1.
          rbind (look (h_http_relay b1) p) (\<lambda>x.
          if hp_errno (rl_parser x) \<noteq> HPE_OK \<and> \<not> rl_is_idle x
          then rbind (tell_owner ucb p RELAY_ERR_RESPONSE_PARSE_FAILED b1) (http_relay_free p)
          else if rl_should_free x then http_relay_free p b1
          else Inr b1))))))"

definition relay_conncb :: "('v, 'z) hr_owner \<Rightarrow> ('v hr_callback dns_callback, nat, (nat, 'z hr_base_ext) dns_base_ext) buf_user" where
  "relay_conncb ucb p c what b =
     rbind (look (h_http_relay b) p) (\<lambda>x.
     if \<not> rl_connected x \<and> what = EP_BUF_WRITE
     then rbind (upd_http_relay p (\<lambda>x. x\<lparr>rl_connected := True\<rparr>) b) (\<lambda>b1.
          rbind (tell_owner ucb p RELAY_CONNECTED b1) (\<lambda>b2.
          with_conn p (\<lambda>c. ep_buf_enable c EP_BUF_READ) b2))
     else if what = EP_BUF_WRITE then Inr b
     else if what = EP_BUF_READ then relay_readcb ucb p b
     else if and what EP_BUF_ERROR \<noteq> 0 then relay_handle_conn_err ucb p b
     else Inr b)"

section \<open>The interface of the relay\<close>

definition new_http_relay :: http_relay where
  "new_http_relay =
     \<lparr>rl_host = replicate HOST_LENGTH NUL, rl_port = 0, rl_parser = http_parser_init HTTP_RESPONSE (), rl_conn_proto = False,
      rl_conn = None, rl_dns_req = None, rl_response_header = None, rl_request_header = None, rl_tmr_connected = None,
      rl_is_chunk_post = False, rl_connected = False, rl_in_body_callback = False, rl_args = None, rl_ptr_body = None,
      rl_cur_body_len = 0, rl_is_idle = False, rl_should_free = False, rl_relay_status = RELAY_STATUS_CONNECTING\<rparr>"

text \<open>The branch for a host without an idle relay, and the one that tells the owner of a reused relay from a timer.\<close>

definition fresh_http_relay :: "string \<Rightarrow> int \<Rightarrow> ('v, 'z) hrs \<Rightarrow> (nat \<times> ('v, 'z) hrs) res" where
  "fresh_http_relay host prt b =
     (let p = b_next b
      in rbind (strncpy (rl_host new_http_relay) host HOST_LENGTH) (\<lambda>host'.
         rbind (dns_resolve host p (b\<lparr>b_next := Suc p\<rparr>)) (\<lambda>(q, b1).
         Inr (p, b1\<lparr>h_http_relay := (h_http_relay b1)(p \<mapsto>
           new_http_relay\<lparr>rl_host := host', rl_port := prt, rl_dns_req := Some q\<rparr>)\<rparr>))))"

definition resume_http_relay :: "nat \<Rightarrow> ('v, 'z) hrs \<Rightarrow> ('v, 'z) hrs res" where
  "resume_http_relay p b =
     rbind (with_conn p (\<lambda>c. ep_buf_enable c EP_BUF_READ) b) (\<lambda>b1.
     let (t, b2) = ep_timer_new (User_Cb (Dns_User (Hr_Conn_Tmr p))) b1
     in rbind (upd_http_relay p (\<lambda>x. x\<lparr>rl_tmr_connected := Some t\<rparr>) b2) (ep_timer_add t 0))"

definition http_relay_create :: "string \<Rightarrow> int \<Rightarrow> nat option \<Rightarrow> ('v, 'z) hrs \<Rightarrow> (nat \<times> ('v, 'z) hrs) res" where
  "http_relay_create host prt args b =
     rbind (relay_sys_find_alive_relay host prt b) (\<lambda>(found, b1).
     rbind (case found of Some p \<Rightarrow> Inr (p, b1) | None \<Rightarrow> fresh_http_relay host prt b1) (\<lambda>(p, b2).
     rbind (upd_http_relay p (\<lambda>x. x\<lparr>rl_args := args, rl_parser := http_parser_init HTTP_RESPONSE ()\<rparr>) b2) (\<lambda>b3.
     rbind (look (h_http_relay b3) p) (\<lambda>x.
     rbind (if rl_relay_status x = RELAY_STATUS_CONNECTED then resume_http_relay p b3 else Inr b3) (\<lambda>b4.
     Inr (p, b4))))))"

definition succ_response :: string where
  "succ_response = ''HTTP/1.1 200 Connection Established'' @ CRLF @ CRLF"

definition on_responsecb :: "('v, 'z) hr_owner \<Rightarrow> nat \<Rightarrow> nat \<Rightarrow> ('v, 'z) hrs \<Rightarrow> ('v, 'z) hrs res" where
  "on_responsecb ucb timer p b = rbind (parse_response ucb p succ_response b) (ep_timer_free timer)"

text \<open>
  The text of the request line's target.  The copy of the fragment stands behind an \<^verbatim>\<open>if\<close> without braces and is always made; it is
  empty when there is no fragment, because \<^verbatim>\<open>ups\<close> is cleared.
\<close>

definition request_target :: "string \<Rightarrow> http_parser_url \<Rightarrow> char list res" where
  "request_target hurl ups =
     (let url = replicate 1024 NUL;
          field = (\<lambda>f. mem_read (hurl @ [NUL]) (int (unat (uf_get (fd_off ups) f))) (int (unat (uf_get (fd_len ups) f))));
          add = (\<lambda>f url. rbind (field f) (\<lambda>bs. rbind (c_strlen url) (\<lambda>l. memcpy_at url l bs)))
      in if UF_PATH \<in> field_set ups then strncpy url (drop (unat (uf_get (fd_off ups) UF_PATH)) hurl) 1024
         else rbind (strcat url ''/'') (\<lambda>url.
              rbind (if UF_QUERY \<in> field_set ups then rbind (strcat url ''?'') (add UF_QUERY) else Inr url) (\<lambda>url.
              rbind (if UF_FRAGMENT \<in> field_set ups then strcat url ''#'' else Inr url) (add UF_FRAGMENT))))"

definition request_line_of :: "string \<times> string \<Rightarrow> string" where
  "request_line_of fv = header_line (if strcaseeq (fst fv) ''proxy-connection'' then ''Connection'' else fst fv, snd fv)"

definition http_relay_send_request :: "nat \<Rightarrow> nat \<Rightarrow> ('v, 'z) hrs \<Rightarrow> ('v, 'z) hrs res" where
  "http_relay_send_request p hdr b =
     rbind (look (h_msg b) hdr) (\<lambda>h.
     rbind (cstr_at (hd_method h)) (\<lambda>mth.
     if strcaseeq mth ''connect''
     then rbind (upd_http_relay p (\<lambda>x. x\<lparr>rl_relay_status := RELAY_STATUS_CONNECTED\<rparr>) b) (\<lambda>b1.
          let (tmr, b2) = ep_timer_new (User_Cb (Dns_User (Hr_Response_Tmr p))) b1 in ep_timer_add tmr 0 b2)
     else let chunked = (case header_value h ''Transfer-Encoding'' of None \<Rightarrow> False | Some te \<Rightarrow> strcaseeq te ''chunked'')
          in rbind (upd_http_relay p (\<lambda>x. x\<lparr>rl_request_header := Some hdr, rl_is_chunk_post := rl_is_chunk_post x \<or> chunked\<rparr>) b) (\<lambda>b1.
             rbind (deref (hd_url h)) (\<lambda>hurl.
             rbind (http_parser_parse_url hurl False url_zero) (\<lambda>(rc, ups).
             rbind (request_target hurl ups) (\<lambda>url.
             rbind (cstr_at url) (\<lambda>target.
             rbind (append_lines (replicate (20 * 1024) NUL) (20 * 1024)
                      ((mth @ '' '' @ target @ '' HTTP/1.1'' @ CRLF) # map request_line_of (hd_list_headers h))) (\<lambda>buf.
             rbind (strcat buf CRLF) (\<lambda>buf.
             rbind (cstr_at buf) (\<lambda>text.
             rbind (with_conn p (conn_write text) b1) (\<lambda>b2.
             upd_http_relay p (\<lambda>x. x\<lparr>rl_relay_status := RELAY_STATUS_REQUEST_SENT\<rparr>) b2)))))))))))"

definition http_relay_get_header :: "nat \<Rightarrow> ('v, 'z) hrs \<Rightarrow> nat option res" where
  "http_relay_get_header p b = rbind (look (h_http_relay b) p) (\<lambda>x. Inr (rl_response_header x))"

definition http_relay_get_body :: "nat \<Rightarrow> ('v, 'z) hrs \<Rightarrow> (char list option \<times> int) option res" where
  "http_relay_get_body p b =
     rbind (look (h_http_relay b) p) (\<lambda>x.
     Inr (if \<not> rl_in_body_callback x then None else Some (rl_ptr_body x, rl_cur_body_len x)))"

definition http_relay_write_body :: "nat \<Rightarrow> char list \<Rightarrow> ('v, 'z) hrs \<Rightarrow> ('v, 'z) hrs res" where
  "http_relay_write_body p data b =
     rbind (look (h_http_relay b) p) (\<lambda>x.
     rbind (if rl_is_chunk_post x then with_conn p (conn_write (fmt_X (length data mod 2 ^ 32) @ CRLF)) b else Inr b) (\<lambda>b1.
     rbind (with_conn p (conn_write data) b1) (\<lambda>b2.
     if rl_is_chunk_post x then with_conn p (conn_write CRLF) b2 else Inr b2)))"

definition http_relay_close :: "nat \<Rightarrow> ('v, 'z) hrs \<Rightarrow> ('v, 'z) hrs res" where
  "http_relay_close p b = http_relay_free p b"

definition http_relay_suspend_read :: "nat \<Rightarrow> ('v, 'z) hrs \<Rightarrow> ('v, 'z) hrs res" where
  "http_relay_suspend_read p b = with_conn p (\<lambda>c. ep_buf_disable c EP_BUF_READ) b"

definition http_relay_resume_read :: "nat \<Rightarrow> ('v, 'z) hrs \<Rightarrow> ('v, 'z) hrs res" where
  "http_relay_resume_read p b = with_conn p (\<lambda>c. ep_buf_enable c EP_BUF_READ) b"

definition http_relay_get_status :: "nat \<Rightarrow> ('v, 'z) hrs \<Rightarrow> int res" where
  "http_relay_get_status p b = rbind (look (h_http_relay b) p) (\<lambda>x. Inr (rl_relay_status x))"

definition http_relay_complete_request :: "nat \<Rightarrow> ('v, 'z) hrs \<Rightarrow> ('v, 'z) hrs res" where
  "http_relay_complete_request p b =
     rbind (look (h_http_relay b) p) (\<lambda>x.
     if rl_is_chunk_post x then with_conn p (conn_write (''0'' @ CRLF @ CRLF)) b else Inr b)"

section \<open>The relay on the event loop\<close>

text \<open>The timers of relays; \<open>user\<close> handles the files and timers of everybody else.\<close>

definition relay_timers :: "('v, 'z) hr_owner \<Rightarrow> ('v hr_callback dns_callback file_cb, ('v, 'z) hrs) ep_handlers
    \<Rightarrow> ('v hr_callback dns_callback file_cb, ('v, 'z) hrs) ep_handlers" where
  "relay_timers ucb user =
     \<lparr>on_file = on_file user,
      on_timer = (\<lambda>c t b. case c of
          User_Cb (Dns_User (Hr_Conn_Tmr p)) \<Rightarrow> relay_conn_tmrcb ucb p b
        | User_Cb (Dns_User (Hr_Response_Tmr p)) \<Rightarrow> on_responsecb ucb t p b
        | _ \<Rightarrow> on_timer user c t b)\<rparr>"

text \<open>
  A round of the loop with relays, their connections and the resolver: \<open>w\<close>, \<open>rd\<close> and \<open>d\<close> are what \<^verbatim>\<open>write\<close>, \<^verbatim>\<open>read\<close> and
  \<^verbatim>\<open>recvfrom\<close> return in it, \<open>n\<close> the fuel of the resolver.
\<close>

definition http_relay_handlers :: "('v, 'z) hr_owner \<Rightarrow> nat \<Rightarrow> io_result \<Rightarrow> (unit + char list) \<Rightarrow> char list option
    \<Rightarrow> ('v hr_callback dns_callback file_cb, ('v, 'z) hrs) ep_handlers
    \<Rightarrow> ('v hr_callback dns_callback file_cb, ('v, 'z) hrs) ep_handlers" where
  "http_relay_handlers ucb n w rd d user =
     buf_handlers (relay_conncb ucb) w rd (dns_handlers (relay_dns_resolved ucb) n d (relay_timers ucb user))"

end
