(* ===== verification/Relay_Http_Props.thy ===== *)
theory Relay_Http_Props
  imports Relay_Http Dns_Props Byte_Sink
begin

text \<open>
  What holds of the HTTP/1.1 relay: with its connections, the resolver and an owner that keeps the invariant of the event loop, every
  round of the loop keeps it; the request it sends is the text the header describes; a body is framed as the request announced.
\<close>

section \<open>The invariant of the loop\<close>

lemma base_wf_hr [simp]:
  "base_wf (b\<lparr>h_http_relay := x1\<rparr>) \<longleftrightarrow> base_wf b" "base_wf (b\<lparr>h_msg := x2\<rparr>) \<longleftrightarrow> base_wf b"
  "base_wf (b\<lparr>s_idle_relays := x3\<rparr>) \<longleftrightarrow> base_wf b" "base_wf (b\<lparr>hr_io := x4\<rparr>) \<longleftrightarrow> base_wf b"
  "base_wf (b\<lparr>hr_socks := x5\<rparr>) \<longleftrightarrow> base_wf b"
  by (simp_all add: base_wf_def)

lemma upd_http_relay_wf [wf_rules]: "base_wf b \<Longrightarrow> res_all base_wf (upd_http_relay p g b)"
  by (auto simp: upd_http_relay_def rbind_eq_Inr intro!: res_allI)

lemma with_conn_wf: "(\<And>c. res_all P (f c b)) \<Longrightarrow> res_all P (with_conn p f b)"
  unfolding with_conn_def by (rule wf_all res_all_True | assumption | simp)+

lemma conn_write_wf [wf_rules]: "base_wf b \<Longrightarrow> res_all base_wf (conn_write data c b)"
  unfolding conn_write_def Let_def by (rule wf_rules) simp

lemma free_msg_wf [wf_rules]: "base_wf b \<Longrightarrow> res_all base_wf (free_msg h b)"
  unfolding free_msg_def by (rule wf_all wf_rules res_all_True | assumption | simp)+

lemma relay_sys_reuse_relay_wf [wf_rules]: "base_wf b \<Longrightarrow> res_all base_wf (relay_sys_reuse_relay p b)"
  unfolding relay_sys_reuse_relay_def Let_def by (rule wf_all wf_rules res_all_True | assumption | simp)+

lemma relay_sys_find_alive_relay_wf [wf_rules]: "base_wf b \<Longrightarrow> res_all (\<lambda>(f, b). base_wf b) (relay_sys_find_alive_relay host prt b)"
  unfolding relay_sys_find_alive_relay_def Let_def by (rule wf_all wf_rules res_all_True | assumption | simp)+

lemma http_relay_free_wf [wf_rules]: "base_wf b \<Longrightarrow> res_all base_wf (http_relay_free p b)"
  unfolding http_relay_free_def Let_def
  by (rule wf_all wf_rules with_conn_wf res_all_True | assumption | simp)+

lemma upd_response_wf [wf_rules]: "base_wf b \<Longrightarrow> res_all base_wf (upd_response p g b)"
  unfolding upd_response_def by (rule wf_all wf_rules res_all_True | assumption | simp)+

lemma begin_response_wf [wf_rules]: "base_wf b \<Longrightarrow> res_all base_wf (begin_response p b)"
  unfolding begin_response_def Let_def by (rule wf_rules) (simp add: base_wf_next)

lemma fresh_http_relay_wf [wf_rules]: "base_wf b \<Longrightarrow> res_all (\<lambda>(p, b). base_wf b) (fresh_http_relay host prt b)"
  unfolding fresh_http_relay_def Let_def
  by (rule wf_all wf_rules res_all_True base_wf_next | assumption | simp)+

lemma resume_http_relay_wf [wf_rules]: "base_wf b \<Longrightarrow> res_all base_wf (resume_http_relay p b)"
  unfolding resume_http_relay_def Let_def
  by (rule wf_all wf_rules with_conn_wf res_all_True | assumption | erule (1) ep_timer_new_wf)+

lemma http_relay_create_wf [wf_rules]: "base_wf b \<Longrightarrow> res_all (\<lambda>(p, b). base_wf b) (http_relay_create host prt args b)"
  unfolding http_relay_create_def
  by (rule wf_all wf_rules res_all_True | assumption | simp)+

lemma http_relay_send_request_wf [wf_rules]: "base_wf b \<Longrightarrow> res_all base_wf (http_relay_send_request p hdr b)"
  unfolding http_relay_send_request_def Let_def
  by (rule wf_all wf_rules with_conn_wf res_all_True | assumption | erule (1) ep_timer_new_wf)+

lemma http_relay_io_wf [wf_rules]:
  "base_wf b \<Longrightarrow> res_all base_wf (http_relay_write_body p data b)" "base_wf b \<Longrightarrow> res_all base_wf (http_relay_close p b)"
  "base_wf b \<Longrightarrow> res_all base_wf (http_relay_suspend_read p b)" "base_wf b \<Longrightarrow> res_all base_wf (http_relay_resume_read p b)"
  "base_wf b \<Longrightarrow> res_all base_wf (http_relay_complete_request p b)"
  unfolding http_relay_write_body_def http_relay_close_def http_relay_suspend_read_def http_relay_resume_read_def
    http_relay_complete_request_def
  by (rule wf_all wf_rules with_conn_wf res_all_True | assumption)+

lemma take_sock_wf: "base_wf b \<Longrightarrow> take_sock b = (s, b') \<Longrightarrow> base_wf b'"
  by (auto simp: take_sock_def split: list.splits)

text \<open>The contract of the owner of relays, and of the other users of the loop.\<close>

locale http_relay_owner =
  fixes ucb :: "('v, 'z) hr_owner"
    and user :: "('v hr_callback dns_callback file_cb, ('v, 'z) hrs) ep_handlers"
  assumes owner_cb_wf: "base_wf b \<Longrightarrow> res_all base_wf (ucb p what args b)"
    and others_file_wf: "base_wf b \<Longrightarrow> res_all base_wf (on_file user (User_Cb v) f fd what b)"
    and others_timer_wf: "base_wf b \<Longrightarrow> res_all base_wf (on_timer user c t b)"
begin

lemma tell_owner_wf: "base_wf b \<Longrightarrow> res_all base_wf (tell_owner ucb p what b)"
  unfolding tell_owner_def by (rule wf_all wf_rules owner_cb_wf res_all_True | assumption)+

lemma response_events_wf:
  "base_wf b \<Longrightarrow> res_all base_wf (response_headers ucb p b)"
  "base_wf b \<Longrightarrow> res_all base_wf (response_body ucb p data b)"
  "base_wf b \<Longrightarrow> res_all base_wf (response_complete ucb p b)"
  unfolding response_headers_def response_body_def response_complete_def
  by (rule wf_all wf_rules tell_owner_wf res_all_True | assumption)+

end

sublocale http_relay_owner \<subseteq> responses: parser_user "response_hooks ucb" "\<lambda>d. base_wf (fst d)"
proof unfold_locales
  let ?J = "\<lambda>d :: ('v, 'z) hrs \<times> nat. base_wf (fst d)"
  show "notify_keeps ?J (on_message_begin (response_hooks ucb))"
    unfolding response_hooks_def by (simp, rule cb_notify_keeps [OF http_relay_message_begincb_def]) (simp add: begin_response_wf)
  show "notify_keeps ?J (on_status_complete (response_hooks ucb))"
    unfolding response_hooks_def
    by (simp, rule cb_notify_keeps [OF http_relay_status_completecb_def]) (simp add: upd_response_wf)
  show "notify_keeps ?J (on_headers_complete (response_hooks ucb))"
    unfolding response_hooks_def
    by (simp, rule cb_notify_keeps [OF http_relay_headers_completecb_def]) (simp add: response_events_wf)
  show "notify_keeps ?J (on_message_complete (response_hooks ucb))"
    unfolding response_hooks_def
    by (simp, rule cb_notify_keeps [OF http_relay_message_completecb_def]) (simp add: response_events_wf)
  show "data_keeps ?J (on_url (response_hooks ucb))"
    unfolding response_hooks_def by (simp, rule cb_data_keeps [OF http_relay_url_complete_def]) (simp add: upd_response_wf)
  show "data_keeps ?J (on_header_field (response_hooks ucb))"
    unfolding response_hooks_def by (simp, rule cb_data_keeps [OF http_relay_header_fieldcb_def]) (simp add: upd_response_wf)
  show "data_keeps ?J (on_header_value (response_hooks ucb))"
    unfolding response_hooks_def by (simp, rule cb_data_keeps [OF http_relay_header_valuecb_def]) (simp add: upd_response_wf)
  show "data_keeps ?J (on_body (response_hooks ucb))"
    unfolding response_hooks_def by (simp, rule cb_data_keeps [OF http_relay_bodycb_def]) (simp add: response_events_wf)
qed

context http_relay_owner
begin

lemma parse_response_wf: "base_wf b \<Longrightarrow> res_all base_wf (parse_response ucb p data b)"
  unfolding parse_response_def
proof (rule res_all_bind [OF res_all_True])
  fix x
  assume "base_wf b"
  then have "res_all (\<lambda>r. base_wf (fst (fst r))) (run_parser (response_hooks ucb) data (rl_parser x) (b, p))"
    by (intro responses.run_keeps) simp
  then show "res_all base_wf (rbind (run_parser (response_hooks ucb) data (rl_parser x) (b, p))
      (\<lambda>(d, ps, nparsed). upd_http_relay p (\<lambda>x. x\<lparr>rl_parser := ps\<rparr>) (fst d)))"
    by (rule res_all_bind) (auto intro: upd_http_relay_wf)
qed

lemma conn_err_wf: "base_wf b \<Longrightarrow> res_all base_wf (relay_handle_conn_err ucb p b)"
  unfolding relay_handle_conn_err_def by (rule wf_all wf_rules with_conn_wf tell_owner_wf res_all_True | assumption)+

lemma relay_readcb_wf: "base_wf b \<Longrightarrow> res_all base_wf (relay_readcb ucb p b)"
  unfolding relay_readcb_def
  by (rule res_all_bind [OF res_all_True] res_all_pair res_all_bind [OF parse_response_wf] res_all_bind [OF tell_owner_wf] res_all_if
      conn_err_wf http_relay_free_wf base_wf_Inr | assumption)+

lemma relay_conncb_wf: "base_wf b \<Longrightarrow> res_all base_wf (relay_conncb ucb p c what b)"
  unfolding relay_conncb_def
  by (rule wf_all wf_rules with_conn_wf tell_owner_wf relay_readcb_wf conn_err_wf res_all_True | assumption)+

lemma relay_dns_resolved_wf: "base_wf b \<Longrightarrow> res_all base_wf (relay_dns_resolved ucb p code ips num cname b)"
  unfolding relay_dns_resolved_def Let_def
  by (rule wf_all wf_rules with_conn_wf tell_owner_wf res_all_True | assumption | erule (1) take_sock_wf)+

lemma relay_conn_tmrcb_wf: "base_wf b \<Longrightarrow> res_all base_wf (relay_conn_tmrcb ucb p b)"
  unfolding relay_conn_tmrcb_def by (rule wf_all wf_rules tell_owner_wf res_all_True | assumption)+

lemma on_responsecb_wf: "base_wf b \<Longrightarrow> res_all base_wf (on_responsecb ucb t p b)"
  unfolding on_responsecb_def by (rule wf_all wf_rules parse_response_wf | assumption)+

end

sublocale http_relay_owner \<subseteq> stack: buffered_dns "relay_dns_resolved ucb" n d "relay_timers ucb user" "relay_conncb ucb" w rd for n d w rd
proof unfold_locales
  fix b :: "('v, 'z) hrs"
  assume b: "base_wf b"
  show "res_all base_wf (relay_dns_resolved ucb a ret ips k cname b)" for a ret ips k cname
    by (rule relay_dns_resolved_wf [OF b])
  show "res_all base_wf (on_file (relay_timers ucb user) (User_Cb v) f fd what b)" for v f fd what
    using others_file_wf [OF b] by (simp add: relay_timers_def)
  show "res_all base_wf (on_timer (relay_timers ucb user) c t b)" for c t
    using b by (auto simp: relay_timers_def relay_conn_tmrcb_wf on_responsecb_wf others_timer_wf
        split: file_cb.split dns_callback.split hr_callback.split)
  show "res_all base_wf (relay_conncb ucb e p what b)" for e p what
    by (rule relay_conncb_wf [OF b])
qed

context http_relay_owner
begin

lemma relay_round_wf:
  assumes "base_wf b" and "set (map fst evs) \<subseteq> dom (b_poll b)"
    and "dispatch_round (http_relay_handlers ucb n w rd d user) m evs now b = Some (Inr b')"
  shows "base_wf b'"
  using stack.dispatch_round_wf [OF assms(1,2)] assms(3) by (simp add: http_relay_handlers_def)

end

text \<open>An owner that sends its request as soon as the relay is connected, with nobody else on the loop.\<close>

definition fetch_owner :: "nat \<Rightarrow> ('v, 'z) hr_owner" where
  "fetch_owner hdr p what args b = (if what = RELAY_CONNECTED then http_relay_send_request p hdr b else Inr b)"

definition no_user :: "('c, 'b) ep_handlers" where
  "no_user = \<lparr>on_file = \<lambda>c f fd what b. Inr b, on_timer = \<lambda>c t b. Inr b\<rparr>"

interpretation fetch: http_relay_owner "fetch_owner hdr" no_user for hdr
  by unfold_locales (simp_all add: fetch_owner_def no_user_def http_relay_send_request_wf)


section \<open>What is written to the connection\<close>

text \<open>A relay \<open>p\<close> with the live connection \<open>c\<close>, on a kernel whose \<^verbatim>\<open>send\<close> does not fail.\<close>

definition relay_ready :: "nat \<Rightarrow> nat \<Rightarrow> http_relay \<Rightarrow> ('v, 'z) hrs \<Rightarrow> bool" where
  "relay_ready p c x b \<longleftrightarrow> h_http_relay b p = Some x \<and> rl_conn_proto x \<and> rl_conn x = Some c \<and> watchable c b
     \<and> (\<forall>r \<in> set (hr_io b). 0 \<le> io_ret r)"

lemma hr_more:
  fixes b b' :: "('v, 'z) hrs"
  assumes "buf_base.more b' = buf_base.more b"
  shows "h_http_relay b' = h_http_relay b" "h_msg b' = h_msg b" "hr_io b' = hr_io b"
  using assms by (cases b; cases b'; simp)+

lemma stream_hr_io [simp]:
  "watchable c (b\<lparr>hr_io := i\<rparr>) \<longleftrightarrow> watchable c b" "out_stream c (b\<lparr>hr_io := i\<rparr>) = out_stream c b"
  "watchable c (b\<lparr>h_http_relay := h\<rparr>) \<longleftrightarrow> watchable c b" "out_stream c (b\<lparr>h_http_relay := h\<rparr>) = out_stream c b"
  "watchable c (b\<lparr>h_msg := m\<rparr>) \<longleftrightarrow> watchable c b" "out_stream c (b\<lparr>h_msg := m\<rparr>) = out_stream c b"
  by (simp_all add: watchable_def out_stream_def base_wf_def file_at_def split: option.split)

lemma relay_write_ok:
  assumes "relay_ready p c x b" and "data \<noteq> []"
  shows "\<exists>b'. with_conn p (conn_write data) b = Inr b' \<and> relay_ready p c x b' \<and> out_stream c b' = out_stream c b @ data
    \<and> h_http_relay b' = h_http_relay b \<and> h_msg b' = h_msg b"
proof -
  let ?r = "case hr_io b of [] \<Rightarrow> \<lparr>io_ret = int (length data), io_errno = 0\<rparr> | r # _ \<Rightarrow> r"
  let ?n = "min (io_ret ?r) (int (length data))" and ?b = "b\<lparr>hr_io := tl (hr_io b)\<rparr>"
  have r: "0 \<le> io_ret ?r" using assms(1) by (cases "hr_io b") (auto simp: relay_ready_def)
  obtain b' where b': "ep_buf_write (?r\<lparr>io_ret := ?n\<rparr>) c data ?b = Inr b'" "watchable c b'"
    "out_stream c b' = out_stream c ?b @ data" "buf_base.more b' = buf_base.more ?b"
    using ep_buf_write_ok [of c ?b data "?r\<lparr>io_ret := ?n\<rparr>"] assms r by (auto simp: relay_ready_def)
  have "with_conn p (conn_write data) b = Inr b'"
    using assms(1) r b'(1) by (simp add: with_conn_def conn_write_def Let_def relay_ready_def deref_def)
  moreover have "\<forall>r \<in> set (tl (hr_io b)). 0 \<le> io_ret r"
    using assms(1) by (cases "hr_io b") (auto simp: relay_ready_def)
  ultimately show ?thesis
    using assms(1) b' hr_more [OF b'(4)] by (auto simp: relay_ready_def)
qed

interpretation relay_sink: byte_sink "\<lambda>d. d \<noteq> []" "relay_ready p c x" "out_stream c" "\<lambda>d. with_conn p (conn_write d)" for p c x
  by unfold_locales (use relay_write_ok in blast)

text \<open>The pieces of a body, and how the request announced them.\<close>

primrec write_bodies :: "nat \<Rightarrow> char list list \<Rightarrow> ('v, 'z) hrs \<Rightarrow> ('v, 'z) hrs res" where
  "write_bodies p [] b = http_relay_complete_request p b"
| "write_bodies p (d # ds) b = rbind (http_relay_write_body p d b) (write_bodies p ds)"

lemma write_body_ok:
  assumes "relay_ready p c x b" and "d \<noteq> []" and "length d < 2 ^ 32"
  shows "\<exists>b'. http_relay_write_body p d b = Inr b' \<and> relay_ready p c x b'
    \<and> out_stream c b' = out_stream c b @ (if rl_is_chunk_post x then chunk d else d)"
proof -
  let ?pieces = "if rl_is_chunk_post x then [fmt_X (length d) @ CRLF, d, CRLF] else [d]"
  have "list_all (\<lambda>d. d \<noteq> []) ?pieces" using assms(2) by simp
  from relay_sink.puts_ok [OF assms(1) this] obtain b' where b': "relay_sink.puts p ?pieces b = Inr b'" "relay_ready p c x b'"
    "out_stream c b' = out_stream c b @ concat ?pieces" by blast
  moreover have "http_relay_write_body p d b = Inr b'"
    using assms b'(1) by (auto simp: http_relay_write_body_def relay_ready_def rbind_eq_Inr split: if_splits)
  ultimately show ?thesis by (auto simp: chunk_def)
qed

lemma complete_request_ok:
  assumes "relay_ready p c x b"
  shows "\<exists>b'. http_relay_complete_request p b = Inr b'
    \<and> out_stream c b' = out_stream c b @ (if rl_is_chunk_post x then ''0'' @ CRLF @ CRLF else [])"
  using relay_write_ok [OF assms, of "''0'' @ CRLF @ CRLF"] assms
  by (auto simp: http_relay_complete_request_def relay_ready_def)


section \<open>The text of a request\<close>

text \<open>What the origin should be asked for: path and query of the URL, the path \<^verbatim>\<open>/\<close> when there is none.\<close>

definition target_text :: "string \<Rightarrow> string \<Rightarrow> string" where
  "target_text path query = (if path = [] then ''/'' else path) @ (if query = [] then [] else CHR ''?'' # query)"

lemma url_char_not_nul: "list_all IS_URL_CHAR s \<Longrightarrow> no_nul s"
proof -
  have "\<not> IS_URL_CHAR NUL" by code_simp
  then show "list_all IS_URL_CHAR s \<Longrightarrow> no_nul s" by (auto simp: no_nul_def list_all_iff)
qed

lemma target_no_nul: "wf_parts host ds path query \<Longrightarrow> no_nul (target_text path query)"
  by (auto simp: target_text_def wf_parts_def dest: url_char_not_nul)

lemma target_path:
  assumes "wf_parts host ds path query" and "length (url_text host ds path query) < 65536" and "path \<noteq> []"
    and "length (target_text path query) < 1024" and "UF_PATH \<in> field_set u"
    and "uf_get (fd_off u) UF_PATH = word_of_nat (7 + length (server_text host ds))"
  shows "request_target (url_text host ds path query) u = Inr (zbuf 1024 (target_text path query))"
proof -
  have "7 + length (server_text host ds) < 65536" using assms(2,3) by (simp add: url_text_def)
  then have "unat (uf_get (fd_off u) UF_PATH) = 7 + length (server_text host ds)"
    unfolding assms(6) by (rule unat_of_nat16)
  then show ?thesis
    using assms(3-5) drop_url_text [of "length (server_text host ds)" host ds path query] strncpy_zeros [of 1024 1024]
    by (simp add: request_target_def Let_def target_text_def)
qed

lemma mem_read_query:
  assumes "length (url_text host ds [] query) < 65536" and "query \<noteq> []"
    and "uf_get (fd_off u) UF_QUERY = word_of_nat (Suc (7 + length (server_text host ds)))"
    and "uf_get (fd_len u) UF_QUERY = word_of_nat (length query)"
  shows "mem_read (url_text host ds [] query @ [NUL]) (int (unat (uf_get (fd_off u) UF_QUERY)))
    (int (unat (uf_get (fd_len u) UF_QUERY))) = Inr query"
proof -
  let ?url = "url_text host ds [] query" and ?i = "Suc (7 + length (server_text host ds))"
  have n: "length ?url = ?i + length query" using assms(2) by (simp add: url_text_def)
  have "unat (uf_get (fd_off u) UF_QUERY) = ?i" "unat (uf_get (fd_len u) UF_QUERY) = length query"
    unfolding assms(3,4) using assms(1) n by (simp_all only: unat_of_nat16)
  moreover have "drop ?i ?url = query"
    using drop_url_text [of "Suc (length (server_text host ds))" host ds "[]" query] assms(2) by simp
  ultimately show ?thesis using n by (simp add: mem_read_def nat_add_distrib)
qed

lemma target_no_path:
  assumes "wf_parts host ds [] query" and "length (url_text host ds [] query) < 65536"
    and "length (target_text [] query) < 1024" and "UF_PATH \<notin> field_set u" and "UF_FRAGMENT \<notin> field_set u"
    and "UF_QUERY \<in> field_set u \<longleftrightarrow> query \<noteq> []" and "uf_get (fd_len u) UF_FRAGMENT = 0" and "uf_get (fd_off u) UF_FRAGMENT = 0"
    and "query \<noteq> [] \<Longrightarrow> uf_get (fd_off u) UF_QUERY = word_of_nat (Suc (7 + length (server_text host ds)))
      \<and> uf_get (fd_len u) UF_QUERY = word_of_nat (length query)"
  shows "request_target (url_text host ds [] query) u = Inr (zbuf 1024 (target_text [] query))"
proof -
  have frag: "mem_read (url_text host ds [] query @ [NUL]) 0 0 = Inr []" by (simp add: mem_read_def)
  have slash: "strcat (zbuf 1024 []) ''/'' = Inr (zbuf 1024 ''/'')" using zbuf_strcat [of "[]" "''/''" 1024] by simp
  show ?thesis
  proof (cases "query = []")
    case True
    then show ?thesis
      using assms(4-8) slash frag zbuf_strlen [of "''/''" 1024] zbuf_memcpy [of "''/''" "[]" 1024]
      by (simp add: request_target_def Let_def zbuf_Nil target_text_def)
  next
    case False
    have "no_nul query" using assms(1) url_char_not_nul by (simp add: wf_parts_def)
    then show ?thesis
      using False assms(3-8) assms(9) slash frag mem_read_query [OF assms(2) False, of u] zbuf_strcat [of "''/''" "''?''" 1024]
        zbuf_strlen [of "''/?''" 1024] zbuf_memcpy [of "''/?''" query 1024] zbuf_strlen [of "''/?'' @ query" 1024]
        zbuf_memcpy [of "''/?'' @ query" "[]" 1024]
      by (simp add: request_target_def Let_def zbuf_Nil target_text_def)
  qed
qed

lemma request_target_parts:
  assumes "wf_parts host ds path query" and "length (url_text host ds path query) < 65536"
    and "length (target_text path query) < 1024"
  shows "\<exists>u. http_parser_parse_url (url_text host ds path query) False url_zero = Inr (0, u)
    \<and> request_target (url_text host ds path query) u = Inr (zbuf 1024 (target_text path query))"
proof -
  let ?p = "parts_parsed host ds path query url_zero"
  obtain u where u: "u = (if ds = [] then ?p else ?p\<lparr>port := word_of_int (strtoul ds)\<rparr>)" by simp
  have "request_target (url_text host ds path query) u = Inr (zbuf 1024 (target_text path query))"
  proof (cases "path = []")
    case True
    then show ?thesis
      using assms target_no_path [of host ds query u]
      by (auto simp: u parts_parsed_def Let_def put_path_def put_query_def put_port_def url_zero_def)
  next
    case False
    then show ?thesis
      using target_path [OF assms(1,2) False assms(3), of u]
      by (auto simp: u parts_parsed_def Let_def put_path_def put_query_def put_port_def)
  qed
  then show ?thesis using http_parse_url_parts [OF assms(1,2), of url_zero] u by auto
qed

text \<open>The lines the fields of a request should give.\<close>

definition field_text :: "string \<times> string \<Rightarrow> string" where
  "field_text fv = (if strcaseeq (fst fv) ''proxy-connection'' then ''Connection'' else fst fv) @ '': '' @ snd fv @ CRLF"

lemma request_line_of_text: "request_line_of = field_text"
  by (auto simp: fun_eq_iff request_line_of_def header_line_def field_text_def)

text \<open>
  Claim C12.  The relay asks the origin what the client asked the proxy: for a header with an absolute URL it writes the method, path
  and query of the URL, the version, every field in order with \<^verbatim>\<open>proxy-connection\<close> renamed to \<^verbatim>\<open>Connection\<close>, and an empty line.
\<close>

theorem http_relay_request_text:
  assumes "relay_ready p c x b" and "h_msg b hdr = Some h" and "cstr_at (hd_method h) = Inr mth" and "\<not> strcaseeq mth ''connect''"
    and "hd_url h = Some (url_text host ds path query)" and "wf_parts host ds path query"
    and "length (url_text host ds path query) < 65536" and "length (target_text path query) < 1024"
    and "lines = (mth @ '' '' @ target_text path query @ '' HTTP/1.1'' @ CRLF) # map field_text (hd_list_headers h)"
    and "list_all printable lines" and "length (concat lines) + 2 < 20 * 1024"
  shows "\<exists>b'. http_relay_send_request p hdr b = Inr b' \<and> out_stream c b' = out_stream c b @ concat lines @ CRLF
    \<and> http_relay_get_status p b' = Inr RELAY_STATUS_REQUEST_SENT"
proof -
  let ?buf = "replicate (20 * 1024) NUL"
  define y where "y = x\<lparr>rl_request_header := Some hdr, rl_is_chunk_post := rl_is_chunk_post x
    \<or> (case header_value h ''Transfer-Encoding'' of None \<Rightarrow> False | Some te \<Rightarrow> strcaseeq te ''chunked'')\<rparr>"
  define b1 where "b1 = b\<lparr>h_http_relay := (h_http_relay b)(p \<mapsto> y)\<rparr>"
  have ready: "relay_ready p c y b1" using assms(1) by (simp add: relay_ready_def y_def b1_def)
  obtain u where u: "http_parser_parse_url (url_text host ds path query) False url_zero = Inr (0, u)"
    "request_target (url_text host ds path query) u = Inr (zbuf 1024 (target_text path query))"
    using request_target_parts [OF assms(6-8)] by blast
  have target: "cstr_at (zbuf 1024 (target_text path query)) = Inr (target_text path query)"
    using assms(6,8) by (simp add: cstr_at_def zbuf_terminated target_no_nul)
  obtain buf where buf: "append_lines ?buf (20 * 1024) lines = Inr buf" "c_str buf = concat lines" "length buf = 20 * 1024"
    "NUL \<in> set buf"
    using append_lines_fits [of ?buf lines] assms(10,11) by (auto simp: c_str_def)
  obtain buf2 where buf2: "strcat buf CRLF = Inr buf2" "cstr_at buf2 = Inr (concat lines @ CRLF)"
    using strcat_fits [of CRLF buf] buf assms(11) by (auto simp: cstr_at_def)
  obtain b2 where b2: "with_conn p (conn_write (concat lines @ CRLF)) b1 = Inr b2" "relay_ready p c y b2"
    "out_stream c b2 = out_stream c b1 @ concat lines @ CRLF"
    using relay_write_ok [OF ready, of "concat lines @ CRLF"] by auto
  have upd: "upd_http_relay p (\<lambda>x. x\<lparr>rl_request_header := Some hdr, rl_is_chunk_post := rl_is_chunk_post x
      \<or> (case header_value h ''Transfer-Encoding'' of None \<Rightarrow> False | Some te \<Rightarrow> strcaseeq te ''chunked'')\<rparr>) b = Inr b1"
    using assms(1) by (simp add: upd_http_relay_def relay_ready_def b1_def y_def)
  have "http_relay_send_request p hdr b = upd_http_relay p (\<lambda>x. x\<lparr>rl_relay_status := RELAY_STATUS_REQUEST_SENT\<rparr>) b2"
    using assms(2-5) u target buf(1) [unfolded assms(9) request_line_of_text [symmetric]] buf2 b2(1) upd
    by (simp add: http_relay_send_request_def deref_def Let_def del: append_lines.simps)
  then show ?thesis
    using b2(2,3) by (auto simp: upd_http_relay_def relay_ready_def b1_def http_relay_get_status_def)
qed

section \<open>Instances\<close>

definition hr_start :: "unit hr_base" where
  "hr_start = dns_base.extend (resolver_start 0) (hr_base.fields Map.empty Map.empty [] [] [])"

lemma hr_start_simps [simp]:
  "base_wf hr_start" "b_poll hr_start = Map.empty" "b_list_timers hr_start = []" "length (b_files hr_start) = 1024"
  "b_next hr_start = 1" "hr_io hr_start = []" "b_accepted hr_start = (\<lambda>_. [])" "h_buf hr_start = Map.empty"
  by (simp_all add: hr_start_def dns_base.extend_def hr_base.fields_def resolver_start_def buf_base.extend_def dns_base.fields_def
      ep_base.extend_def ep_base_create_def buf_base.fields_def base_wf_def polls_ok_def timers_ok_def fresh_ok_def list_ok_def
      slot_ok_def)

definition ready_relay :: "bool \<Rightarrow> http_relay" where
  "ready_relay chunked = new_http_relay\<lparr>rl_conn_proto := True, rl_conn := Some 1, rl_is_chunk_post := chunked\<rparr>"

lemma ready_start: "\<exists>b :: unit hr_base. relay_ready 9 1 (ready_relay chunked) b \<and> out_stream 1 b = [] \<and> h_msg b 8 = Some h"
proof -
  have w: "base_wf hr_start" "0 \<le> (7 :: int)" "7 < int (length (b_files hr_start))" by simp_all
  from ep_buf_create_ok [OF w, where sock = 7 and cb = 9] obtain b :: "unit hr_base" and f
    where b: "watchable (b_next hr_start) b" "b_accepted b = b_accepted hr_start"
    "buf_base.more b = buf_base.more hr_start"
    "h_buf b = (h_buf hr_start)(b_next hr_start \<mapsto> \<lparr>bi_fd = 7, bi_file = f, bi_cb = 9, bi_buf_read = None, bi_read_buf_len = 0,
        bi_is_incb = False, bi_is_free_pending = False, bi_list_write_buf = [], bi_detect = 0\<rparr>)"
    by (elim exE conjE) (rule that)
  let ?b = "b\<lparr>h_http_relay := [9 \<mapsto> ready_relay chunked], h_msg := [8 \<mapsto> h]\<rparr>"
  have "relay_ready 9 1 (ready_relay chunked) ?b" "out_stream 1 ?b = []" "h_msg ?b 8 = Some h"
    using b hr_more [OF b(3)]
    by (simp_all add: relay_ready_def ready_relay_def) (simp add: out_stream_def)
  then show ?thesis by blast
qed



definition sample_header :: header where
  "sample_header = header_new\<lparr>hd_method := ''GET'' @ replicate 7 NUL, hd_url := Some (url_text ''a.b'' [] ''/x'' ''y''),
     hd_list_headers := [(''Proxy-Connection'', ''close'')]\<rparr>"

lemma sample_header_simps:
  "cstr_at (hd_method sample_header) = Inr ''GET''" "hd_url sample_header = Some (url_text ''a.b'' [] ''/x'' ''y'')"
  "hd_list_headers sample_header = [(''Proxy-Connection'', ''close'')]" "length (url_text ''a.b'' [] ''/x'' ''y'') < 65536"
  by (simp_all add: sample_header_def cstr_at_def c_str_def url_text_def server_text_def)

lemma sample_header_facts:
  "wf_parts ''a.b'' [] ''/x'' ''y''" "\<not> strcaseeq ''GET'' ''connect''"
  "field_text (''Proxy-Connection'', ''close'') = ''Connection: close'' @ CRLF"
  by code_simp+

lemma sample_printable: "list_all printable [''GET /x?y HTTP/1.1'' @ CRLF, ''Connection: close'' @ CRLF]"
  by code_simp

theorem http_relay_request_text_witness:
  "\<exists>b b' :: unit hr_base. http_relay_send_request 9 8 b = Inr b'
     \<and> out_stream 1 b' = ''GET /x?y HTTP/1.1'' @ CRLF @ ''Connection: close'' @ CRLF @ CRLF"
proof -
  obtain b :: "unit hr_base" where b: "relay_ready 9 1 (ready_relay False) b" "out_stream 1 b = []" "h_msg b 8 = Some sample_header"
    using ready_start [of False sample_header] by blast
  note h = sample_header_simps and f = sample_header_facts
  let ?lines = "[''GET /x?y HTTP/1.1'' @ CRLF, ''Connection: close'' @ CRLF]"
  have "\<exists>b'. http_relay_send_request 9 8 b = Inr b' \<and> out_stream 1 b' = out_stream 1 b @ concat ?lines @ CRLF
      \<and> http_relay_get_status 9 b' = Inr RELAY_STATUS_REQUEST_SENT"
    by (rule http_relay_request_text [OF b(1,3) h(1) f(2) h(2) f(1) h(4) _ _ sample_printable])
      (simp_all add: target_text_def h(3) f(3))
  with b(2) show ?thesis by auto
qed

end
