(* ===== verification/Conn_Tcp.thy ===== *)
theory Conn_Tcp
  imports Ep_Loop
begin

text \<open>
  The TCP connections of \<^verbatim>\<open>conn_tcp.c\<close> behind the interface of \<^verbatim>\<open>conn.h\<close>: a thin layer over the files of the
  event loop that translates event masks in both directions.  The callback of a connection's owner is a parameter;
  what \<^verbatim>\<open>socket\<close>, \<^verbatim>\<open>recv\<close> and \<^verbatim>\<open>send\<close> return are arguments.
\<close>

section \<open>The state\<close>

definition CONN_READ :: int where [simp]: "CONN_READ = 1"
definition CONN_WRITE :: int where [simp]: "CONN_WRITE = 2"
definition CONN_ERROR :: int where [simp]: "CONN_ERROR = 4"
definition CONN_TIMEOUT :: int where [simp]: "CONN_TIMEOUT = 8"

datatype 'u conn_file = Conn_File nat | Conn_User 'u

record 'd tcp_conn =
  tc_cb :: 'd
  tc_file :: nat
  tc_fd :: int

record ('u, 'd) conn_base = "'u conn_file ep_base" +
  h_conn :: "nat \<rightharpoonup> 'd tcp_conn"
  c_sent :: "int \<Rightarrow> char list"
  c_closed :: "int list"

type_synonym ('u, 'd, 'z) cbase = "('u, 'd, 'z) conn_base_scheme"
type_synonym ('u, 'd, 'z) conn_user = "'d \<Rightarrow> nat \<Rightarrow> int \<Rightarrow> ('u, 'd, 'z) cbase \<Rightarrow> ('u, 'd, 'z) cbase res"

section \<open>The operations\<close>

text \<open>The event a file reports, as the owner of the connection sees it.\<close>

definition conn_event :: "int \<Rightarrow> int" where
  "conn_event what =
     (let ev = (if and what EP_READ \<noteq> 0 then or 0 EP_READ else 0);
          ev = (if and what EP_WRITE \<noteq> 0 then or ev CONN_WRITE else ev);
          ev = (if and what EP_TIMEOUT \<noteq> 0 then or ev CONN_TIMEOUT else ev)
      in (if and what EP_ERROR \<noteq> 0 then or ev CONN_ERROR else ev))"

definition tcp_conn_eventcb :: "('u, 'd, 'z) conn_user \<Rightarrow> nat \<Rightarrow> int \<Rightarrow> ('u, 'd, 'z) cbase \<Rightarrow> ('u, 'd, 'z) cbase res" where
  "tcp_conn_eventcb cb conn what b =
     rbind (look (h_conn b) conn) (\<lambda>c. cb (tc_cb c) conn (conn_event what) b)"

text \<open>\<open>fd\<close> is what \<^verbatim>\<open>socket\<close> returns; the result of \<^verbatim>\<open>connect\<close> is not looked at.\<close>

definition tcp_conn_create :: "int \<Rightarrow> 'd \<Rightarrow> ('u, 'd, 'z) cbase \<Rightarrow> (nat \<times> ('u, 'd, 'z) cbase) res" where
  "tcp_conn_create fd cb b =
     (let p = b_next b
      in rbind (ep_file_create fd (Conn_File p) (b\<lparr>b_next := Suc p\<rparr>)) (\<lambda>(f, b1).
         Inr (p, b1\<lparr>h_conn := (h_conn b1)(p \<mapsto> \<lparr>tc_cb = cb, tc_file = f, tc_fd = fd\<rparr>)\<rparr>)))"

text \<open>\<open>r\<close> is what \<^verbatim>\<open>recv\<close> delivers: \<open>None\<close> an error, otherwise bytes, none of them at the end of the stream.\<close>

definition tcp_conn_read :: "char list option \<Rightarrow> nat \<Rightarrow> ('u, 'd, 'z) cbase \<Rightarrow> (int \<times> char list) res" where
  "tcp_conn_read r conn b =
     rbind (look (h_conn b) conn) (\<lambda>c. Inr (case r of None \<Rightarrow> (- 1, []) | Some bs \<Rightarrow> (int (length bs), bs)))"

text \<open>\<open>n\<close> is what \<^verbatim>\<open>send\<close> returns: how much of the data it took, or \<open>- 1\<close>.\<close>

definition tcp_conn_write :: "int \<Rightarrow> nat \<Rightarrow> char list \<Rightarrow> ('u, 'd, 'z) cbase \<Rightarrow> (int \<times> ('u, 'd, 'z) cbase) res" where
  "tcp_conn_write n conn buf b =
     rbind (look (h_conn b) conn) (\<lambda>c.
     Inr (n, b\<lparr>c_sent := (c_sent b)(tc_fd c := c_sent b (tc_fd c) @ take (nat n) buf)\<rparr>))"

definition tcp_conn_close :: "nat \<Rightarrow> ('u, 'd, 'z) cbase \<Rightarrow> ('u, 'd, 'z) cbase res" where
  "tcp_conn_close conn b =
     rbind (look (h_conn b) conn) (\<lambda>c.
     rbind (ep_file_detect (tc_file c) 0 (- 1) b) (\<lambda>b1.
     rbind (ep_file_free (tc_file c) b1) (\<lambda>b2.
     Inr (b2\<lparr>c_closed := c_closed b2 @ [tc_fd c], h_conn := (h_conn b2)(conn := None)\<rparr>))))"

text \<open>The mask the owner asks for, as the event loop takes it.\<close>

definition conn_mask :: "int \<Rightarrow> int" where
  "conn_mask what =
     (let ev = (if and what CONN_READ \<noteq> 0 then or 0 EP_READ else 0)
      in (if and what CONN_WRITE \<noteq> 0 then or ev EP_WRITE else ev))"

definition tcp_conn_detect :: "nat \<Rightarrow> int \<Rightarrow> int \<Rightarrow> ('u, 'd, 'z) cbase \<Rightarrow> ('u, 'd, 'z) cbase res" where
  "tcp_conn_detect conn what timeout b =
     rbind (look (h_conn b) conn) (\<lambda>c. ep_file_detect (tc_file c) (conn_mask what) timeout b)"

text \<open>The event loop with connections on it; \<open>user\<close> handles the files and timers of everybody else.\<close>

definition conn_handlers :: "('u, 'd, 'z) conn_user \<Rightarrow> ('u conn_file, ('u, 'd, 'z) cbase) ep_handlers
    \<Rightarrow> ('u conn_file, ('u, 'd, 'z) cbase) ep_handlers" where
  "conn_handlers cb user =
     \<lparr>on_file = (\<lambda>c f fd what b. case c of Conn_File p \<Rightarrow> tcp_conn_eventcb cb p what b
                 | Conn_User _ \<Rightarrow> on_file user c f fd what b),
      on_timer = on_timer user\<rparr>"

section \<open>The invariant of the loop\<close>

lemma base_wf_conns [simp]:
  "base_wf (b\<lparr>h_conn := h\<rparr>) \<longleftrightarrow> base_wf b" "base_wf (b\<lparr>c_sent := s\<rparr>) \<longleftrightarrow> base_wf b"
  "base_wf (b\<lparr>c_closed := l\<rparr>) \<longleftrightarrow> base_wf b"
  by (simp_all add: base_wf_def)


lemma tcp_conn_wf [wf_rules]:
  "base_wf b \<Longrightarrow> res_all (\<lambda>(p, b). base_wf b) (tcp_conn_create fd cb b)"
  "res_all (\<lambda>(n, bs). True) (tcp_conn_read r conn b)"
  "base_wf b \<Longrightarrow> res_all (\<lambda>(n, b). base_wf b) (tcp_conn_write n conn buf b)"
  "base_wf b \<Longrightarrow> res_all base_wf (tcp_conn_close conn b)"
  "base_wf b \<Longrightarrow> res_all base_wf (tcp_conn_detect conn what t b)"
  unfolding tcp_conn_create_def tcp_conn_read_def tcp_conn_write_def tcp_conn_close_def tcp_conn_detect_def Let_def
  by (rule wf_steps wf_rules base_wf_next | assumption | simp)+

text \<open>The contract of the owner of connections, and of the other users of the loop.\<close>

locale conn_owner =
  fixes cb :: "('u, 'd, 'z) conn_user"
    and user :: "('u conn_file, ('u, 'd, 'z) cbase) ep_handlers"
  assumes owner_wf: "base_wf b \<Longrightarrow> res_all base_wf (cb d p what b)"
    and other_file_wf: "base_wf b \<Longrightarrow> res_all base_wf (on_file user (Conn_User u) f fd what b)"
    and other_timer_wf: "base_wf b \<Longrightarrow> res_all base_wf (on_timer user c t b)"
begin

lemma conn_eventcb_wf: "base_wf b \<Longrightarrow> res_all base_wf (tcp_conn_eventcb cb conn what b)"
  unfolding tcp_conn_eventcb_def by (rule wf_steps wf_rules owner_wf | assumption)+

end

sublocale conn_owner \<subseteq> ep_user "conn_handlers cb user"
proof unfold_locales
  fix b f ev what b'
  assume "base_wf b" "on_file (conn_handlers cb user) (ef_cb ev) f (ef_fd ev) what b = Inr b'"
  then show "base_wf b'"
    by (cases "ef_cb ev") (auto simp: conn_handlers_def intro: res_allD [OF conn_eventcb_wf] res_allD [OF other_file_wf])
next
  fix b t x b'
  assume "base_wf b" "on_timer (conn_handlers cb user) (et_cb x) t b = Inr b'"
  then show "base_wf b'" by (auto simp: conn_handlers_def intro: res_allD [OF other_timer_wf])
qed

end
