(* ===== verification/Relay_Http2.thy ===== *)
theory Relay_Http2
  imports Conn_Tcp Header Relay
begin

text \<open>
  The HTTP/2 relay of \<^verbatim>\<open>relay_http2.c\<close>: one tunnel connection, one nghttp2 session over it, and a stream of the
  session per request of a client.  The library nghttp2 is a parameter, a record of functions: those that only touch
  a session work on its abstract state \<open>'s\<close>, those that call back into the program (\<^verbatim>\<open>nghttp2_session_send\<close>,
  \<^verbatim>\<open>nghttp2_session_mem_recv\<close>) on the whole state.  The callback of a relay's owner is a parameter too.  Headers live in a
  heap of their own, because a relay keeps a pointer to a header of its client.
\<close>

section \<open>Constants\<close>

definition NGHTTP2_DATA :: int where [simp]: "NGHTTP2_DATA = 0"
definition NGHTTP2_HEADERS :: int where [simp]: "NGHTTP2_HEADERS = 1"
definition NGHTTP2_RST_STREAM :: int where [simp]: "NGHTTP2_RST_STREAM = 3"
definition NGHTTP2_FLAG_END_STREAM :: int where [simp]: "NGHTTP2_FLAG_END_STREAM = 1"
definition NGHTTP2_FLAG_END_HEADERS :: int where [simp]: "NGHTTP2_FLAG_END_HEADERS = 4"
definition NGHTTP2_HCAT_RESPONSE :: int where [simp]: "NGHTTP2_HCAT_RESPONSE = 1"
definition NGHTTP2_DATA_FLAG_EOF :: int where [simp]: "NGHTTP2_DATA_FLAG_EOF = 1"
definition NGHTTP2_ERR_DEFERRED :: int where [simp]: "NGHTTP2_ERR_DEFERRED = - 508"
definition NGHTTP2_INITIAL_WINDOW_SIZE :: int where [simp]: "NGHTTP2_INITIAL_WINDOW_SIZE = 65535"
definition NGHTTP2_SETTINGS_MAX_CONCURRENT_STREAMS :: int where [simp]: "NGHTTP2_SETTINGS_MAX_CONCURRENT_STREAMS = 3"

section \<open>The state\<close>

datatype 'u h2_callback = Relay_Tmr nat | H2_User 'u

record nghttp2_nv =
  nv_name :: string
  nv_value :: string

record nghttp2_frame =
  fr_type :: int
  fr_flags :: int
  fr_stream_id :: int
  fr_cat :: int

record http2_relay =
  hr_session :: "nat option"
  hr_request_header :: "nat option"
  hr_response_header :: nat
  hr_tmr_connectd :: "nat option"
  hr_args :: nat
  hr_body_data :: "char list option"
  hr_body_len :: int
  hr_stream_id :: int
  hr_has_length_info :: bool
  hr_is_request_complete :: bool
  hr_is_response_read_suspend :: bool
  hr_is_attached :: bool
  hr_list_write_buf :: "ep_buffer list"
  hr_relay_status :: int
  hr_local_window_size :: int

record ('u, 's) h2_base = "('u h2_callback, unit) conn_base" +
  h_relay :: "nat \<rightharpoonup> http2_relay"
  h_header :: "nat \<rightharpoonup> header"
  s_list_relays :: "nat list"
  s_session :: "nat option"
  s_tunnel_connecting :: bool
  s_conn_tunnel :: "nat option"
  ng_state :: 's

type_synonym ('u, 's, 'z) h2 = "('u, 's, 'z) h2_base_scheme"

text \<open>The functions of nghttp2 the relay calls; a session is its address.\<close>

record ('st, 's) nghttp2 =
  nghttp2_session_client_new :: "'s \<Rightarrow> nat \<times> 's"
  nghttp2_submit_settings :: "nat \<Rightarrow> (int \<times> int) list \<Rightarrow> 's \<Rightarrow> int \<times> 's"
  nghttp2_submit_request :: "nat \<Rightarrow> nghttp2_nv list \<Rightarrow> bool \<Rightarrow> nat \<Rightarrow> 's \<Rightarrow> int \<times> 's"
  nghttp2_session_set_stream_user_data :: "nat \<Rightarrow> int \<Rightarrow> nat option \<Rightarrow> 's \<Rightarrow> 's"
  nghttp2_session_get_stream_user_data :: "nat \<Rightarrow> int \<Rightarrow> 's \<Rightarrow> nat option"
  nghttp2_submit_rst_stream :: "nat \<Rightarrow> int \<Rightarrow> int \<Rightarrow> 's \<Rightarrow> 's"
  nghttp2_submit_window_update :: "nat \<Rightarrow> int \<Rightarrow> int \<Rightarrow> 's \<Rightarrow> 's"
  nghttp2_session_resume_data :: "nat \<Rightarrow> int \<Rightarrow> 's \<Rightarrow> 's"
  nghttp2_session_get_stream_effective_recv_data_length :: "nat \<Rightarrow> int \<Rightarrow> 's \<Rightarrow> int"
  nghttp2_session_get_effective_local_window_size :: "nat \<Rightarrow> 's \<Rightarrow> int"
  nghttp2_session_send :: "nat \<Rightarrow> 'st \<Rightarrow> 'st res"
  nghttp2_session_mem_recv :: "nat \<Rightarrow> char list \<Rightarrow> 'st \<Rightarrow> 'st res"

type_synonym ('u, 's, 'z) ng = "(('u, 's, 'z) h2, 's) nghttp2"
type_synonym ('u, 's, 'z) relay_eventcb = "nat \<Rightarrow> int \<Rightarrow> nat \<Rightarrow> ('u, 's, 'z) h2 \<Rightarrow> ('u, 's, 'z) h2 res"

definition upd_relay :: "nat \<Rightarrow> (http2_relay \<Rightarrow> http2_relay) \<Rightarrow> ('u, 's, 'z) h2 \<Rightarrow> ('u, 's, 'z) h2 res" where
  "upd_relay p g b = rbind (look (h_relay b) p) (\<lambda>x. Inr (b\<lparr>h_relay := (h_relay b)(p \<mapsto> g x)\<rparr>))"

definition put_header :: "nat \<Rightarrow> header \<Rightarrow> ('u, 's, 'z) h2 \<Rightarrow> ('u, 's, 'z) h2" where
  "put_header p h b = b\<lparr>h_header := (h_header b)(p \<mapsto> h)\<rparr>"

definition on_session :: "('s \<Rightarrow> 's) \<Rightarrow> ('u, 's, 'z) h2 \<Rightarrow> ('u, 's, 'z) h2" where
  "on_session g b = b\<lparr>ng_state := g (ng_state b)\<rparr>"

text \<open>Calling the owner of a relay.\<close>

definition relay_cb :: "('u, 's, 'z) relay_eventcb \<Rightarrow> nat \<Rightarrow> int \<Rightarrow> ('u, 's, 'z) h2 \<Rightarrow> ('u, 's, 'z) h2 res" where
  "relay_cb ucb p what b = rbind (look (h_relay b) p) (\<lambda>x. ucb p what (hr_args x) b)"

section \<open>Responses\<close>

text \<open>What the function does to the header of the response, and to \<^verbatim>\<open>has_length_info\<close> if it sets it.\<close>

definition length_info :: "header \<Rightarrow> header \<times> bool option" where
  "length_info h =
     (let content_length = header_value h ''content-length''; chunked = header_value h ''Transfer-Encoding'';
          proxy_connection = header_value h ''proxy-connection'';
          h1 = (if proxy_connection = None
                then header_add_pair h ''proxy-connection'' (if hd_status_code h < 500 then ''keep-alive'' else ''close'')
                else h)
      in if hd_status_code h1 > 400 then (h1, None)
         else let has_length_info = \<not> (content_length = None \<and> chunked = None)
              in (if \<not> has_length_info then header_add_pair h1 ''Transfer-Encoding'' ''chunked'' else h1, Some has_length_info))"

definition relay_check_length_info :: "nat \<Rightarrow> ('u, 's, 'z) h2 \<Rightarrow> ('u, 's, 'z) h2 res" where
  "relay_check_length_info p b =
     rbind (look (h_relay b) p) (\<lambda>x.
     rbind (look (h_header b) (hr_response_header x)) (\<lambda>h.
     let (h', hli) = length_info h; b1 = put_header (hr_response_header x) h' b
     in case hli of None \<Rightarrow> Inr b1 | Some v \<Rightarrow> upd_relay p (\<lambda>x. x\<lparr>hr_has_length_info := v\<rparr>) b1))"

text \<open>\<open>n\<close> is what \<^verbatim>\<open>send\<close> takes; the callback reports success whatever that is.\<close>

definition relay_session_send_callback :: "int \<Rightarrow> char list \<Rightarrow> ('u, 's, 'z) h2 \<Rightarrow> (int \<times> ('u, 's, 'z) h2) res" where
  "relay_session_send_callback n data b =
     rbind (deref (s_conn_tunnel b)) (\<lambda>c.
     rbind (tcp_conn_write n c data b) (\<lambda>(rc, b1). Inr (int (length data), b1)))"

definition relay_on_message_complete :: "('u, 's, 'z) relay_eventcb \<Rightarrow> nat \<Rightarrow> ('u, 's, 'z) h2 \<Rightarrow> ('u, 's, 'z) h2 res" where
  "relay_on_message_complete ucb p b =
     rbind (upd_relay p (\<lambda>x. x\<lparr>hr_relay_status := RELAY_STATUS_MSG_COMPLETE\<rparr>) b) (relay_cb ucb p RELAY_MSG_COMPLETE)"

definition relay_on_response_header_complete :: "('u, 's, 'z) relay_eventcb \<Rightarrow> nat \<Rightarrow> ('u, 's, 'z) h2 \<Rightarrow> ('u, 's, 'z) h2 res" where
  "relay_on_response_header_complete ucb p b =
     rbind (upd_relay p (\<lambda>x. x\<lparr>hr_relay_status := RELAY_STATUS_HEADER_COMPLETE\<rparr>) b) (relay_cb ucb p RELAY_HEADER_COMPLETE)"

definition relay_free :: "('u, 's, 'z) ng \<Rightarrow> nat \<Rightarrow> ('u, 's, 'z) h2 \<Rightarrow> ('u, 's, 'z) h2 res" where
  "relay_free NG p b =
     rbind (look (h_relay b) p) (\<lambda>x.
     rbind (deref (hr_session x)) (\<lambda>ses.
     let b1 = on_session (nghttp2_session_set_stream_user_data NG ses (hr_stream_id x) None) b;
         b2 = b1\<lparr>s_list_relays := remove1 p (s_list_relays b1)\<rparr>
     in rbind (case hr_tmr_connectd x of
                 None \<Rightarrow> Inr b2
               | Some t \<Rightarrow> rbind (ep_timer_del t b2) (ep_timer_free t)) (\<lambda>b3.
        Inr (b3\<lparr>h_relay := (h_relay b3)(p := None)\<rparr>))))"

text \<open>\<^verbatim>\<open>frame->hd.flags && NGHTTP2_FLAG_END_STREAM\<close> holds of every frame with a flag.\<close>

definition relay_session_on_frame_recv_callback :: "('u, 's, 'z) ng \<Rightarrow> ('u, 's, 'z) relay_eventcb \<Rightarrow> nat \<Rightarrow> nghttp2_frame
    \<Rightarrow> ('u, 's, 'z) h2 \<Rightarrow> ('u, 's, 'z) h2 res" where
  "relay_session_on_frame_recv_callback NG ucb ses fr b =
     (case nghttp2_session_get_stream_user_data NG ses (fr_stream_id fr) (ng_state b) of
        None \<Rightarrow> Inr b
      | Some p \<Rightarrow> rbind (look (h_relay b) p) (\<lambda>x.
          if \<not> hr_is_attached x then Inr b
          else if fr_type fr = NGHTTP2_DATA
          then (if fr_flags fr \<noteq> 0 \<and> NGHTTP2_FLAG_END_STREAM \<noteq> 0 then relay_on_message_complete ucb p b else Inr b)
          else if fr_type fr = NGHTTP2_HEADERS
          then let is_end_stream = (and (fr_flags fr) NGHTTP2_FLAG_END_STREAM \<noteq> 0);
                   is_end_header = (and (fr_flags fr) NGHTTP2_FLAG_END_HEADERS \<noteq> 0)
               in rbind (if is_end_header
                         then rbind (if is_end_stream then Inr b
                                     else rbind (deref (hr_request_header x)) (\<lambda>q.
                                          rbind (look (h_header b) q) (\<lambda>h.
                                          rbind (cstr_at (hd_method h)) (\<lambda>mth.
                                          if strcaseeq mth ''connect'' then Inr b else relay_check_length_info p b))))
                                    (relay_on_response_header_complete ucb p)
                         else Inr b) (\<lambda>b1.
                  if is_end_stream then relay_on_message_complete ucb p b1 else Inr b1)
          else if fr_type fr = NGHTTP2_RST_STREAM
          then rbind (relay_cb ucb p RELAY_ERR_CONN_FAILED b) (relay_free NG p)
          else Inr b))"

definition relay_on_stream_close_callback :: "('u, 's, 'z) ng \<Rightarrow> nat \<Rightarrow> int \<Rightarrow> ('u, 's, 'z) h2 \<Rightarrow> ('u, 's, 'z) h2 res" where
  "relay_on_stream_close_callback NG ses stream_id b =
     (case nghttp2_session_get_stream_user_data NG ses stream_id (ng_state b) of
        None \<Rightarrow> Inr b
      | Some p \<Rightarrow> relay_free NG p b)"

definition relay_on_data_chunk_recv_callback :: "('u, 's, 'z) ng \<Rightarrow> ('u, 's, 'z) relay_eventcb \<Rightarrow> nat \<Rightarrow> int \<Rightarrow> char list
    \<Rightarrow> ('u, 's, 'z) h2 \<Rightarrow> ('u, 's, 'z) h2 res" where
  "relay_on_data_chunk_recv_callback NG ucb ses stream_id data b =
     (let local_window_len = nghttp2_session_get_stream_effective_recv_data_length NG ses stream_id (ng_state b);
          session_window_len = nghttp2_session_get_effective_local_window_size NG ses (ng_state b)
      in case nghttp2_session_get_stream_user_data NG ses stream_id (ng_state b) of
           None \<Rightarrow> Inr b
         | Some p \<Rightarrow> rbind (look (h_relay b) p) (\<lambda>x.
             if \<not> hr_is_attached x then Inr b
             else rbind (upd_relay p (\<lambda>x. x\<lparr>hr_body_data := Some data, hr_body_len := int (length data)\<rparr>) b) (\<lambda>b1.
                  rbind (relay_cb ucb p RELAY_BODY b1) (\<lambda>b2.
                  rbind (look (h_relay b2) p) (\<lambda>y.
                  let upd = (\<not> hr_is_response_read_suspend y \<and> local_window_len > 30000);
                      b3 = (if upd then on_session (nghttp2_submit_window_update NG ses stream_id local_window_len) b2 else b2);
                      b4 = (if session_window_len > 30000
                            then on_session (nghttp2_submit_window_update NG ses 0 session_window_len) b3 else b3)
                  in if upd \<or> session_window_len > 30000 then nghttp2_session_send NG ses b4 else Inr b4)))))"

text \<open>\<^verbatim>\<open>atoi\<close>: white space, a sign, digits; \<^verbatim>\<open>strtol\<close> saturates and the result is cut to an \<^verbatim>\<open>int\<close>.\<close>

definition is_space :: "char \<Rightarrow> bool" where
  "is_space c \<longleftrightarrow> c \<in> {SP, TAB, LF, CR, FF, CHR 0x0B}"

definition atoi :: "string \<Rightarrow> int" where
  "atoi s =
     (let t = dropWhile is_space s; neg = (t \<noteq> [] \<and> hd t = CHR ''-'');
          ds = (if t \<noteq> [] \<and> (hd t = CHR ''-'' \<or> hd t = CHR ''+'') then tl t else t);
          v = foldl (\<lambda>v c. v * 10 + int (digit_val c)) 0 (takeWhile IS_NUM ds)
      in int32 (max (- (2 ^ 63)) (min (2 ^ 63 - 1) (if neg then - v else v))))"

text \<open>The arrays \<^verbatim>\<open>sz_field\<close> and \<^verbatim>\<open>sz_value\<close> are filled by \<^verbatim>\<open>strncpy\<close> with their own size and then read as strings.\<close>

definition relay_on_header_callback :: "('u, 's, 'z) ng \<Rightarrow> nat \<Rightarrow> nghttp2_frame \<Rightarrow> string \<Rightarrow> string
    \<Rightarrow> ('u, 's, 'z) h2 \<Rightarrow> ('u, 's, 'z) h2 res" where
  "relay_on_header_callback NG ses fr nam val b =
     rbind (rbind (strncpy (replicate 1024 NUL) nam 1024) cstr_at) (\<lambda>sz_field.
     rbind (rbind (strncpy (replicate 4096 NUL) val 4096) cstr_at) (\<lambda>sz_value.
     if fr_type fr \<noteq> NGHTTP2_HEADERS \<or> fr_cat fr \<noteq> NGHTTP2_HCAT_RESPONSE then Inr b
     else case nghttp2_session_get_stream_user_data NG ses (fr_stream_id fr) (ng_state b) of
       None \<Rightarrow> Inr b
     | Some p \<Rightarrow> rbind (look (h_relay b) p) (\<lambda>x.
         rbind (look (h_header b) (hr_response_header x)) (\<lambda>h.
         Inr (put_header (hr_response_header x)
               (if strcaseeq sz_field '':status'' then h\<lparr>hd_status_code := atoi sz_value\<rparr>
                else header_add_pair h sz_field sz_value) b)))))"

definition relay_on_begin_headers_callback :: "nghttp2_frame \<Rightarrow> ('u, 's, 'z) h2 \<Rightarrow> ('u, 's, 'z) h2 res" where
  "relay_on_begin_headers_callback fr b = Inr b"

section \<open>The tunnel\<close>

definition relay_init_h2_session :: "('u, 's, 'z) ng \<Rightarrow> ('u, 's, 'z) h2 \<Rightarrow> ('u, 's, 'z) h2 res" where
  "relay_init_h2_session NG b =
     (let (ses, s1) = nghttp2_session_client_new NG (ng_state b);
          (rv, s2) = nghttp2_submit_settings NG ses [(NGHTTP2_SETTINGS_MAX_CONCURRENT_STREAMS, 100)] s1
      in nghttp2_session_send NG ses (b\<lparr>ng_state := s2, s_session := Some ses\<rparr>))"

text \<open>The loop over the relays, with the saved successor; it carries fuel because the owner could add relays.\<close>

fun drop_loop :: "('u, 's, 'z) ng \<Rightarrow> ('u, 's, 'z) relay_eventcb \<Rightarrow> nat \<Rightarrow> timer_cursor \<Rightarrow> ('u, 's, 'z) h2
    \<Rightarrow> ('u, 's, 'z) h2 res" where
  "drop_loop NG ucb n At_Head b = Inr b"
| "drop_loop NG ucb n Poisoned b = Inl Bad_Pointer"
| "drop_loop NG ucb 0 (At p) b = Inl No_Return"
| "drop_loop NG ucb (Suc n) (At p) b =
     rbind (look (h_relay b) p) (\<lambda>x.
     let tmp = next_in p (s_list_relays b)
     in rbind (if hr_is_attached x then relay_cb ucb p RELAY_ERR_CONN_FAILED b else Inr b) (\<lambda>b1.
        rbind (relay_free NG p b1) (\<lambda>b2. drop_loop NG ucb n tmp b2)))"

definition drop_all_clients :: "('u, 's, 'z) ng \<Rightarrow> ('u, 's, 'z) relay_eventcb \<Rightarrow> nat \<Rightarrow> ('u, 's, 'z) h2
    \<Rightarrow> ('u, 's, 'z) h2 res" where
  "drop_all_clients NG ucb n b = drop_loop NG ucb n (first_in (s_list_relays b)) b"

definition tunnel_lost :: "('u, 's, 'z) ng \<Rightarrow> ('u, 's, 'z) relay_eventcb \<Rightarrow> nat \<Rightarrow> nat \<Rightarrow> ('u, 's, 'z) h2
    \<Rightarrow> ('u, 's, 'z) h2 res" where
  "tunnel_lost NG ucb n conn b =
     rbind (tcp_conn_detect conn 0 (- 1) b) (\<lambda>b1.
     rbind (tcp_conn_close conn b1) (\<lambda>b2.
     rbind (drop_all_clients NG ucb n b2) (\<lambda>b3. Inr (b3\<lparr>s_session := None\<rparr>))))"

text \<open>\<open>rd\<close> is what \<^verbatim>\<open>recv\<close> delivers, at most 4096 bytes.\<close>

definition relay_tunnel_eventcb :: "('u, 's, 'z) ng \<Rightarrow> ('u, 's, 'z) relay_eventcb \<Rightarrow> nat \<Rightarrow> char list option
    \<Rightarrow> ('u h2_callback, unit, ('s, 'z) h2_base_ext) conn_user" where
  "relay_tunnel_eventcb NG ucb n rd d conn what b =
     (if what = CONN_WRITE \<and> s_tunnel_connecting b
      then rbind (relay_init_h2_session NG b) (\<lambda>b1.
           tcp_conn_detect conn CONN_READ (- 1) (b1\<lparr>s_tunnel_connecting := True\<rparr>))
      else if what = CONN_READ
      then rbind (deref (s_conn_tunnel b)) (\<lambda>t.
           rbind (tcp_conn_read rd t b) (\<lambda>(recv_len, data).
           if recv_len \<le> 0 then tunnel_lost NG ucb n conn b
           else rbind (deref (s_session b)) (\<lambda>ses.
                rbind (nghttp2_session_mem_recv NG ses data b) (\<lambda>b1.
                rbind (deref (s_session b1)) (\<lambda>ses1. nghttp2_session_send NG ses1 b1)))))
      else if and what CONN_ERROR \<noteq> 0 then tunnel_lost NG ucb n conn b
      else Inr b)"

text \<open>\<open>sock\<close> is what \<^verbatim>\<open>socket\<close> returns.\<close>

definition relay_sys_init :: "int \<Rightarrow> ('u, 's, 'z) h2 \<Rightarrow> ('u, 's, 'z) h2 res" where
  "relay_sys_init sock b =
     rbind (tcp_conn_create sock () (b\<lparr>s_list_relays := []\<rparr>)) (\<lambda>(c, b1).
     rbind (tcp_conn_detect c CONN_WRITE (30 * 1000) (b1\<lparr>s_conn_tunnel := Some c\<rparr>)) (\<lambda>b2.
     Inr (b2\<lparr>s_tunnel_connecting := True\<rparr>)))"

section \<open>The body of a request\<close>

text \<open>The loop of \<^verbatim>\<open>relay_data_source_read_callback\<close>; \<open>out\<close> is what has been copied to \<^verbatim>\<open>buf\<close>.\<close>

fun read_source_loop :: "ep_buffer list \<Rightarrow> int \<Rightarrow> char list \<Rightarrow> (ep_buffer list \<times> char list) res" where
  "read_source_loop [] len out = Inr ([], out)"
| "read_source_loop (pos # rest) len out =
     (let len_left = len - int (length out); len_avalible = eb_len_total pos - eb_len_sent pos;
          len_cpy = (if len_left < len_avalible then len_left else len_avalible)
      in rbind (mem_read (eb_buf pos) (eb_len_sent pos) len_cpy) (\<lambda>bs.
         let pos' = pos\<lparr>eb_len_sent := eb_len_sent pos + len_cpy\<rparr>
         in if eb_len_sent pos' = eb_len_total pos' then read_source_loop rest len (out @ bs)
            else Inr (pos' # rest, out @ bs)))"

text \<open>The result: what the callback returns, the data and \<^verbatim>\<open>*data_flags\<close>, and the state.\<close>

definition relay_data_source_read_callback :: "nat \<Rightarrow> int \<Rightarrow> ('u, 's, 'z) h2 \<Rightarrow> (int \<times> char list \<times> int \<times> ('u, 's, 'z) h2) res" where
  "relay_data_source_read_callback p len b =
     rbind (look (h_relay b) p) (\<lambda>x.
     rbind (read_source_loop (hr_list_write_buf x) len []) (\<lambda>(q, out).
     rbind (upd_relay p (\<lambda>x. x\<lparr>hr_list_write_buf := q\<rparr>) b) (\<lambda>b1.
     if out = []
     then if hr_is_request_complete x \<and> q = [] then Inr (0, [], NGHTTP2_DATA_FLAG_EOF, b1)
          else Inr (NGHTTP2_ERR_DEFERRED, [], 0, b1)
     else Inr (int (length out), out, 0, b1))))"

definition relay_write_body :: "('u, 's, 'z) ng \<Rightarrow> nat \<Rightarrow> char list \<Rightarrow> ('u, 's, 'z) h2 \<Rightarrow> ('u, 's, 'z) h2 res" where
  "relay_write_body NG p data b =
     rbind (ep_buffer_create data (int (length data))) (\<lambda>write_buf.
     rbind (upd_relay p (\<lambda>x. x\<lparr>hr_list_write_buf := hr_list_write_buf x @ [write_buf]\<rparr>) b) (\<lambda>b1.
     rbind (look (h_relay b1) p) (\<lambda>x.
     rbind (deref (hr_session x)) (\<lambda>ses.
     if hr_relay_status x \<ge> RELAY_STATUS_REQUEST_SENT
     then nghttp2_session_send NG ses (on_session (nghttp2_session_resume_data NG ses (hr_stream_id x)) b1)
     else Inr b1))))"

definition relay_complete_request :: "nat \<Rightarrow> ('u, 's, 'z) h2 \<Rightarrow> ('u, 's, 'z) h2 res" where
  "relay_complete_request p b = upd_relay p (\<lambda>x. x\<lparr>hr_is_request_complete := True\<rparr>) b"

section \<open>Creating and closing a relay\<close>

definition relay_tmrcb :: "('u, 's, 'z) relay_eventcb \<Rightarrow> nat \<Rightarrow> ('u, 's, 'z) h2 \<Rightarrow> ('u, 's, 'z) h2 res" where
  "relay_tmrcb ucb p b = relay_cb ucb p (if s_session b \<noteq> None then RELAY_CONNECTED else RELAY_ERR_CONN_FAILED) b"

definition relay_create :: "nat \<Rightarrow> ('u, 's, 'z) h2 \<Rightarrow> (nat \<times> ('u, 's, 'z) h2) res" where
  "relay_create args b =
     (let p = b_next b; hdr = Suc p;
          (t, b1) = ep_timer_new (Conn_User (Relay_Tmr p)) (b\<lparr>b_next := Suc hdr\<rparr>);
          x = \<lparr>hr_session = s_session b, hr_request_header = None, hr_response_header = hdr, hr_tmr_connectd = Some t,
               hr_args = args, hr_body_data = None, hr_body_len = 0, hr_stream_id = 0, hr_has_length_info = False,
               hr_is_request_complete = False, hr_is_response_read_suspend = False, hr_is_attached = True,
               hr_list_write_buf = [], hr_relay_status = RELAY_STATUS_CONNECTING,
               hr_local_window_size = NGHTTP2_INITIAL_WINDOW_SIZE\<rparr>
      in rbind (ep_timer_add t 0 (put_header hdr header_new (b1\<lparr>h_relay := (h_relay b1)(p \<mapsto> x)\<rparr>))) (\<lambda>b2.
         Inr (p, b2\<lparr>s_list_relays := s_list_relays b2 @ [p]\<rparr>)))"

definition relay_close :: "('u, 's, 'z) ng \<Rightarrow> nat \<Rightarrow> ('u, 's, 'z) h2 \<Rightarrow> ('u, 's, 'z) h2 res" where
  "relay_close NG p b =
     rbind (look (h_relay b) p) (\<lambda>x.
     rbind (deref (hr_session x)) (\<lambda>ses.
     rbind (nghttp2_session_send NG ses (on_session (nghttp2_submit_rst_stream NG ses (hr_stream_id x) 0) b)) (\<lambda>b1.
     upd_relay p (\<lambda>x. x\<lparr>hr_is_attached := False\<rparr>) b1)))"

definition relay_get_header :: "nat \<Rightarrow> ('u, 's, 'z) h2 \<Rightarrow> nat res" where
  "relay_get_header p b = rbind (look (h_relay b) p) (\<lambda>x. Inr (hr_response_header x))"

definition relay_get_body :: "nat \<Rightarrow> ('u, 's, 'z) h2 \<Rightarrow> (char list option \<times> int) res" where
  "relay_get_body p b = rbind (look (h_relay b) p) (\<lambda>x. Inr (hr_body_data x, hr_body_len x))"

definition relay_get_status :: "nat \<Rightarrow> ('u, 's, 'z) h2 \<Rightarrow> int res" where
  "relay_get_status p b = rbind (look (h_relay b) p) (\<lambda>x. Inr (hr_relay_status x))"

definition relay_suspend_read :: "nat \<Rightarrow> ('u, 's, 'z) h2 \<Rightarrow> ('u, 's, 'z) h2 res" where
  "relay_suspend_read p b = upd_relay p (\<lambda>x. x\<lparr>hr_is_response_read_suspend := True\<rparr>) b"

definition relay_resume_read :: "('u, 's, 'z) ng \<Rightarrow> nat \<Rightarrow> ('u, 's, 'z) h2 \<Rightarrow> ('u, 's, 'z) h2 res" where
  "relay_resume_read NG p b =
     rbind (look (h_relay b) p) (\<lambda>x.
     rbind (deref (hr_session x)) (\<lambda>ses.
     let local_window_len = nghttp2_session_get_stream_effective_recv_data_length NG ses (hr_stream_id x) (ng_state b)
     in rbind (if hr_is_response_read_suspend x \<and> local_window_len > 30000
               then nghttp2_session_send NG ses (on_session (nghttp2_submit_window_update NG ses (hr_stream_id x) local_window_len) b)
               else Inr b) (\<lambda>b1.
        upd_relay p (\<lambda>x. x\<lparr>hr_is_response_read_suspend := False\<rparr>) b1)))"

section \<open>Sending a request\<close>

definition strcpy :: "char list \<Rightarrow> string \<Rightarrow> char list res" where
  "strcpy dst src = memcpy_at dst 0 (src @ [NUL])"

text \<open>The copy of a component of the URL into a zeroed array of \<open>sz\<close> bytes, if the component is there.\<close>

definition url_part :: "nat \<Rightarrow> string \<Rightarrow> http_parser_url \<Rightarrow> http_parser_url_fields \<Rightarrow> char list res" where
  "url_part sz url u f =
     (if f \<in> field_set u
      then strncpy (replicate sz NUL) (drop (unat (uf_get (fd_off u) f)) url) (unat (uf_get (fd_len u) f))
      else Inr (replicate sz NUL))"

definition request_path :: "string \<Rightarrow> http_parser_url \<Rightarrow> char list res" where
  "request_path url u =
     rbind (url_part 4096 url u UF_PATH) (\<lambda>path.
     rbind (if path ! 0 = NUL then strcat path ''/'' else Inr path) (\<lambda>path.
     rbind (if UF_QUERY \<in> field_set u
            then rbind (rbind (url_part 4096 url u UF_QUERY) cstr_at) (\<lambda>query. append_format path 4096 (''?'' @ query))
            else Inr path) (\<lambda>path.
     if UF_FRAGMENT \<in> field_set u
     then rbind (rbind (url_part 512 url u UF_FRAGMENT) cstr_at) (\<lambda>flagment. append_format path 4096 (''#'' @ flagment))
     else Inr path)))"

definition request_authority :: "string \<Rightarrow> http_parser_url \<Rightarrow> header \<Rightarrow> char list res" where
  "request_authority url u h =
     rbind (url_part 128 url u UF_HOST) (\<lambda>authority.
     rbind (if UF_PORT \<in> field_set u then url_part 10 url u UF_PORT else strcpy (replicate 10 NUL) ''80'') (\<lambda>port_buf.
     if authority ! 0 \<noteq> NUL
     then rbind (strcat authority '':'') (\<lambda>authority. rbind (cstr_at port_buf) (\<lambda>pt. strcat authority pt))
     else case header_value h ''host'' of None \<Rightarrow> Inr authority | Some host \<Rightarrow> strcpy authority host))"

definition relay_make_nv :: "string \<Rightarrow> string \<Rightarrow> nghttp2_nv" where
  "relay_make_nv nam val = \<lparr>nv_name = nam, nv_value = val\<rparr>"

definition hop_by_hop :: "string \<Rightarrow> bool" where
  "hop_by_hop f \<longleftrightarrow> strcaseeq f ''Host'' \<or> strcaseeq f ''proxy-connection'' \<or> strcaseeq f ''connection'' \<or> strcaseeq f ''keep-alive''"

text \<open>The array \<^verbatim>\<open>nvs[100]\<close>, filled from its start.\<close>

definition request_nvs :: "string \<Rightarrow> string \<Rightarrow> string \<Rightarrow> string \<Rightarrow> (string \<times> string) list \<Rightarrow> nghttp2_nv list res" where
  "request_nvs mth path schma authority fs =
     (let nvs = relay_make_nv '':method'' mth
                # (if strcaseeq mth ''connect'' then [] else [relay_make_nv '':path'' path, relay_make_nv '':scheme'' schma])
                @ relay_make_nv '':authority'' authority
                # map (\<lambda>(f, v). relay_make_nv f v) (filter (\<lambda>(f, v). \<not> hop_by_hop f) fs)
      in if length nvs \<le> 100 then Inr nvs else Inl Out_Of_Bounds)"

definition relay_send_request :: "('u, 's, 'z) ng \<Rightarrow> nat \<Rightarrow> nat \<Rightarrow> ('u, 's, 'z) h2 \<Rightarrow> ('u, 's, 'z) h2 res" where
  "relay_send_request NG p hdr b =
     rbind (look (h_header b) hdr) (\<lambda>h.
     rbind (upd_relay p (\<lambda>x. x\<lparr>hr_request_header := Some hdr\<rparr>) b) (\<lambda>b1.
     rbind (cstr_at (hd_method h)) (\<lambda>mth.
     rbind (deref (hd_url h)) (\<lambda>url.
     let is_connect = strcaseeq mth ''connect''
     in rbind (http_parser_parse_url url is_connect url_zero) (\<lambda>(rc, u).
        rbind (url_part 24 url u UF_SCHEMA) (\<lambda>schma.
        rbind (request_path url u) (\<lambda>path.
        rbind (request_authority url u h) (\<lambda>authority.
        rbind (if schma ! 0 = NUL then strcpy schma ''http'' else Inr schma) (\<lambda>schma.
        rbind (cstr_at schma) (\<lambda>sc. rbind (cstr_at path) (\<lambda>pa. rbind (cstr_at authority) (\<lambda>au.
        rbind (request_nvs mth pa sc au (hd_list_headers h)) (\<lambda>nvs.
        let provider = (header_value h ''upgrade'' \<noteq> None \<or> strcaseeq mth ''post'' \<or> is_connect)
        in rbind (deref (s_session b1)) (\<lambda>ses.
           let (sid, st) = nghttp2_submit_request NG ses nvs provider p (ng_state b1)
           in rbind (upd_relay p (\<lambda>x. x\<lparr>hr_stream_id := sid\<rparr>) (b1\<lparr>ng_state := st\<rparr>)) (\<lambda>b2.
              rbind (nghttp2_session_send NG ses (on_session (nghttp2_session_set_stream_user_data NG ses sid (Some p)) b2)) (\<lambda>b3.
              upd_relay p (\<lambda>x. x\<lparr>hr_relay_status := RELAY_STATUS_REQUEST_SENT\<rparr>) b3))))))))))))))))"

text \<open>The event loop with the tunnel and the relays on it; \<open>user\<close> handles the files and timers of the clients.\<close>

definition h2_handlers :: "('u, 's, 'z) ng \<Rightarrow> ('u, 's, 'z) relay_eventcb \<Rightarrow> nat \<Rightarrow> char list option
    \<Rightarrow> ('u h2_callback conn_file, ('u, 's, 'z) h2) ep_handlers \<Rightarrow> ('u h2_callback conn_file, ('u, 's, 'z) h2) ep_handlers" where
  "h2_handlers NG ucb n rd user = conn_handlers (relay_tunnel_eventcb NG ucb n rd)
     \<lparr>on_file = on_file user,
      on_timer = (\<lambda>c t b. case c of Conn_User (Relay_Tmr p) \<Rightarrow> relay_tmrcb ucb p b | _ \<Rightarrow> on_timer user c t b)\<rparr>"

end
