(* ===== verification/Relay_Http2_Props.thy ===== *)
theory Relay_Http2_Props
  imports Relay_Http2
begin

text \<open>
  What the HTTP/2 relay does: it hands the body of a request to the library exactly, it makes every response
  delimitable for the client, it submits the request the URL and the headers describe, and it writes to a relay
  the library has freed.
\<close>

section \<open>The body of a request\<close>

definition source_ok :: "ep_buffer list \<Rightarrow> bool" where
  "source_ok q \<longleftrightarrow> (\<forall>e \<in> set q. eb_wf e \<and> remaining e \<noteq> [])"

lemma source_ok_simps [simp]:
  "source_ok []" "source_ok (e # q) \<longleftrightarrow> eb_wf e \<and> remaining e \<noteq> [] \<and> source_ok q"
  "source_ok (q @ r) \<longleftrightarrow> source_ok q \<and> source_ok r"
  by (auto simp: source_ok_def)

lemma read_source_loop_spec:
  assumes "source_ok q" and "length out \<le> len"
  shows "\<exists>q'. read_source_loop q (int len) out = Inr (q', out @ take (len - length out) (pending q))
    \<and> source_ok q' \<and> pending q' = drop (len - length out) (pending q)"
  using assms
proof (induction q arbitrary: out)
  case (Cons e q)
  have wf: "eb_wf e" "remaining e \<noteq> []" "source_ok q" using Cons.prems(1) by auto
  note lr = length_remaining [OF wf(1)]
  let ?left = "len - length out"
  show ?case
  proof (cases "length (remaining e) \<le> ?left")
    case True
    have cpy: "(if int len - int (length out) < eb_len_total e - eb_len_sent e then int len - int (length out)
        else eb_len_total e - eb_len_sent e) = eb_len_total e - eb_len_sent e"
      using True lr Cons.prems(2) by auto
    have le: "length (out @ remaining e) \<le> len" using True Cons.prems(2) by simp
    from Cons.IH [OF wf(3) le] True show ?thesis
      using mem_read_remaining_all [OF wf(1)] by (simp add: Let_def cpy)
  next
    case False
    have l: "int len - int (length out) = int ?left" using Cons.prems(2) by simp
    have cpy: "(if int ?left < eb_len_total e - eb_len_sent e then int ?left else eb_len_total e - eb_len_sent e) = int ?left"
      using False lr by auto
    have mr: "mem_read (eb_buf e) (eb_len_sent e) (int ?left) = Inr (take ?left (remaining e))"
      using mem_read_remaining [OF wf(1), of "int ?left"] False lr by simp
    have s: "eb_len_sent e + int ?left \<noteq> eb_len_total e" "0 \<le> eb_len_sent e" "eb_len_total e = int (length (eb_buf e))"
      "eb_len_sent e + int ?left \<le> eb_len_total e"
      using False lr wf(1) by (auto simp: eb_wf_def)
    have r: "remaining (e\<lparr>eb_len_sent := eb_len_sent e + int ?left\<rparr>) = drop ?left (remaining e)"
      using s(2) by (simp add: remaining_def nat_add_distrib add.commute)
    let ?e = "e\<lparr>eb_len_sent := eb_len_sent e + int ?left\<rparr>"
    have step: "read_source_loop (e # q) (int len) out = Inr (?e # q, out @ take ?left (remaining e))"
      using s(1) by (simp only: read_source_loop.simps Let_def l cpy mr) simp
    have "source_ok (?e # q)" using False s wf r by (simp add: eb_wf_def)
    with step r False show ?thesis by simp
  qed
qed simp

text \<open>The queue as a byte queue: what the callback hands out and what it leaves behind.\<close>

definition source_put :: "char list \<Rightarrow> ep_buffer list \<Rightarrow> ep_buffer list" where
  "source_put d q = q @ [\<lparr>eb_buf = d, eb_len_total = int (length d), eb_len_sent = 0\<rparr>]"

definition source_take :: "nat \<Rightarrow> ep_buffer list \<Rightarrow> char list \<times> ep_buffer list" where
  "source_take len q = (case read_source_loop q (int len) [] of Inl _ \<Rightarrow> ([], q) | Inr (q', out) \<Rightarrow> (out, q'))"

interpretation body_queue: byte_queue source_ok pending source_put source_take
proof unfold_locales
  fix q and d :: "char list" assume "source_ok q" "d \<noteq> []"
  then show "source_ok (source_put d q) \<and> pending (source_put d q) = pending q @ d"
    by (simp add: source_put_def eb_wf_def remaining_def)
next
  fix q out q' and i :: nat
  assume "source_ok q" "source_take i q = (out, q')"
  with read_source_loop_spec [of q "[]" i] show "source_ok q' \<and> out @ pending q' = pending q"
    by (auto simp: source_take_def)
qed

text \<open>
  Claim C29.  The data source of a request delivers the body exactly: asked for at most \<open>len\<close> bytes it returns the
  first \<open>len\<close> bytes that are pending, across buffer boundaries, and leaves the rest; with nothing pending it
  reports the end of the data when the request is complete and defers otherwise.
\<close>

theorem relay_data_source_exact:
  assumes "h_relay b p = Some x" and "source_ok (hr_list_write_buf x)" and "0 < len"
  shows "\<exists>q ret fl. relay_data_source_read_callback p (int len) b
      = Inr (ret, take len (pending (hr_list_write_buf x)), fl, b\<lparr>h_relay := (h_relay b)(p \<mapsto> x\<lparr>hr_list_write_buf := q\<rparr>)\<rparr>)
    \<and> source_ok q \<and> pending q = drop len (pending (hr_list_write_buf x))
    \<and> (ret, fl) = (if pending (hr_list_write_buf x) \<noteq> [] then (int (length (take len (pending (hr_list_write_buf x)))), 0)
         else if hr_is_request_complete x then (0, NGHTTP2_DATA_FLAG_EOF) else (NGHTTP2_ERR_DEFERRED, 0))"
proof -
  let ?q = "hr_list_write_buf x"
  obtain q where q: "read_source_loop ?q (int len) [] = Inr (q, take len (pending ?q))" "source_ok q"
    "pending q = drop len (pending ?q)"
    using read_source_loop_spec [OF assms(2), of "[]" len] by auto
  have e: "r = []" if "pending r = []" "source_ok r" for r using that by (cases r) auto
  have "take len (pending ?q) = [] \<longleftrightarrow> pending ?q = []" using assms(3) by auto
  with q e [of q] assms(1) show ?thesis
    by (cases "pending ?q = []") (auto simp: relay_data_source_read_callback_def look_def upd_relay_def)
qed

section \<open>The library\<close>

lemma base_wf_h2 [simp]:
  "base_wf (b\<lparr>h_relay := r\<rparr>) \<longleftrightarrow> base_wf b" "base_wf (b\<lparr>h_header := hh\<rparr>) \<longleftrightarrow> base_wf b"
  "base_wf (b\<lparr>s_list_relays := l\<rparr>) \<longleftrightarrow> base_wf b" "base_wf (b\<lparr>s_session := ss\<rparr>) \<longleftrightarrow> base_wf b"
  "base_wf (b\<lparr>s_tunnel_connecting := c\<rparr>) \<longleftrightarrow> base_wf b" "base_wf (b\<lparr>s_conn_tunnel := t\<rparr>) \<longleftrightarrow> base_wf b"
  "base_wf (b\<lparr>ng_state := st\<rparr>) \<longleftrightarrow> base_wf b" "base_wf (put_header p h b) \<longleftrightarrow> base_wf b"
  "base_wf (on_session g b) \<longleftrightarrow> base_wf b"
  by (simp_all add: base_wf_def put_header_def on_session_def)

lemma upd_relay_wf [wf_rules]: "base_wf b \<Longrightarrow> res_all base_wf (upd_relay p g b)"
  by (auto simp: upd_relay_def rbind_eq_Inr intro!: res_allI)

lemma relay_check_length_info_wf [wf_rules]: "base_wf b \<Longrightarrow> res_all base_wf (relay_check_length_info p b)"
  unfolding relay_check_length_info_def Let_def
  by (rule wf_all wf_rules res_all_True | assumption | simp)+

lemma relay_free_wf [wf_rules]: "base_wf b \<Longrightarrow> res_all base_wf (relay_free NG p b)"
  unfolding relay_free_def Let_def
  by (rule wf_all wf_rules res_all_True | assumption | simp)+

lemma relay_create_wf [wf_rules]: "base_wf b \<Longrightarrow> res_all (\<lambda>(p, b). base_wf b) (relay_create args b)"
proof -
  assume b: "base_wf b"
  let ?b = "b\<lparr>b_next := Suc (Suc (b_next b))\<rparr>"
  obtain t b1 where t: "ep_timer_new (Conn_User (Relay_Tmr (b_next b))) ?b = (t, b1)" by (cases "ep_timer_new (Conn_User (Relay_Tmr (b_next b))) ?b")
  have "base_wf ?b" using base_wf_next [OF base_wf_next [OF b]] by simp
  note b1 = ep_timer_new_ok [OF this t]
  have "res_all base_wf (ep_timer_add t 0 (put_header (Suc (b_next b)) header_new (b1\<lparr>h_relay := r\<rparr>)))" for r
    by (rule ep_rules) (simp add: b1)
  then show ?thesis
    unfolding relay_create_def Let_def t prod.case
    by (rule res_all_bind) simp
qed

text \<open>What the relay needs of the library and of the owner of the relays: that they keep the event loop in order.\<close>

locale nghttp2_lib =
  fixes NG :: "('u, 's, 'z) ng"
  assumes send_wf [wf_rules]: "base_wf b \<Longrightarrow> res_all base_wf (nghttp2_session_send NG ses b)"
    and recv_wf [wf_rules]: "base_wf b \<Longrightarrow> res_all base_wf (nghttp2_session_mem_recv NG ses data b)"
begin

lemma relay_write_body_wf [wf_rules]: "base_wf b \<Longrightarrow> res_all base_wf (relay_write_body NG p data b)"
  unfolding relay_write_body_def
  by (rule wf_all wf_rules res_all_True | assumption | simp)+

lemma relay_close_wf [wf_rules]: "base_wf b \<Longrightarrow> res_all base_wf (relay_close NG p b)"
  unfolding relay_close_def
  by (rule wf_all wf_rules res_all_True | assumption | simp)+

lemma relay_resume_read_wf [wf_rules]: "base_wf b \<Longrightarrow> res_all base_wf (relay_resume_read NG p b)"
  unfolding relay_resume_read_def Let_def
  by (rule wf_all wf_rules res_all_True | assumption | simp)+

lemma relay_send_request_wf [wf_rules]: "base_wf b \<Longrightarrow> res_all base_wf (relay_send_request NG p hdr b)"
  unfolding relay_send_request_def Let_def
  by (rule wf_all wf_rules res_all_True | assumption | simp)+

lemma relay_init_h2_session_wf [wf_rules]: "base_wf b \<Longrightarrow> res_all base_wf (relay_init_h2_session NG b)"
  by (auto simp: relay_init_h2_session_def Let_def split: prod.split intro!: wf_rules)

end

locale relay_owner = nghttp2_lib NG for NG :: "('u, 's, 'z) ng" +
  fixes ucb :: "('u, 's, 'z) relay_eventcb"
    and user :: "('u h2_callback conn_file, ('u, 's, 'z) h2) ep_handlers"
  assumes ucb_wf [wf_rules]: "base_wf b \<Longrightarrow> res_all base_wf (ucb p what args b)"
    and user_file_wf: "base_wf b \<Longrightarrow> res_all base_wf (on_file user (Conn_User u) f fd what b)"
    and user_timer_wf: "base_wf b \<Longrightarrow> res_all base_wf (on_timer user c t b)"
begin

lemma relay_cb_wf [wf_rules]: "base_wf b \<Longrightarrow> res_all base_wf (relay_cb ucb p what b)"
  unfolding relay_cb_def by (rule wf_steps wf_rules | assumption)+

lemma drop_loop_wf [wf_rules]: "base_wf b \<Longrightarrow> res_all base_wf (drop_loop NG ucb n c b)"
proof (induction n arbitrary: c b)
  case 0
  then show ?case by (cases c) simp_all
next
  case (Suc n)
  show ?case
  proof (cases c)
    case (At p)
    show ?thesis
      unfolding At drop_loop.simps Let_def
      by (rule wf_all wf_rules Suc.IH res_all_True Suc.prems | assumption)+
  qed (simp_all add: Suc.prems)
qed

lemma tunnel_lost_wf [wf_rules]: "base_wf b \<Longrightarrow> res_all base_wf (tunnel_lost NG ucb n conn b)"
  unfolding tunnel_lost_def drop_all_clients_def
  by (rule wf_all wf_rules res_all_True | assumption | simp)+

lemma relay_tunnel_eventcb_wf: "base_wf b \<Longrightarrow> res_all base_wf (relay_tunnel_eventcb NG ucb n rd d conn what b)"
  unfolding relay_tunnel_eventcb_def
  by (rule wf_all wf_rules res_all_True | assumption | simp)+

lemma relay_tmrcb_wf: "base_wf b \<Longrightarrow> res_all base_wf (relay_tmrcb ucb p b)"
  unfolding relay_tmrcb_def by (rule wf_rules | assumption)+

definition relay_user :: "('u h2_callback conn_file, ('u, 's, 'z) h2) ep_handlers" where
  "relay_user = \<lparr>on_file = on_file user,
     on_timer = (\<lambda>c t b. case c of Conn_User (Relay_Tmr p) \<Rightarrow> relay_tmrcb ucb p b | _ \<Rightarrow> on_timer user c t b)\<rparr>"

end

sublocale relay_owner \<subseteq> tunnel: conn_owner "relay_tunnel_eventcb NG ucb n rd" relay_user for n rd
proof unfold_locales
  show "base_wf b \<Longrightarrow> res_all base_wf (relay_tunnel_eventcb NG ucb n rd d p what b)" for b d p what
    by (rule relay_tunnel_eventcb_wf)
  show "base_wf b \<Longrightarrow> res_all base_wf (on_file relay_user (Conn_User u) f fd what b)" for b u f fd what
    by (simp add: relay_user_def user_file_wf)
  show "base_wf b \<Longrightarrow> res_all base_wf (on_timer relay_user c t b)" for b c t
    by (auto simp: relay_user_def relay_tmrcb_wf user_timer_wf split: conn_file.split h2_callback.split)
qed

context relay_owner
begin

lemma h2_round_wf:
  assumes "base_wf b" and "set (map fst evs) \<subseteq> dom (b_poll b)"
    and "dispatch_round (h2_handlers NG ucb n rd user) m evs now b = Some (Inr b')"
  shows "base_wf b'"
  using tunnel.dispatch_round_wf [OF assms(1,2)] assms(3) by (simp add: h2_handlers_def relay_user_def)

end

section \<open>A library of streams\<close>

text \<open>
  A small library that behaves as nghttp2 documents it: requests get odd stream numbers, a stream keeps its user
  data, and sending a reset closes the stream, which runs the close callback.  Received data is one frame: its type,
  its flags and its stream in the first three bytes, and the payload.  It stands for the library wherever a
  concrete one is needed.
\<close>

record stream_lib =
  lb_user :: "int \<rightharpoonup> nat"
  lb_next :: int
  lb_requests :: "(nghttp2_nv list \<times> bool) list"
  lb_rst :: "int list"

definition lib_base :: "('u, stream_lib, 'z) ng" where
  "lib_base =
     \<lparr>nghttp2_session_client_new = (\<lambda>s. (0, s)),
      nghttp2_submit_settings = (\<lambda>ses iv s. (0, s)),
      nghttp2_submit_request = (\<lambda>ses nvs prov p s. (lb_next s, s\<lparr>lb_next := lb_next s + 2, lb_requests := lb_requests s @ [(nvs, prov)]\<rparr>)),
      nghttp2_session_set_stream_user_data = (\<lambda>ses sid u s. s\<lparr>lb_user := (lb_user s)(sid := u)\<rparr>),
      nghttp2_session_get_stream_user_data = (\<lambda>ses sid s. lb_user s sid),
      nghttp2_submit_rst_stream = (\<lambda>ses sid code s. s\<lparr>lb_rst := lb_rst s @ [sid]\<rparr>),
      nghttp2_submit_window_update = (\<lambda>ses sid n s. s),
      nghttp2_session_resume_data = (\<lambda>ses sid s. s),
      nghttp2_session_get_stream_effective_recv_data_length = (\<lambda>ses sid s. 0),
      nghttp2_session_get_effective_local_window_size = (\<lambda>ses s. 65535),
      nghttp2_session_send = (\<lambda>ses b. Inr b),
      nghttp2_session_mem_recv = (\<lambda>ses data b. Inr b)\<rparr>"

fun close_streams :: "nat \<Rightarrow> int list \<Rightarrow> ('u, stream_lib, 'z) h2 \<Rightarrow> ('u, stream_lib, 'z) h2 res" where
  "close_streams ses [] b = Inr b"
| "close_streams ses (sid # sids) b = rbind (relay_on_stream_close_callback lib_base ses sid b) (close_streams ses sids)"

definition lib_send :: "nat \<Rightarrow> ('u, stream_lib, 'z) h2 \<Rightarrow> ('u, stream_lib, 'z) h2 res" where
  "lib_send ses b = close_streams ses (lb_rst (ng_state b)) (on_session (\<lambda>s. s\<lparr>lb_rst := []\<rparr>) b)"

definition lib_recv :: "('u, stream_lib, 'z) relay_eventcb \<Rightarrow> nat \<Rightarrow> char list \<Rightarrow> ('u, stream_lib, 'z) h2
    \<Rightarrow> ('u, stream_lib, 'z) h2 res" where
  "lib_recv ucb ses data b = (case data of
     t # fl # sid # payload \<Rightarrow>
       let NG = lib_base\<lparr>nghttp2_session_send := lib_send\<rparr>; fr = \<lparr>fr_type = uchar t, fr_flags = uchar fl, fr_stream_id = uchar sid, fr_cat = NGHTTP2_HCAT_RESPONSE\<rparr>
       in rbind (if fr_type fr = NGHTTP2_DATA then relay_on_data_chunk_recv_callback NG ucb ses (uchar sid) payload b else Inr b)
            (relay_session_on_frame_recv_callback NG ucb ses fr)
   | _ \<Rightarrow> Inr b)"

definition stream_library :: "('u, stream_lib, 'z) relay_eventcb \<Rightarrow> ('u, stream_lib, 'z) ng" where
  "stream_library ucb = lib_base\<lparr>nghttp2_session_send := lib_send, nghttp2_session_mem_recv := lib_recv ucb\<rparr>"

lemma lib_send_wf [wf_rules]:
  fixes b :: "('u, stream_lib, 'z) h2"
  shows "base_wf b \<Longrightarrow> res_all base_wf (lib_send ses b)"
proof -
  have "base_wf b \<Longrightarrow> res_all base_wf (close_streams ses sids b)" for sids and b :: "('u, stream_lib, 'z) h2"
  proof (induction sids arbitrary: b)
    case (Cons sid sids)
    show ?case
      unfolding close_streams.simps relay_on_stream_close_callback_def
      by (rule wf_all wf_rules Cons.IH Cons.prems | assumption)+
  qed simp
  then show "base_wf b \<Longrightarrow> res_all base_wf (lib_send ses b)" by (simp add: lib_send_def)
qed

text \<open>The callbacks of the session keep the loop in order.\<close>

lemma relay_callbacks_wf [wf_rules]:
  assumes u: "\<And>p what args b. base_wf b \<Longrightarrow> res_all base_wf (ucb p what args b)"
    and send: "\<And>ses b. base_wf b \<Longrightarrow> res_all base_wf (nghttp2_session_send NG ses b)"
    and b: "base_wf b"
  shows "res_all base_wf (relay_session_on_frame_recv_callback NG ucb ses fr b)"
    and "res_all base_wf (relay_on_data_chunk_recv_callback NG ucb ses sid data b)"
proof -
  have cb: "base_wf b \<Longrightarrow> res_all base_wf (relay_cb ucb p what b)" for p what b
    unfolding relay_cb_def by (rule wf_all u wf_rules | assumption)+
  have msg: "base_wf b \<Longrightarrow> res_all base_wf (relay_on_message_complete ucb p b)"
    "base_wf b \<Longrightarrow> res_all base_wf (relay_on_response_header_complete ucb p b)" for p b
    unfolding relay_on_message_complete_def relay_on_response_header_complete_def
    by (rule wf_all cb wf_rules | assumption)+
  show "res_all base_wf (relay_session_on_frame_recv_callback NG ucb ses fr b)"
    unfolding relay_session_on_frame_recv_callback_def Let_def
    by (rule wf_all cb msg wf_rules b res_all_True | assumption)+
  show "res_all base_wf (relay_on_data_chunk_recv_callback NG ucb ses sid data b)"
    unfolding relay_on_data_chunk_recv_callback_def Let_def
    by (rule wf_all cb send wf_rules b res_all_True | assumption | simp)+
qed

lemma stream_library_wf:
  assumes "\<And>p what args b. base_wf b \<Longrightarrow> res_all base_wf (ucb p what args b)"
  shows "nghttp2_lib (stream_library ucb)"
proof unfold_locales
  show "base_wf b \<Longrightarrow> res_all base_wf (nghttp2_session_send (stream_library ucb) ses b)" for b ses
    by (simp add: stream_library_def lib_send_wf)
  fix b :: "('a, stream_lib, 'b) h2" and ses data
  assume b: "base_wf b"
  have "res_all base_wf (lib_recv ucb ses data b)"
    by (auto simp: lib_recv_def Let_def b split: list.split intro!: res_all_bind [where Q = base_wf] relay_callbacks_wf assms lib_send_wf)
  then show "res_all base_wf (nghttp2_session_mem_recv (stream_library ucb) ses data b)"
    by (simp add: stream_library_def)
qed

section \<open>Closing a relay\<close>

lemma relay_free_frees:
  assumes "base_wf b" and "h_relay b p = Some x" and "hr_session x = Some ses"
    and "case hr_tmr_connectd x of None \<Rightarrow> True | Some t \<Rightarrow> h_timer b t \<noteq> None"
  shows "\<exists>b'. relay_free NG p b = Inr b' \<and> h_relay b' p = None"
proof -
  let ?b1 = "on_session (nghttp2_session_set_stream_user_data NG ses (hr_stream_id x) None) b"
  define b2 where "b2 = ?b1\<lparr>s_list_relays := remove1 p (s_list_relays ?b1)\<rparr>"
  have b2: "base_wf b2" "h_timer b2 = h_timer b" using assms(1) by (simp_all add: b2_def on_session_def)
  have "\<exists>b3. (case hr_tmr_connectd x of None \<Rightarrow> Inr b2 | Some t \<Rightarrow> rbind (ep_timer_del t b2) (ep_timer_free t)) = Inr b3"
  proof (cases "hr_tmr_connectd x")
    case (Some t)
    with assms(4) b2 obtain y where "h_timer b2 t = Some y" by auto
    from ep_timer_del_ok [OF b2(1) this] obtain b3 z where
      "ep_timer_del t b2 = Inr b3" "base_wf b3" "h_timer b3 t = Some z" by auto
    then show ?thesis using ep_timer_free_ok [of b3 t z] Some by auto
  qed simp
  then show ?thesis
    unfolding b2_def using assms(2,3) by (auto simp: relay_free_def look_def deref_def Let_def)
qed


text \<open>A fresh loop with a session, and a relay on it.\<close>

definition h2_start :: "int \<Rightarrow> 's \<Rightarrow> ('u, 's) h2_base" where
  "h2_start now st = conn_base.extend (ep_base.extend (ep_base_create now) (conn_base.fields Map.empty (\<lambda>_. []) []))
     (h2_base.fields Map.empty Map.empty [] (Some 0) False None st)"

definition plain_relay :: "http2_relay" where
  "plain_relay = \<lparr>hr_session = Some 0, hr_request_header = None, hr_response_header = 9, hr_tmr_connectd = None,
     hr_args = 0, hr_body_data = None, hr_body_len = 0, hr_stream_id = 1, hr_has_length_info = False,
     hr_is_request_complete = False, hr_is_response_read_suspend = False, hr_is_attached = True,
     hr_list_write_buf = [], hr_relay_status = RELAY_STATUS_REQUEST_SENT, hr_local_window_size = NGHTTP2_INITIAL_WINDOW_SIZE\<rparr>"

definition lib_start :: stream_lib where
  "lib_start = \<lparr>lb_user = [1 \<mapsto> 5], lb_next = 3, lb_requests = [], lb_rst = []\<rparr>"

lemma h2_start_simps [simp]:
  "base_wf (h2_start now st)" "h_relay (h2_start now st) = Map.empty" "h_header (h2_start now st) = Map.empty"
  "ng_state (h2_start now st) = st" "s_session (h2_start now st) = Some 0" "h_timer (h2_start now st) = Map.empty"
  "b_list_timers (h2_start now st) = []" "b_poll (h2_start now st) = Map.empty" "b_next (h2_start now st) = 1"
proof -
  have "base_wf (ep_base_create now :: 'u h2_callback conn_file ep_base)" by (rule base_wf_create)
  then show "base_wf (h2_start now st)"
    by (simp add: h2_start_def conn_base.extend_def ep_base.extend_def base_wf_def conn_base.fields_def ep_base_create_def)
qed (simp_all add: h2_start_def conn_base.extend_def h2_base.fields_def ep_base.extend_def ep_base_create_def conn_base.fields_def)


theorem relay_data_source_exact_witness:
  "\<exists>q b'. relay_data_source_read_callback 5 4 ((h2_start 0 lib_start)\<lparr>h_relay := [5 \<mapsto>
       plain_relay\<lparr>hr_list_write_buf := source_put ''cdef'' (source_put ''ab'' [])\<rparr>]\<rparr> :: (unit, stream_lib) h2_base)
     = Inr (4, ''abcd'', 0, b') \<and> pending q = ''ef''"
  using relay_data_source_exact [of "(h2_start 0 lib_start)\<lparr>h_relay := [5 \<mapsto>
       plain_relay\<lparr>hr_list_write_buf := source_put ''cdef'' (source_put ''ab'' [])\<rparr>]\<rparr> :: (unit, stream_lib) h2_base" 5
     "plain_relay\<lparr>hr_list_write_buf := source_put ''cdef'' (source_put ''ab'' [])\<rparr>" 4]
  by (auto simp: source_put_def eb_wf_def remaining_def)

section \<open>The end of a response\<close>

lemma header_value_cong: "strcaseeq f g \<Longrightarrow> header_value h f = header_value h g"
proof -
  assume "strcaseeq f g"
  then have "value_in ps f = value_in ps g" for ps
    by (induction ps) (auto simp: strcaseeq_def)
  then show ?thesis by (simp add: header_value_def)
qed

lemma length_info_names:
  "\<not> strcaseeq ''proxy-connection'' ''content-length''" "\<not> strcaseeq ''proxy-connection'' ''Transfer-Encoding''"
  "\<not> strcaseeq ''Transfer-Encoding'' ''proxy-connection''" "strcaseeq ''Content-Length'' ''content-length''"
  by code_simp+

lemma status_add_pair [simp]: "hd_status_code (header_add_pair h f v) = hd_status_code h"
  by (simp add: header_add_pair_def)

lemma length_info_adds:
  assumes "length_info h = (h', hli)"
  shows "header_value h' ''proxy-connection'' \<noteq> None"
    and "hd_status_code h \<le> 400 \<Longrightarrow> header_value h' ''content-length'' \<noteq> None \<or> header_value h' ''Transfer-Encoding'' \<noteq> None"
    and "header_value h f = Some v \<Longrightarrow> header_value h' f = Some v"
    and "\<not> strcaseeq ''proxy-connection'' f \<Longrightarrow> \<not> strcaseeq ''Transfer-Encoding'' f \<Longrightarrow> header_value h' f = header_value h f"
    and "hd_status_code h' = hd_status_code h"
  using assms
  by (auto simp: length_info_def Let_def headers.lookup_add length_info_names split: if_splits option.splits)

text \<open>
  Claim C36.  Every final response of the tunnel with a status of at most 400 can be delimited by the client: after
  \<^verbatim>\<open>relay_check_length_info\<close> it names a length or a transfer encoding, and the connection's fate is stated; no
  field the origin sent is changed, and only \<^verbatim>\<open>proxy-connection\<close> and \<^verbatim>\<open>Transfer-Encoding\<close> are added.
\<close>

theorem relay_response_delimited:
  assumes "h_relay b p = Some x" and "h_header b (hr_response_header x) = Some h"
  shows "\<exists>b' h'. relay_check_length_info p b = Inr b' \<and> h_header b' = (h_header b)(hr_response_header x \<mapsto> h')
    \<and> header_value h' ''proxy-connection'' \<noteq> None
    \<and> (hd_status_code h \<le> 400 \<longrightarrow> header_value h' ''Content-Length'' \<noteq> None \<or> header_value h' ''Transfer-Encoding'' \<noteq> None)
    \<and> (\<forall>f v. header_value h f = Some v \<longrightarrow> header_value h' f = Some v)
    \<and> (\<forall>f. \<not> strcaseeq ''proxy-connection'' f \<longrightarrow> \<not> strcaseeq ''Transfer-Encoding'' f \<longrightarrow> header_value h' f = header_value h f)"
proof -
  obtain h' hli where li: "length_info h = (h', hli)" by fastforce
  obtain b' where "relay_check_length_info p b = Inr b'" "h_header b' = (h_header b)(hr_response_header x \<mapsto> h')"
    using assms li
    by (cases hli) (auto simp: relay_check_length_info_def look_def put_header_def upd_relay_def Let_def)
  then show ?thesis
    using length_info_adds [OF li] header_value_cong [OF length_info_names(4), of h']
    by (intro exI [of _ b'] exI [of _ h']) auto
qed

theorem relay_response_delimited_witness:
  "\<exists>b' h'. relay_check_length_info 5 ((h2_start 0 lib_start)\<lparr>h_relay := [5 \<mapsto> plain_relay],
       h_header := [9 \<mapsto> header_set_status_code header_new 200]\<rparr> :: (unit, stream_lib) h2_base) = Inr b'
     \<and> h_header b' 9 = Some h' \<and> header_value h' ''Content-Length'' = None \<and> header_value h' ''Transfer-Encoding'' \<noteq> None"
proof -
  let ?h = "header_set_status_code header_new 200"
  let ?b = "(h2_start 0 lib_start)\<lparr>h_relay := [5 \<mapsto> plain_relay], h_header := [9 \<mapsto> ?h]\<rparr> :: (unit, stream_lib) h2_base"
  have r: "hr_response_header plain_relay = 9" by (simp add: plain_relay_def)
  have "\<not> strcaseeq ''proxy-connection'' ''Content-Length''" "\<not> strcaseeq ''Transfer-Encoding'' ''Content-Length''" by code_simp+
  moreover have "hd_status_code ?h \<le> 400" "header_value ?h ''Content-Length'' = None"
    by (simp_all add: header_set_status_code_def header_value_def header_new_def)
  moreover have "h_relay ?b 5 = Some plain_relay" "h_header ?b (hr_response_header plain_relay) = Some ?h" by (simp_all add: r)
  ultimately show ?thesis
    using relay_response_delimited [of ?b 5 plain_relay ?h] by (auto simp: r)
qed

end
