(* ===== verification/Client.thy ===== *)
theory Client
  imports Relay_Http2_Props Http_Parser_Run Ep_Buf_Tcp
begin

text \<open>
  The clients of the proxy, \<^verbatim>\<open>client.c\<close>, and the listening socket of \<^verbatim>\<open>server.c\<close>.  A client owns a file of the event
  loop, a request parser, the headers of its requests, a queue of response bytes the kernel has not taken, and a
  relay.  The state is that of the HTTP/2 relay, extended by the heap of clients and by what the kernel sees of their
  sockets: the bytes it has accepted from each and the descriptors closed.  \<open>cl_io\<close> holds what the coming calls
  of \<^verbatim>\<open>send\<close> will answer; when it is used up the kernel takes everything.
\<close>

section \<open>The state\<close>

definition RECV_BUFFER_SIZE :: nat where [simp]: "RECV_BUFFER_SIZE = 4096"

datatype client_callback = Client_File nat | Listen_File

text \<open>A \<^verbatim>\<open>struct client_write_buffer\<close> has the fields of an \<^verbatim>\<open>ep_buffer\<close>.\<close>

type_synonym client_write_buffer = ep_buffer

record client =
  cl_client_fd :: int
  cl_file :: "nat option"
  cl_relay_sys :: bool
  cl_relay :: "nat option"
  cl_request_header :: "nat option"
  cl_pending_request_header :: "nat option"
  cl_parser :: "unit http_parser"
  cl_list_response_write_buffer :: "client_write_buffer list"
  cl_list_request_body_buffer :: "ep_buffer list"
  cl_pending_write :: int

record 's cl_base = "(client_callback, 's) h2_base" +
  h_client :: "nat \<rightharpoonup> client"
  s_list_clients :: "nat list"
  s_idle_relay_bucket :: "nat list list"
  cl_sent :: "int \<Rightarrow> char list"
  cl_closed :: "int list"
  cl_io :: "io_result list"

type_synonym ('s, 'z) cls = "('s, 'z) cl_base_scheme"
type_synonym ('s, 'z) cl_ng = "(client_callback, 's, 'z cl_base_ext) ng"

definition upd_client :: "nat \<Rightarrow> (client \<Rightarrow> client) \<Rightarrow> ('s, 'z) cls \<Rightarrow> ('s, 'z) cls res" where
  "upd_client c g b = rbind (look (h_client b) c) (\<lambda>x. Inr (b\<lparr>h_client := (h_client b)(c \<mapsto> g x)\<rparr>))"

text \<open>\<^verbatim>\<open>client->relay_sys\<close> is null until the headers of the first request are complete.\<close>

definition sys_of :: "client \<Rightarrow> unit res" where
  "sys_of x = (if cl_relay_sys x then Inr () else Inl Bad_Pointer)"

text \<open>\<^verbatim>\<open>client->relay_sys->f(client->relay, ...)\<close>.\<close>

definition with_relay :: "nat \<Rightarrow> (nat \<Rightarrow> ('s, 'z) cls \<Rightarrow> 'r res) \<Rightarrow> ('s, 'z) cls \<Rightarrow> 'r res" where
  "with_relay c f b = rbind (look (h_client b) c) (\<lambda>x. rbind (sys_of x) (\<lambda>_. rbind (deref (cl_relay x)) (\<lambda>r. f r b)))"

text \<open>\<^verbatim>\<open>send\<close>: an error, or a number of bytes of the data, which the kernel then owns.\<close>

definition sys_send :: "int \<Rightarrow> char list \<Rightarrow> ('s, 'z) cls \<Rightarrow> io_result \<times> ('s, 'z) cls" where
  "sys_send fd data b =
     (let r = (case cl_io b of [] \<Rightarrow> \<lparr>io_ret = int (length data), io_errno = 0\<rparr> | r # _ \<Rightarrow> r);
          n = (if io_ret r < 0 then - 1 else min (io_ret r) (int (length data)))
      in (r\<lparr>io_ret := n\<rparr>, b\<lparr>cl_io := tl (cl_io b), cl_sent := (cl_sent b)(fd := cl_sent b fd @ take (nat n) data)\<rparr>))"

section \<open>Writing to a client\<close>

definition client_write :: "nat \<Rightarrow> char list \<Rightarrow> ('s, 'z) cls \<Rightarrow> (int \<times> ('s, 'z) cls) res" where
  "client_write c data b =
     rbind (look (h_client b) c) (\<lambda>x.
     let len = int (length data)
     in if cl_list_response_write_buffer x = []
        then let (r, b1) = sys_send (cl_client_fd x) data b
             in if io_ret r < len
                then if io_ret r < 0 \<and> io_errno r \<noteq> EINPROGRESS then Inr (- 1, b1)
                     else let len_write = (if io_ret r < 0 then 0 else io_ret r)
                          in rbind (deref (cl_file x)) (\<lambda>f.
                             rbind (ep_file_get_detect f b1) (\<lambda>detect.
                             rbind (ep_file_get_timeout f b1) (\<lambda>timeout.
                             rbind (mem_read data len_write (len - len_write)) (\<lambda>bs.
                             rbind (upd_client c (\<lambda>x. x\<lparr>cl_list_response_write_buffer := cl_list_response_write_buffer x
                                       @ [\<lparr>eb_buf = bs, eb_len_total = len - len_write, eb_len_sent = 0\<rparr>],
                                     cl_pending_write := int32 (cl_pending_write x + (len - len_write))\<rparr>) b1) (\<lambda>b2.
                             rbind (ep_file_detect f (or detect EP_WRITE) timeout b2) (\<lambda>b3. Inr (0, b3)))))))
                else Inr (0, b1)
        else rbind (upd_client c (\<lambda>x. x\<lparr>cl_list_response_write_buffer := cl_list_response_write_buffer x
                       @ [\<lparr>eb_buf = data, eb_len_total = len, eb_len_sent = 0\<rparr>],
                     cl_pending_write := int32 (cl_pending_write x + len)\<rparr>) b) (\<lambda>b1. Inr (0, b1)))"

section \<open>Dropping a client\<close>

definition drop_header :: "nat option \<Rightarrow> ('s, 'z) cls \<Rightarrow> ('s, 'z) cls res" where
  "drop_header p b = (case p of None \<Rightarrow> Inr b
     | Some q \<Rightarrow> rbind (look (h_header b) q) (\<lambda>h. Inr (b\<lparr>h_header := (h_header b)(q := None)\<rparr>)))"

definition client_drop :: "('s, 'z) cl_ng \<Rightarrow> nat \<Rightarrow> ('s, 'z) cls \<Rightarrow> ('s, 'z) cls res" where
  "client_drop NG c b =
     rbind (look (h_client b) c) (\<lambda>x.
     rbind (upd_client c (\<lambda>x. x\<lparr>cl_list_response_write_buffer := []\<rparr>)
              (b\<lparr>s_list_clients := remove1 c (s_list_clients b)\<rparr>)) (\<lambda>b1.
     rbind (if cl_relay x \<noteq> None then with_relay c (relay_close NG) b1 else Inr b1) (\<lambda>b2.
     rbind (look (h_client b2) c) (\<lambda>x.
     rbind (drop_header (cl_request_header x) b2) (\<lambda>b3.
     rbind (drop_header (cl_pending_request_header x) b3) (\<lambda>b4.
     rbind (case cl_file x of None \<Rightarrow> Inr b4
            | Some f \<Rightarrow> rbind (ep_file_detect f 0 (- 1) b4) (ep_file_free f)) (\<lambda>b5.
     let b6 = (if cl_client_fd x \<noteq> 0 then b5\<lparr>cl_closed := cl_closed b5 @ [cl_client_fd x]\<rparr> else b5)
     in Inr (b6\<lparr>h_client := (h_client b6)(c := None)\<rparr>))))))))"

section \<open>Events of the relay\<close>

text \<open>The loop over the request body that came before the relay was connected.\<close>

fun send_bodies :: "('s, 'z) cl_ng \<Rightarrow> nat \<Rightarrow> ep_buffer list \<Rightarrow> ('s, 'z) cls \<Rightarrow> ('s, 'z) cls res" where
  "send_bodies NG c [] b = Inr b"
| "send_bodies NG c (pos # rest) b =
     rbind (mem_read (eb_buf pos) 0 (eb_len_total pos)) (\<lambda>bs.
     rbind (with_relay c (\<lambda>r. relay_write_body NG r bs) b) (\<lambda>b1.
     rbind (upd_client c (\<lambda>x. x\<lparr>cl_list_request_body_buffer := remove1 pos (cl_list_request_body_buffer x)\<rparr>) b1)
       (send_bodies NG c rest)))"

definition client_handle_relay_connected :: "('s, 'z) cl_ng \<Rightarrow> nat \<Rightarrow> ('s, 'z) cls \<Rightarrow> ('s, 'z) cls res" where
  "client_handle_relay_connected NG c b =
     rbind (look (h_client b) c) (\<lambda>x.
     rbind (cassert (cl_relay x \<noteq> None)) (\<lambda>_.
     rbind (deref (cl_file x)) (\<lambda>f.
     rbind (ep_file_detect f EP_READ (- 1) b) (\<lambda>b1.
     rbind (deref (cl_request_header x)) (\<lambda>hdr.
     rbind (with_relay c (\<lambda>r. relay_send_request NG r hdr) b1) (\<lambda>b2.
     rbind (look (h_client b2) c) (\<lambda>x.
     send_bodies NG c (cl_list_request_body_buffer x) b2)))))))"

definition client_handle_relay_hdr_complete :: "nat \<Rightarrow> ('s, 'z) cls \<Rightarrow> ('s, 'z) cls res" where
  "client_handle_relay_hdr_complete c b =
     rbind (with_relay c relay_get_header b) (\<lambda>p.
     rbind (look (h_header b) p) (\<lambda>resp_hdr.
     let status_str = get_status_string (hd_status_code resp_hdr) 0
     in rbind (cassert (status_str \<noteq> [])) (\<lambda>_.
        rbind (append_lines (replicate (50 * 4096) NUL) (50 * 4096)
                 ((''HTTP/1.1 '' @ status_str @ CRLF) # map header_line (hd_list_headers resp_hdr))) (\<lambda>buf.
        rbind (strcat buf CRLF) (\<lambda>buf.
        rbind (cstr_at buf) (\<lambda>str.
        rbind (client_write c str b) (\<lambda>(rc, b1). Inr b1)))))))"

definition is_chunked :: "header \<Rightarrow> bool" where
  "is_chunked h = (case header_value h ''Transfer-Encoding'' of None \<Rightarrow> False | Some te \<Rightarrow> strcaseeq te ''chunked'')"

definition client_handle_relay_body :: "nat \<Rightarrow> ('s, 'z) cls \<Rightarrow> ('s, 'z) cls res" where
  "client_handle_relay_body c b =
     rbind (with_relay c relay_get_header b) (\<lambda>p.
     rbind (look (h_header b) p) (\<lambda>resp_hdr.
     rbind (with_relay c relay_get_body b) (\<lambda>(ptr_body, len_body).
     rbind (deref ptr_body) (\<lambda>body.
     rbind (if is_chunked resp_hdr then client_write c (fmt_X (nat (len_body mod 2 ^ 32)) @ CRLF) b else Inr (0, b)) (\<lambda>(rc, b1).
     rbind (mem_read body 0 len_body) (\<lambda>bs.
     rbind (client_write c bs b1) (\<lambda>(rc, b2).
     rbind (if is_chunked resp_hdr then client_write c CRLF b2 else Inr (0, b2)) (\<lambda>(rc, b3).
     rbind (look (h_client b3) c) (\<lambda>x.
     if cl_pending_write x > 30000 then with_relay c relay_suspend_read b3 else Inr b3)))))))))"

text \<open>
  The relay of the request of a client, for its host; \<open>u\<close> is the uninitialised \<^verbatim>\<open>struct http_parser_url\<close> on the
  stack of \<^verbatim>\<open>header_get_host\<close> and \<^verbatim>\<open>header_get_host_port\<close>.
\<close>

definition new_relay :: "http_parser_url \<Rightarrow> nat \<Rightarrow> ('s, 'z) cls \<Rightarrow> ('s, 'z) cls res" where
  "new_relay u c b =
     rbind (look (h_client b) c) (\<lambda>x.
     rbind (deref (cl_request_header x)) (\<lambda>q.
     rbind (look (h_header b) q) (\<lambda>h.
     rbind (header_get_host_port h u) (\<lambda>port.
     rbind (header_get_host h u (replicate 255 NUL)) (\<lambda>host.
     rbind (relay_create c b) (\<lambda>(r, b1).
     upd_client c (\<lambda>x. x\<lparr>cl_relay := Some r\<rparr>) b1))))))"

definition client_handle_relay_msg_complete :: "('s, 'z) cl_ng \<Rightarrow> http_parser_url \<Rightarrow> nat \<Rightarrow> ('s, 'z) cls \<Rightarrow> ('s, 'z) cls res" where
  "client_handle_relay_msg_complete NG u c b =
     rbind (with_relay c relay_get_header b) (\<lambda>p.
     rbind (look (h_header b) p) (\<lambda>resp_hdr.
     rbind (if is_chunked resp_hdr then client_write c (''0'' @ CRLF @ CRLF) b else Inr (0, b)) (\<lambda>(rc, b1).
     rbind (upd_client c (\<lambda>x. x\<lparr>cl_relay := None\<rparr>) b1) (\<lambda>b2.
     if header_value resp_hdr ''Transfer-Encoding'' = None \<and> header_value resp_hdr ''Content-Length'' = None
     then client_drop NG c b2
     else rbind (look (h_client b2) c) (\<lambda>x.
          rbind (drop_header (cl_request_header x) b2) (\<lambda>b3.
          rbind (upd_client c (\<lambda>x. x\<lparr>cl_request_header := None\<rparr>) b3) (\<lambda>b4.
          if cl_pending_request_header x \<noteq> None
          then rbind (upd_client c (\<lambda>x. x\<lparr>cl_request_header := cl_pending_request_header x, cl_pending_request_header := None\<rparr>) b4)
                 (new_relay u c)
          else Inr b4)))))))"

definition client_relay_cb :: "('s, 'z) cl_ng \<Rightarrow> http_parser_url \<Rightarrow> (client_callback, 's, 'z cl_base_ext) relay_eventcb" where
  "client_relay_cb NG u relay what c b =
     (if what = RELAY_CONNECTED then client_handle_relay_connected NG c b
      else if what = RELAY_HEADER_COMPLETE then client_handle_relay_hdr_complete c b
      else if what = RELAY_BODY then client_handle_relay_body c b
      else if what = RELAY_MSG_COMPLETE then client_handle_relay_msg_complete NG u c b
      else if what = RELAY_ERR_CONN_FAILED
      then rbind (upd_client c (\<lambda>x. x\<lparr>cl_relay := None\<rparr>) b) (client_drop NG c)
      else if what = RELAY_ERR_DNS_FAILED
      then rbind (upd_client c (\<lambda>x. x\<lparr>cl_relay := None\<rparr>) b) (client_drop NG c)
      else Inr b)"

section \<open>The callbacks of the request parser\<close>

definition req_header :: "client \<Rightarrow> nat option" where
  "req_header x = (if cl_pending_request_header x \<noteq> None then cl_pending_request_header x else cl_request_header x)"

definition upd_req_header :: "nat \<Rightarrow> (header \<Rightarrow> header res) \<Rightarrow> ('s, 'z) cls \<Rightarrow> ('s, 'z) cls res" where
  "upd_req_header c g b =
     rbind (look (h_client b) c) (\<lambda>x.
     rbind (deref (req_header x)) (\<lambda>q.
     rbind (look (h_header b) q) (\<lambda>h.
     rbind (g h) (\<lambda>h'. Inr (b\<lparr>h_header := (h_header b)(q \<mapsto> h')\<rparr>)))))"

definition begin_message :: "nat \<Rightarrow> ('s, 'z) cls \<Rightarrow> ('s, 'z) cls res" where
  "begin_message c b =
     rbind (look (h_client b) c) (\<lambda>x.
     let q = b_next b; b1 = b\<lparr>b_next := Suc q, h_header := (h_header b)(q \<mapsto> header_new)\<rparr>
     in if cl_relay x \<noteq> None
        then rbind (cassert (cl_request_header x \<noteq> None)) (\<lambda>_. upd_client c (\<lambda>x. x\<lparr>cl_pending_request_header := Some q\<rparr>) b1)
        else rbind (cassert (cl_request_header x = None)) (\<lambda>_. upd_client c (\<lambda>x. x\<lparr>cl_request_header := Some q\<rparr>) b1))"

definition client_msg_begin :: "(('s, 'z) cls \<times> nat) http_cb" where
  "client_msg_begin ps = (let (b, c) = hp_data ps in cb_notify b c (begin_message c b))"

definition client_url_complete :: "(('s, 'z) cls \<times> nat) http_data_cb" where
  "client_url_complete ps d = (let (b, c) = hp_data ps in cb_notify b c (upd_req_header c (\<lambda>h. Inr (header_set_url h d)) b))"

definition client_header_fieldcb :: "(('s, 'z) cls \<times> nat) http_data_cb" where
  "client_header_fieldcb ps d = (let (b, c) = hp_data ps in cb_notify b c (upd_req_header c (\<lambda>h. header_append_field h d) b))"

definition client_header_valuecb :: "(('s, 'z) cls \<times> nat) http_data_cb" where
  "client_header_valuecb ps d = (let (b, c) = hp_data ps in cb_notify b c (upd_req_header c (\<lambda>h. header_append_value h d) b))"

definition complete_headers :: "http_parser_url \<Rightarrow> http_method \<Rightarrow> nat \<Rightarrow> ('s, 'z) cls \<Rightarrow> ('s, 'z) cls res" where
  "complete_headers u mth c b =
     rbind (upd_req_header c (\<lambda>h. rbind (header_set_method h (http_method_str mth)) header_append_complete) b) (\<lambda>b1.
     rbind (look (h_client b1) c) (\<lambda>x.
     rbind (deref (cl_file x)) (\<lambda>f.
     rbind (ep_file_detect f 0 (- 1) b1) (\<lambda>b2.
     rbind (upd_client c (\<lambda>x. x\<lparr>cl_relay_sys := True\<rparr>) b2) (\<lambda>b3.
     if req_header x = cl_request_header x then new_relay u c b3 else Inr b3)))))"

definition client_headers_completecb :: "http_parser_url \<Rightarrow> (('s, 'z) cls \<times> nat) http_cb" where
  "client_headers_completecb u ps = (let (b, c) = hp_data ps in cb_notify b c (complete_headers u (hp_method ps) c b))"

text \<open>
  A body before the relay is connected is queued by \<^verbatim>\<open>list_add_tail\<close> with its arguments exchanged: the list of
  the client is then the new buffer alone.
\<close>

definition body_piece :: "('s, 'z) cl_ng \<Rightarrow> nat \<Rightarrow> char list \<Rightarrow> ('s, 'z) cls \<Rightarrow> ('s, 'z) cls res" where
  "body_piece NG c d b =
     rbind (with_relay c relay_get_status b) (\<lambda>status.
     if status < RELAY_STATUS_CONNECTED
     then rbind (ep_buffer_create d (int (length d))) (\<lambda>buf.
          upd_client c (\<lambda>x. x\<lparr>cl_list_request_body_buffer := [buf]\<rparr>) b)
     else with_relay c (\<lambda>r. relay_write_body NG r d) b)"

definition client_bodycb :: "('s, 'z) cl_ng \<Rightarrow> (('s, 'z) cls \<times> nat) http_data_cb" where
  "client_bodycb NG ps d = (let (b, c) = hp_data ps in cb_notify b c (body_piece NG c d b))"

definition client_message_completecb :: "(('s, 'z) cls \<times> nat) http_cb" where
  "client_message_completecb ps = (let (b, c) = hp_data ps in cb_notify b c (with_relay c relay_complete_request b))"

definition htp_hooks :: "('s, 'z) cl_ng \<Rightarrow> http_parser_url \<Rightarrow> (('s, 'z) cls \<times> nat) http_parser_settings" where
  "htp_hooks NG u =
     \<lparr>on_message_begin = Some client_msg_begin, on_url = Some client_url_complete, on_status_complete = None,
      on_header_field = Some client_header_fieldcb, on_header_value = Some client_header_valuecb,
      on_headers_complete = Some (client_headers_completecb u), on_body = Some (client_bodycb NG),
      on_message_complete = Some client_message_completecb\<rparr>"

section \<open>Events of the socket\<close>

definition http_relay_sys_init :: "('s, 'z) cls \<Rightarrow> ('s, 'z) cls res" where
  "http_relay_sys_init b = Inr (b\<lparr>s_idle_relay_bucket := replicate IDLE_RELAY_BUCKET_COUNT []\<rparr>)"

definition client_init :: "int \<Rightarrow> ('s, 'z) cls \<Rightarrow> ('s, 'z) cls res" where
  "client_init sock b =
     rbind (relay_sys_init sock b) (\<lambda>b1.
     rbind (http_relay_sys_init b1) (\<lambda>b2. Inr (b2\<lparr>s_list_clients := []\<rparr>)))"

definition client_fini :: "('s, 'z) cls \<Rightarrow> ('s, 'z) cls res" where
  "client_fini b = Inr b"

text \<open>\<open>rd\<close> is what \<^verbatim>\<open>recv\<close> delivers: \<open>None\<close> an error, otherwise at most \<^verbatim>\<open>RECV_BUFFER_SIZE\<close> bytes.\<close>

definition client_readcb :: "('s, 'z) cl_ng \<Rightarrow> http_parser_url \<Rightarrow> char list option \<Rightarrow> nat \<Rightarrow> ('s, 'z) cls \<Rightarrow> ('s, 'z) cls res" where
  "client_readcb NG u rd c b =
     rbind (look (h_client b) c) (\<lambda>x.
     case rd of
       None \<Rightarrow> client_drop NG c b
     | Some bytes \<Rightarrow>
         if bytes = [] then client_drop NG c b
         else rbind (run_parser (htp_hooks NG u) bytes (cl_parser x) (b, c)) (\<lambda>(d, ps, n_parsed).
              upd_client c (\<lambda>x. x\<lparr>cl_parser := ps\<rparr>) (fst d)))"

text \<open>
  The loop over the queue: whether it stopped with an error, the queue and the count of pending bytes after it.
  An \<^verbatim>\<open>EINPROGRESS\<close> keeps the buffer and goes on with the next.
\<close>

fun write_loop :: "int \<Rightarrow> client_write_buffer list \<Rightarrow> int \<Rightarrow> ('s, 'z) cls
    \<Rightarrow> (bool \<times> client_write_buffer list \<times> int \<times> ('s, 'z) cls) res" where
  "write_loop fd [] pw b = Inr (False, [], pw, b)"
| "write_loop fd (pos # rest) pw b =
     rbind (mem_read (eb_buf pos) (eb_len_sent pos) (eb_len_total pos - eb_len_sent pos)) (\<lambda>bs.
     let (r, b1) = sys_send fd bs b; len_write = io_ret r
     in if len_write < 0
        then if io_errno r \<noteq> EINPROGRESS then Inr (True, pos # rest, pw, b1)
             else rbind (write_loop fd rest pw b1) (\<lambda>(er, q, pw', b2). Inr (er, pos # q, pw', b2))
        else if len_write < eb_len_total pos - eb_len_sent pos
        then Inr (False, pos\<lparr>eb_len_sent := eb_len_sent pos + len_write\<rparr> # rest, int32 (pw - len_write), b1)
        else write_loop fd rest (int32 (pw - len_write)) b1)"

text \<open>\<^verbatim>\<open>detect &= (!EP_WRITE)\<close> is 0, and in the first branch it is not used.\<close>

definition client_writecb :: "('s, 'z) cl_ng \<Rightarrow> nat \<Rightarrow> ('s, 'z) cls \<Rightarrow> ('s, 'z) cls res" where
  "client_writecb NG c b =
     rbind (look (h_client b) c) (\<lambda>x.
     rbind (deref (cl_file x)) (\<lambda>f.
     rbind (ep_file_get_detect f b) (\<lambda>detect.
     rbind (ep_file_get_timeout f b) (\<lambda>timeout.
     rbind (cassert (and detect EP_WRITE \<noteq> 0)) (\<lambda>_.
     if cl_list_response_write_buffer x = [] then with_relay c (relay_resume_read NG) b
     else rbind (write_loop (cl_client_fd x) (cl_list_response_write_buffer x) (cl_pending_write x) b) (\<lambda>(is_error, q, pw, b1).
          rbind (upd_client c (\<lambda>x. x\<lparr>cl_list_response_write_buffer := q, cl_pending_write := pw\<rparr>) b1) (\<lambda>b2.
          if is_error then client_drop NG c b2
          else rbind (if q = [] then ep_file_detect f (and detect 0) timeout b2 else Inr b2) (\<lambda>b3.
               if pw < 30000 then with_relay c (relay_resume_read NG) b3 else Inr b3))))))))"

definition client_eventcb :: "('s, 'z) cl_ng \<Rightarrow> http_parser_url \<Rightarrow> char list option \<Rightarrow> nat \<Rightarrow> int \<Rightarrow> ('s, 'z) cls
    \<Rightarrow> ('s, 'z) cls res" where
  "client_eventcb NG u rd c what b =
     (if what = EP_READ then client_readcb NG u rd c b
      else if and what EP_ERROR \<noteq> 0 then client_drop NG c b
      else if and what EP_WRITE \<noteq> 0 then client_writecb NG c b
      else Inr b)"

definition client_handle_fd :: "int \<Rightarrow> ('s, 'z) cls \<Rightarrow> ('s, 'z) cls res" where
  "client_handle_fd fd b =
     (let c = b_next b
      in rbind (ep_file_create fd (Conn_User (H2_User (Client_File c))) (b\<lparr>b_next := Suc c\<rparr>)) (\<lambda>(f, b1).
         rbind (ep_file_detect f EP_READ (30 * 1000)
                  (b1\<lparr>h_client := (h_client b1)(c \<mapsto>
                     \<lparr>cl_client_fd = fd, cl_file = Some f, cl_relay_sys = False, cl_relay = None, cl_request_header = None,
                      cl_pending_request_header = None, cl_parser = http_parser_init HTTP_REQUEST (),
                      cl_list_response_write_buffer = [], cl_list_request_body_buffer = [], cl_pending_write = 0\<rparr>)\<rparr>)) (\<lambda>b2.
         Inr (b2\<lparr>s_list_clients := s_list_clients b2 @ [c]\<rparr>))))"

text \<open>\<^verbatim>\<open>readcb\<close> of \<^verbatim>\<open>server.c\<close>; \<open>acc\<close> is what \<^verbatim>\<open>accept\<close> returns.\<close>

definition readcb :: "int \<Rightarrow> ('s, 'z) cls \<Rightarrow> ('s, 'z) cls res" where
  "readcb acc b = (if acc > 0 then client_handle_fd acc b else Inr b)"

section \<open>The proxy on the event loop\<close>

text \<open>
  What one round of the loop sees of the world: \<open>w_accept\<close> and \<open>w_recv\<close> are what \<^verbatim>\<open>accept\<close> and \<^verbatim>\<open>recv\<close> return on
  the clients' side, \<open>w_tunnel\<close> what \<^verbatim>\<open>recv\<close> returns on the tunnel, \<open>w_stack\<close> the uninitialised memory of the calls.
\<close>

record world =
  w_accept :: int
  w_recv :: "char list option"
  w_tunnel :: "char list option"
  w_stack :: http_parser_url

definition client_handlers :: "('s, 'z) cl_ng \<Rightarrow> world \<Rightarrow> (client_callback h2_callback conn_file, ('s, 'z) cls) ep_handlers" where
  "client_handlers NG w =
     \<lparr>on_file = (\<lambda>cb f fd what b. case cb of
         Conn_User (H2_User (Client_File c)) \<Rightarrow> client_eventcb NG (w_stack w) (w_recv w) c what b
       | Conn_User (H2_User Listen_File) \<Rightarrow> readcb (w_accept w) b
       | _ \<Rightarrow> Inr b),
      on_timer = (\<lambda>cb t b. Inr b)\<rparr>"

definition proxy_handlers :: "('s, 'z) cl_ng \<Rightarrow> world \<Rightarrow> nat \<Rightarrow> (client_callback h2_callback conn_file, ('s, 'z) cls) ep_handlers" where
  "proxy_handlers NG w n = h2_handlers NG (client_relay_cb NG (w_stack w)) n (w_tunnel w) (client_handlers NG w)"

end
