(* ===== verification/Client_Inv.thy ===== *)
theory Client_Inv
  imports Client
begin

text \<open>
  The whole proxy keeps the event loop in order: the clients, the HTTP/2 relay, the tunnel and the library, whatever
  the kernel and the peers deliver.
\<close>

lemma base_wf_cl [simp]:
  "base_wf (b\<lparr>h_client := h\<rparr>) \<longleftrightarrow> base_wf b" "base_wf (b\<lparr>s_list_clients := l\<rparr>) \<longleftrightarrow> base_wf b"
  "base_wf (b\<lparr>s_idle_relay_bucket := i\<rparr>) \<longleftrightarrow> base_wf b" "base_wf (b\<lparr>cl_sent := o'\<rparr>) \<longleftrightarrow> base_wf b"
  "base_wf (b\<lparr>cl_closed := cs\<rparr>) \<longleftrightarrow> base_wf b" "base_wf (b\<lparr>cl_io := io\<rparr>) \<longleftrightarrow> base_wf b"
  by (simp_all add: base_wf_def)

lemma upd_client_wf [wf_rules]: "base_wf b \<Longrightarrow> res_all base_wf (upd_client c g b)"
  by (auto simp: upd_client_def rbind_eq_Inr intro!: res_allI)

lemma sys_send_wf: "sys_send fd data b = (r, b1) \<Longrightarrow> base_wf b \<Longrightarrow> base_wf b1"
  by (auto simp: sys_send_def Let_def)

lemma with_relay_rule: "(\<And>r. res_all P (f r b)) \<Longrightarrow> res_all P (with_relay c f b)"
  unfolding with_relay_def by (rule wf_all res_all_True | assumption | simp)+

lemma base_wf_snd: "base_wf b \<Longrightarrow> res_all (\<lambda>(x, b). base_wf b) (Inr (r, b))"
  by simp

lemma client_write_wf [wf_rules]: "base_wf b \<Longrightarrow> res_all (\<lambda>(rc, b). base_wf b) (client_write c data b)"
  unfolding client_write_def Let_def
  by (rule wf_all wf_rules base_wf_snd res_all_True | assumption | erule sys_send_wf)+

lemma drop_header_wf [wf_rules]: "base_wf b \<Longrightarrow> res_all base_wf (drop_header p b)"
  unfolding drop_header_def by (rule wf_all wf_rules res_all_True | assumption | simp)+

lemma new_relay_wf [wf_rules]: "base_wf b \<Longrightarrow> res_all base_wf (new_relay u c b)"
  unfolding new_relay_def by (rule wf_all wf_rules res_all_True | assumption)+

lemma client_handle_relay_hdr_complete_wf [wf_rules]: "base_wf b \<Longrightarrow> res_all base_wf (client_handle_relay_hdr_complete c b)"
  unfolding client_handle_relay_hdr_complete_def Let_def by (rule wf_all wf_rules res_all_True | assumption)+

lemma relay_field_wf [wf_rules]:
  "res_all (\<lambda>(x, y). True) (relay_get_body r b)"
  "base_wf b \<Longrightarrow> res_all base_wf (relay_suspend_read r b)"
  "base_wf b \<Longrightarrow> res_all base_wf (relay_complete_request r b)"
  unfolding relay_suspend_read_def relay_complete_request_def
  by (auto intro: res_allI wf_rules)

lemma client_handle_relay_body_wf [wf_rules]: "base_wf b \<Longrightarrow> res_all base_wf (client_handle_relay_body c b)"
  unfolding client_handle_relay_body_def
  by (rule wf_all wf_rules with_relay_rule base_wf_snd res_all_True | assumption)+

lemma upd_req_header_wf [wf_rules]: "base_wf b \<Longrightarrow> res_all base_wf (upd_req_header c g b)"
  unfolding upd_req_header_def by (rule wf_all wf_rules res_all_True | assumption | simp)+

lemma begin_message_wf [wf_rules]: "base_wf b \<Longrightarrow> res_all base_wf (begin_message c b)"
  unfolding begin_message_def Let_def
  by (rule wf_all wf_rules res_all_True | assumption | simp add: base_wf_next)+

lemma complete_headers_wf [wf_rules]: "base_wf b \<Longrightarrow> res_all base_wf (complete_headers u m c b)"
  unfolding complete_headers_def by (rule wf_all wf_rules res_all_True | assumption)+

lemma write_loop_wf [wf_rules]: "base_wf b \<Longrightarrow> res_all (\<lambda>(er, q, pw, b). base_wf b) (write_loop fd q pw b)"
proof (induction q arbitrary: pw b)
  case (Cons pos rest)
  have keep: "res_all (\<lambda>(er, q, pw, b). base_wf b) (rbind (write_loop fd rest pw b1) (\<lambda>(er, q, pw', b2). Inr (er, pos # q, pw', b2)))"
    if "base_wf b1" for pw and b1 :: "('a, 'b) cls"
    by (rule res_all_bind [OF Cons.IH [OF that]]) auto
  show ?case
    unfolding write_loop.simps Let_def
    by (rule res_all_bind res_all_if res_all_pair Cons.IH keep res_all_True | erule sys_send_wf | simp add: Cons.prems sys_send_wf)+
qed simp

lemma client_handle_fd_wf [wf_rules]: "base_wf b \<Longrightarrow> res_all base_wf (client_handle_fd fd b)"
  unfolding client_handle_fd_def Let_def
  by (rule wf_all wf_rules base_wf_next res_all_True | assumption | simp)+

lemma listen_readcb_wf [wf_rules]: "base_wf b \<Longrightarrow> res_all base_wf (readcb acc b)"
  unfolding readcb_def by (rule wf_all wf_rules | assumption)+

section \<open>The operations that call the library\<close>

locale client_lib = nghttp2_lib NG for NG :: "('s, 'z) cl_ng"
begin

lemma client_drop_wf [wf_rules]: "base_wf b \<Longrightarrow> res_all base_wf (client_drop NG c b)"
  unfolding client_drop_def Let_def
  by (rule wf_all wf_rules with_relay_rule res_all_True | assumption | simp)+

lemma send_bodies_wf [wf_rules]: "base_wf b \<Longrightarrow> res_all base_wf (send_bodies NG c q b)"
proof (induction q arbitrary: b)
  case (Cons pos rest)
  show ?case
    unfolding send_bodies.simps
    by (rule wf_all wf_rules with_relay_rule Cons.IH Cons.prems res_all_True | assumption)+
qed simp

lemma client_handle_relay_connected_wf [wf_rules]: "base_wf b \<Longrightarrow> res_all base_wf (client_handle_relay_connected NG c b)"
  unfolding client_handle_relay_connected_def
  by (rule wf_all wf_rules with_relay_rule res_all_True | assumption)+

lemma client_handle_relay_msg_complete_wf [wf_rules]:
  "base_wf b \<Longrightarrow> res_all base_wf (client_handle_relay_msg_complete NG u c b)"
  unfolding client_handle_relay_msg_complete_def
  by (rule wf_all wf_rules base_wf_snd res_all_True | assumption)+

lemma client_relay_cb_wf [wf_rules]: "base_wf b \<Longrightarrow> res_all base_wf (client_relay_cb NG u r what c b)"
  unfolding client_relay_cb_def by (rule wf_all wf_rules | assumption)+

lemma body_piece_wf [wf_rules]: "base_wf b \<Longrightarrow> res_all base_wf (body_piece NG c d b)"
  unfolding body_piece_def by (rule wf_all wf_rules with_relay_rule res_all_True | assumption)+

end

sublocale client_lib \<subseteq> hooks: parser_user "htp_hooks NG u" "\<lambda>d. base_wf (fst d)" for u
proof unfold_locales
  let ?J = "\<lambda>d :: ('s, 'z) cls \<times> nat. base_wf (fst d)"
  show "notify_keeps ?J (on_message_begin (htp_hooks NG u))"
    unfolding htp_hooks_def by (simp, rule cb_notify_keeps [OF client_msg_begin_def]) (simp add: begin_message_wf)
  show "notify_keeps ?J (on_status_complete (htp_hooks NG u))"
    by (simp add: htp_hooks_def notify_keeps_def)
  show "notify_keeps ?J (on_headers_complete (htp_hooks NG u))"
    unfolding htp_hooks_def by (simp, rule cb_notify_keeps [OF client_headers_completecb_def]) (simp add: complete_headers_wf)
  show "notify_keeps ?J (on_message_complete (htp_hooks NG u))"
    unfolding htp_hooks_def
    by (simp, rule cb_notify_keeps [OF client_message_completecb_def]) (simp add: with_relay_rule relay_field_wf)
  show "data_keeps ?J (on_url (htp_hooks NG u))"
    unfolding htp_hooks_def by (simp, rule cb_data_keeps [OF client_url_complete_def]) (simp add: upd_req_header_wf)
  show "data_keeps ?J (on_header_field (htp_hooks NG u))"
    unfolding htp_hooks_def by (simp, rule cb_data_keeps [OF client_header_fieldcb_def]) (simp add: upd_req_header_wf)
  show "data_keeps ?J (on_header_value (htp_hooks NG u))"
    unfolding htp_hooks_def by (simp, rule cb_data_keeps [OF client_header_valuecb_def]) (simp add: upd_req_header_wf)
  show "data_keeps ?J (on_body (htp_hooks NG u))"
    unfolding htp_hooks_def by (simp, rule cb_data_keeps [OF client_bodycb_def]) (simp add: body_piece_wf)
qed

context client_lib
begin

lemma client_readcb_wf [wf_rules]:
  assumes "base_wf b"
  shows "res_all base_wf (client_readcb NG u rd c b)"
proof -
  have "res_all base_wf (rbind (run_parser (htp_hooks NG u) bytes ps (b, c)) (\<lambda>(d, ps, n).
      upd_client c (\<lambda>x. x\<lparr>cl_parser := ps\<rparr>) (fst d)))" for bytes ps
    by (rule res_all_bind [OF hooks.run_keeps]) (auto simp: assms intro: wf_rules)
  then show ?thesis
    unfolding client_readcb_def by (auto intro!: res_all_bind [OF res_all_True] wf_rules assms split: option.split)
qed

lemma client_writecb_wf [wf_rules]: "base_wf b \<Longrightarrow> res_all base_wf (client_writecb NG c b)"
proof -
  assume b: "base_wf b"
  have loop: "res_all base_wf (rbind (write_loop fd q pw b) k)"
    if "\<And>er q pw b1. base_wf b1 \<Longrightarrow> res_all base_wf (k (er, q, pw, b1))" for fd q pw k
    by (rule res_all_bind [OF write_loop_wf [OF b]]) (auto simp: that)
  show ?thesis
    unfolding client_writecb_def
    by (rule loop wf_all wf_rules with_relay_rule res_all_True b | assumption | simp only: prod.case)+
qed

lemma client_eventcb_wf [wf_rules]: "base_wf b \<Longrightarrow> res_all base_wf (client_eventcb NG u rd c what b)"
  unfolding client_eventcb_def by (rule wf_all wf_rules | assumption)+

end

sublocale client_lib \<subseteq> proxy: relay_owner NG "client_relay_cb NG (w_stack w)" "client_handlers NG w" for w
proof unfold_locales
  show "base_wf b \<Longrightarrow> res_all base_wf (client_relay_cb NG (w_stack w) p what args b)" for p what args b
    by (rule client_relay_cb_wf)
  show "base_wf b \<Longrightarrow> res_all base_wf (on_file (client_handlers NG w) (Conn_User uc) f fd what b)" for b uc f fd what
    by (auto simp: client_handlers_def split: h2_callback.split client_callback.split intro: client_eventcb_wf listen_readcb_wf)
  show "base_wf b \<Longrightarrow> res_all base_wf (on_timer (client_handlers NG w) cb t b)" for b cb t
    by (simp add: client_handlers_def)
qed

context client_lib
begin

lemma proxy_round_wf:
  assumes "base_wf b" and "set (map fst evs) \<subseteq> dom (b_poll b)"
    and "dispatch_round (proxy_handlers NG w n) m evs now b = Some (Inr b')"
  shows "base_wf b'"
  using proxy.h2_round_wf [OF assms(1,2)] assms(3) by (simp add: proxy_handlers_def)

end

text \<open>The proxy with the library of streams; the callback it is given runs over the sending half of the library.\<close>

definition sending_lib :: "(stream_lib, 'z) cl_ng" where
  "sending_lib = lib_base\<lparr>nghttp2_session_send := lib_send\<rparr>"

definition proxy_library :: "http_parser_url \<Rightarrow> (stream_lib, 'z) cl_ng" where
  "proxy_library u = stream_library (client_relay_cb sending_lib u)"

interpretation sending: client_lib sending_lib
  by unfold_locales (simp_all add: sending_lib_def lib_base_def lib_send_wf)

interpretation streams: client_lib "proxy_library u" for u
  unfolding proxy_library_def client_lib_def
  by (rule stream_library_wf) (rule sending.client_relay_cb_wf)


text \<open>A fresh loop with a session.\<close>

definition proxy_start :: "int \<Rightarrow> stream_lib cl_base" where
  "proxy_start now = h2_base.extend (h2_start now lib_start) (cl_base.fields Map.empty [] [] (\<lambda>_. []) [] [])"

lemma proxy_start_simps [simp]:
  "base_wf (proxy_start now)" "b_list_timers (proxy_start now) = []" "b_poll (proxy_start now) = Map.empty"
  "h_client (proxy_start now) = Map.empty" "cl_sent (proxy_start now) = (\<lambda>_. [])" "cl_io (proxy_start now) = []"
  "b_next (proxy_start now) = 1"
proof -
  let ?b = "h2_start now lib_start :: (client_callback, stream_lib) h2_base"
  have "base_wf ?b" "b_list_timers ?b = []" "b_poll ?b = Map.empty" "b_next ?b = 1" by simp_all
  then show "base_wf (proxy_start now)" "b_list_timers (proxy_start now) = []" "b_poll (proxy_start now) = Map.empty"
    "b_next (proxy_start now) = 1"
    by (simp_all add: proxy_start_def h2_base.extend_def base_wf_def)
qed (simp_all add: proxy_start_def h2_base.extend_def cl_base.fields_def)


end
