(* ===== verification/Client_Write.thy ===== *)
theory Client_Write
  imports Client_Inv Byte_Sink
begin

text \<open>
  What a client receives: the bytes the kernel has accepted and those still queued form one stream, to which
  \<^verbatim>\<open>client_write\<close> appends and which \<^verbatim>\<open>client_writecb\<close> leaves as it is.
\<close>

section \<open>The stream of a client\<close>

definition client_out :: "nat \<Rightarrow> ('s, 'z) cls \<Rightarrow> char list" where
  "client_out c b = (case h_client b c of None \<Rightarrow> []
     | Some x \<Rightarrow> cl_sent b (cl_client_fd x) @ pending (cl_list_response_write_buffer x))"

definition client_rec_ok :: "client \<Rightarrow> bool" where
  "client_rec_ok x \<longleftrightarrow> (\<forall>e \<in> set (cl_list_response_write_buffer x). eb_wf e)
     \<and> cl_pending_write x = int32 (int (length (pending (cl_list_response_write_buffer x))))"

definition client_ok :: "nat \<Rightarrow> ('s, 'z) cls \<Rightarrow> bool" where
  "client_ok c b \<longleftrightarrow> (\<exists>x f. h_client b c = Some x \<and> cl_file x = Some f \<and> watched b f \<and> client_rec_ok x)"

text \<open>What a write leaves alone.\<close>

definition same_but_queue :: "client \<Rightarrow> client \<Rightarrow> bool" where
  "same_but_queue x y \<longleftrightarrow> cl_client_fd y = cl_client_fd x \<and> cl_file y = cl_file x \<and> cl_relay_sys y = cl_relay_sys x
     \<and> cl_relay y = cl_relay x \<and> cl_request_header y = cl_request_header x
     \<and> cl_pending_request_header y = cl_pending_request_header x \<and> cl_parser y = cl_parser x
     \<and> cl_list_request_body_buffer y = cl_list_request_body_buffer x"

definition only_wrote :: "nat \<Rightarrow> ('s, 'z) cls \<Rightarrow> ('s, 'z) cls \<Rightarrow> bool" where
  "only_wrote c b b' \<longleftrightarrow> h_relay b' = h_relay b \<and> h_header b' = h_header b
     \<and> (\<forall>p. p \<noteq> c \<longrightarrow> h_client b' p = h_client b p)
     \<and> (\<forall>x. h_client b c = Some x \<longrightarrow> (\<exists>y. h_client b' c = Some y \<and> same_but_queue x y))
     \<and> set (cl_io b') \<subseteq> set (cl_io b)"

lemma only_wrote_refl: "only_wrote c b b"
  by (auto simp: only_wrote_def same_but_queue_def)

lemma only_wrote_trans: "only_wrote c b b1 \<Longrightarrow> only_wrote c b1 b2 \<Longrightarrow> only_wrote c b b2"
  by (cases "h_client b c"; cases "h_client b1 c") (auto simp: only_wrote_def same_but_queue_def)

lemma cl_more:
  fixes b b' :: "('s, 'z) cls"
  assumes "ep_base.more b' = ep_base.more b"
  shows "h_client b' = h_client b" "cl_sent b' = cl_sent b" "cl_io b' = cl_io b" "h_relay b' = h_relay b" "h_header b' = h_header b"
  using assms by (cases b; cases b'; simp)+

lemma int32_add: "int32 (int32 a + b) = int32 (a + b)"
  unfolding int32_def by (metis signed_take_bit_add signed_take_bit_signed_take_bit min.idem)

lemma watched_cl [simp]:
  "watched (b\<lparr>h_client := h\<rparr>) f = watched b f" "watched (b\<lparr>cl_sent := o'\<rparr>) f = watched b f"
  "watched (b\<lparr>cl_io := io\<rparr>) f = watched b f"
  by (simp_all add: watched_def file_at_def)

lemma sys_send_spec:
  assumes "sys_send fd data b = (r, b1)"
  shows "- 1 \<le> io_ret r" "io_ret r \<le> int (length data)" "h_client b1 = h_client b" "h_relay b1 = h_relay b"
    "h_header b1 = h_header b" "watched b1 f = watched b f" "set (cl_io b1) \<subseteq> set (cl_io b)"
    "cl_sent b1 = (cl_sent b)(fd := cl_sent b fd @ take (nat (io_ret r)) data)"
    "io_ret r < 0 \<Longrightarrow> \<exists>q \<in> set (cl_io b). io_ret q < 0 \<and> io_errno q = io_errno r"
  using assms by (auto simp: sys_send_def Let_def split: list.splits if_splits)

section \<open>Writing\<close>

text \<open>A write either appends all of its data to the stream or, after an error of \<^verbatim>\<open>send\<close>, nothing.\<close>

lemma client_write_spec:
  fixes b :: "('s, 'z) cls"
  assumes "client_ok c b"
  shows "\<exists>rc b'. client_write c data b = Inr (rc, b') \<and> client_ok c b' \<and> only_wrote c b b'
    \<and> (if rc = 0 then client_out c b' = client_out c b @ data
       else client_out c b' = client_out c b \<and> (\<exists>r \<in> set (cl_io b). io_ret r < 0 \<and> io_errno r \<noteq> EINPROGRESS))"
proof -
  obtain x f where x: "h_client b c = Some x" "cl_file x = Some f" "watched b f" "client_rec_ok x"
    using assms by (auto simp: client_ok_def)
  let ?q = "cl_list_response_write_buffer x" and ?len = "int (length data)"
  show ?thesis
  proof (cases "?q = []")
    case False
    let ?x = "x\<lparr>cl_list_response_write_buffer := ?q @ [\<lparr>eb_buf = data, eb_len_total = ?len, eb_len_sent = 0\<rparr>],
        cl_pending_write := int32 (cl_pending_write x + ?len)\<rparr>"
    have "client_rec_ok ?x" using x(4) by (auto simp: client_rec_ok_def eb_wf_def remaining_def int32_add)
    moreover have "client_write c data b = Inr (0, b\<lparr>h_client := (h_client b)(c \<mapsto> ?x)\<rparr>)"
      using x(1) False by (simp add: client_write_def upd_client_def Let_def)
    ultimately show ?thesis
      using x by (auto simp: client_ok_def only_wrote_def same_but_queue_def client_out_def remaining_def)
  next
    case True
    obtain r b1 where s: "sys_send (cl_client_fd x) data b = (r, b1)" by fastforce
    note sp = sys_send_spec [OF s]
    have pw: "cl_pending_write x = 0" using x(4) True by (simp add: client_rec_ok_def int32_def)
    show ?thesis
    proof (cases "io_ret r < ?len")
      case False
      then have "client_write c data b = Inr (0, b1)" "nat (io_ret r) = length data"
        using x True s sp(2) by (simp_all add: client_write_def Let_def)
      then show ?thesis
        using x True sp by (auto simp: client_ok_def only_wrote_def same_but_queue_def client_out_def)
    next
      case less: True
      show ?thesis
      proof (cases "io_ret r < 0 \<and> io_errno r \<noteq> EINPROGRESS")
        case err: True
        then have "client_write c data b = Inr (- 1, b1)" using x True s less by (simp add: client_write_def Let_def)
        then show ?thesis
          using x True sp err by (auto simp: client_ok_def only_wrote_def same_but_queue_def client_out_def)
      next
        case False
        define n where "n = (if io_ret r < 0 then 0 else io_ret r)"
        have n: "0 \<le> n" "n \<le> ?len" "take (nat (io_ret r)) data = take (nat n) data"
          using sp(1,2) by (auto simp: n_def)
        let ?e = "\<lparr>eb_buf = drop (nat n) data, eb_len_total = ?len - n, eb_len_sent = 0\<rparr>"
        let ?x = "x\<lparr>cl_list_response_write_buffer := ?q @ [?e], cl_pending_write := int32 (cl_pending_write x + (?len - n))\<rparr>"
        let ?b2 = "b1\<lparr>h_client := (h_client b)(c \<mapsto> ?x)\<rparr>"
        have w: "watched b1 f" using x sp by simp
        obtain m t where mt: "ep_file_get_detect f b1 = Inr m" "ep_file_get_timeout f b1 = Inr t"
          using watched_get [OF w] by blast
        obtain b3 where b3: "ep_file_detect f (or m EP_WRITE) t ?b2 = Inr b3" "watched b3 f" "ep_base.more b3 = ep_base.more ?b2"
          using watched_detect [of ?b2 f "or m EP_WRITE" t] w by auto
        have mr: "mem_read data n (?len - n) = Inr (drop (nat n) data)"
          using n by (simp add: mem_read_def nat_diff_distrib)
        have "client_write c data b = Inr (0, b3)"
          using x(1,2) True s less False mt b3(1) mr sp(3)
          by (simp add: client_write_def Let_def upd_client_def deref_def flip: n_def)
        moreover have "client_rec_ok ?x"
          using x(4) True n pw by (auto simp: client_rec_ok_def eb_wf_def remaining_def)
        ultimately show ?thesis
          using x True sp n cl_more [OF b3(3)] b3(2)
          by (auto simp: client_ok_def only_wrote_def same_but_queue_def client_out_def remaining_def)
      qed
    qed
  qed
qed

text \<open>An accepted client starts in order.\<close>

definition new_client :: "int \<Rightarrow> nat \<Rightarrow> client" where
  "new_client fd f = \<lparr>cl_client_fd = fd, cl_file = Some f, cl_relay_sys = False, cl_relay = None, cl_request_header = None,
     cl_pending_request_header = None, cl_parser = http_parser_init HTTP_REQUEST (), cl_list_response_write_buffer = [],
     cl_list_request_body_buffer = [], cl_pending_write = 0\<rparr>"

lemma client_handle_fd_ok:
  fixes b :: "('s, 'z) cls"
  assumes "base_wf b" and "0 \<le> fd" and "fd < int (length (b_files b))"
  shows "\<exists>b' f. client_handle_fd fd b = Inr b' \<and> watched b' f \<and> h_client b' = (h_client b)(b_next b \<mapsto> new_client fd f)
    \<and> cl_sent b' = cl_sent b \<and> cl_io b' = cl_io b"
proof -
  let ?c = "b_next b" and ?b = "b\<lparr>b_next := Suc (b_next b)\<rparr>"
  let ?cb = "Conn_User (H2_User (Client_File ?c))"
  have w: "base_wf ?b" "fd < int (length (b_files ?b))" using base_wf_next [OF assms(1)] assms(3) by simp_all
  obtain f b1 where b1: "ep_file_create fd ?cb ?b = Inr (f, b1)" "base_wf b1"
    "h_file b1 f = Some \<lparr>ef_fd = fd, ef_cb = ?cb, ef_timer_info = None, ef_timeout = - 1\<rparr>" "file_at b1 f fd"
    "ep_base.more b1 = ep_base.more ?b"
    using ep_file_create_ok [OF w(1) assms(2) w(2), of ?cb] by auto
  have "fi_file (b_files b1 ! nat fd) = Some f"
    using b1(1) assms(2,3) by (auto simp: ep_file_create_def Let_def fd_slot_def put_file_def set_slot_def)
  then have "watched b1 f" using b1 by (auto simp: watched_def)
  then have "watched (b1\<lparr>h_client := (h_client b1)(?c \<mapsto> new_client fd f)\<rparr>) f" by simp
  from watched_detect [OF this, of EP_READ "30 * 1000"] obtain b2 where
    b2: "ep_file_detect f EP_READ (30 * 1000) (b1\<lparr>h_client := (h_client b1)(?c \<mapsto> new_client fd f)\<rparr>) = Inr b2" "watched b2 f"
      "ep_base.more b2 = ep_base.more (b1\<lparr>h_client := (h_client b1)(?c \<mapsto> new_client fd f)\<rparr>)" by blast
  have "client_handle_fd fd b = Inr (b2\<lparr>s_list_clients := s_list_clients b2 @ [?c]\<rparr>)"
    using b1(1) b2(1) unfolding client_handle_fd_def Let_def by (simp flip: new_client_def)
  moreover have "watched (b2\<lparr>s_list_clients := s_list_clients b2 @ [?c]\<rparr>) f"
    using b2(2) by (simp add: watched_def file_at_def)
  ultimately show ?thesis
    using cl_more [OF b2(3)] cl_more [OF b1(5)] by (intro exI [of _ "b2\<lparr>s_list_clients := s_list_clients b2 @ [?c]\<rparr>"] exI [of _ f]) simp
qed

lemma new_client_ok: "watched b f \<Longrightarrow> h_client b c = Some (new_client fd f) \<Longrightarrow> client_ok c b"
  by (simp add: client_ok_def client_rec_ok_def new_client_def int32_def)

lemma accepted:
  "\<exists>b f. client_handle_fd 5 (proxy_start 0) = Inr b \<and> watched b f \<and> h_client b 1 = Some (new_client 5 f)
     \<and> cl_sent b = (\<lambda>_. []) \<and> cl_io b = []"
proof -
  have "length (b_files (proxy_start 0)) = 1024"
    by (simp add: proxy_start_def h2_base.extend_def h2_start_def conn_base.extend_def ep_base.extend_def ep_base_create_def)
  with client_handle_fd_ok [of "proxy_start 0" 5] show ?thesis by auto
qed

text \<open>
  Claim C2.  Writing to a client is appending to its stream: whatever part of the data the kernel takes, the bytes it
  has accepted and the bytes queued together are the stream before, followed by the data; only an error of
  \<^verbatim>\<open>send\<close> other than \<^verbatim>\<open>EINPROGRESS\<close> makes \<^verbatim>\<open>client_write\<close> fail, and then the stream is unchanged.  The count of pending
  bytes stays right, and nothing else of the proxy changes.
\<close>

theorem client_write_appends:
  assumes "client_ok c b"
  shows "\<exists>rc b'. client_write c data b = Inr (rc, b') \<and> client_ok c b' \<and> only_wrote c b b'
    \<and> (if rc = 0 then client_out c b' = client_out c b @ data
       else client_out c b' = client_out c b \<and> (\<exists>r \<in> set (cl_io b). io_ret r < 0 \<and> io_errno r \<noteq> EINPROGRESS))"
  by (rule client_write_spec [OF assms])

theorem client_write_appends_witness:
  "\<exists>b b'. client_handle_fd 5 (proxy_start 0) = Inr b
     \<and> client_write 1 ''hello'' (b\<lparr>cl_io := [\<lparr>io_ret = 2, io_errno = 0\<rparr>]\<rparr>) = Inr (0, b') \<and> client_out 1 b' = ''hello''"
proof -
  obtain b f where b: "client_handle_fd 5 (proxy_start 0) = Inr b" "watched b f" "h_client b 1 = Some (new_client 5 f)"
    "cl_sent b = (\<lambda>_. [])" using accepted by blast
  let ?b = "b\<lparr>cl_io := [\<lparr>io_ret = 2, io_errno = 0\<rparr>]\<rparr>"
  have "client_ok 1 ?b" using b by (intro new_client_ok [of _ f _ 5]) simp_all
  moreover have "client_out 1 ?b = []" using b by (simp add: client_out_def new_client_def)
  ultimately show ?thesis using client_write_appends [of 1 ?b "''hello''"] b(1) by (auto split: if_splits)
qed

section \<open>Flushing\<close>

text \<open>A step of the flush: the stream is the same, and nothing but this socket and the queue has changed.\<close>

definition flushed :: "int \<Rightarrow> client_write_buffer list \<Rightarrow> ('s, 'z) cls \<Rightarrow> client_write_buffer list \<Rightarrow> ('s, 'z) cls \<Rightarrow> bool" where
  "flushed fd q b q' b' \<longleftrightarrow> cl_sent b' fd @ pending q' = cl_sent b fd @ pending q
     \<and> (\<forall>fd'. fd' \<noteq> fd \<longrightarrow> cl_sent b' fd' = cl_sent b fd') \<and> h_client b' = h_client b
     \<and> (\<forall>f. watched b' f = watched b f) \<and> set (cl_io b') \<subseteq> set (cl_io b)"

lemma flushed_trans: "flushed fd q b q1 b1 \<Longrightarrow> flushed fd q1 b1 q2 b2 \<Longrightarrow> flushed fd q b q2 b2"
  by (auto simp: flushed_def)

lemma flushed_send:
  assumes "sys_send fd (remaining pos) b = (r, b1)" and "pending q' = drop (nat (io_ret r)) (remaining pos) @ pending rest"
  shows "flushed fd (pos # rest) b q' b1"
  using assms(2) sys_send_spec [OF assms(1)] by (simp add: flushed_def)

lemma partial_buffer:
  assumes "eb_wf pos" and "0 \<le> n" and "n < eb_len_total pos - eb_len_sent pos"
  shows "eb_wf (pos\<lparr>eb_len_sent := eb_len_sent pos + n\<rparr>)"
    and "remaining (pos\<lparr>eb_len_sent := eb_len_sent pos + n\<rparr>) = drop (nat n) (remaining pos)"
  using assms by (auto simp: eb_wf_def remaining_def nat_add_distrib add.commute)

lemma int32_count:
  assumes "pw = int32 (int (length (pending q)))" and "pending q' = drop (nat n) (pending q)" and "0 \<le> n" and "n \<le> int (length (pending q))"
  shows "int32 (pw - n) = int32 (int (length (pending q')))"
  using assms int32_add [of "int (length (pending q))" "- n"] by (simp add: of_nat_diff nat_le_iff)

lemma write_loop_Cons:
  assumes "eb_wf pos" and "sys_send fd (remaining pos) b = (r, b1)"
  shows "write_loop fd (pos # rest) pw b =
    (if io_ret r < 0
     then if io_errno r \<noteq> EINPROGRESS then Inr (True, pos # rest, pw, b1)
          else rbind (write_loop fd rest pw b1) (\<lambda>(er, q, pw', b2). Inr (er, pos # q, pw', b2))
     else if io_ret r < eb_len_total pos - eb_len_sent pos
     then Inr (False, pos\<lparr>eb_len_sent := eb_len_sent pos + io_ret r\<rparr> # rest, int32 (pw - io_ret r), b1)
     else write_loop fd rest (int32 (pw - io_ret r)) b1)"
  using mem_read_remaining_all [OF assms(1)] assms(2) by (simp add: Let_def)

declare write_loop.simps(2) [simp del]

lemma write_loop_spec:
  fixes b :: "('s, 'z) cls"
  assumes "\<forall>e \<in> set q. eb_wf e" and "\<forall>r \<in> set (cl_io b). 0 \<le> io_ret r \<or> io_errno r \<noteq> EINPROGRESS"
    and "pw = int32 (int (length (pending q)))"
  shows "\<exists>er q' pw' b'. write_loop fd q pw b = Inr (er, q', pw', b') \<and> flushed fd q b q' b'
    \<and> (\<forall>e \<in> set q'. eb_wf e) \<and> pw' = int32 (int (length (pending q')))"
  using assms
proof (induction q arbitrary: pw b)
  case (Cons pos rest)
  have wf: "eb_wf pos" "\<forall>e \<in> set rest. eb_wf e" using Cons.prems(1) by auto
  note lr = length_remaining [OF wf(1)]
  obtain r b1 where s: "sys_send fd (remaining pos) b = (r, b1)" by fastforce
  note sp = sys_send_spec [OF s] and l = write_loop_Cons [OF wf(1) s, of rest pw]
  let ?n = "io_ret r"
  consider "?n < 0" | "0 \<le> ?n" "?n < eb_len_total pos - eb_len_sent pos" | "0 \<le> ?n" "\<not> ?n < eb_len_total pos - eb_len_sent pos"
    by linarith
  then show ?case
  proof cases
    case 1
    then have "io_errno r \<noteq> EINPROGRESS" using sp(9) Cons.prems(2) by fastforce
    moreover have "flushed fd (pos # rest) b (pos # rest) b1" using flushed_send [OF s] 1 by simp
    ultimately show ?thesis using l 1 Cons.prems(1,3) by simp blast
  next
    case 2
    let ?p = "pos\<lparr>eb_len_sent := eb_len_sent pos + ?n\<rparr>"
    note p = partial_buffer [OF wf(1) 2]
    have "int32 (pw - ?n) = int32 (int (length (pending (?p # rest))))"
      using 2 p(2) sp(2) by (intro int32_count [OF Cons.prems(3)]) auto
    moreover have "flushed fd (pos # rest) b (?p # rest) b1" using flushed_send [OF s] p(2) by simp
    ultimately show ?thesis using l 2 p(1) wf(2) by simp blast
  next
    case 3
    then have n: "?n = int (length (remaining pos))" using sp(2) lr by simp
    have "int32 (pw - ?n) = int32 (int (length (pending rest)))"
      using n by (intro int32_count [OF Cons.prems(3)]) auto
    moreover have "\<forall>r \<in> set (cl_io b1). 0 \<le> io_ret r \<or> io_errno r \<noteq> EINPROGRESS" using Cons.prems(2) sp(7) by auto
    ultimately obtain er q' pw' b' where ih: "write_loop fd rest (int32 (pw - ?n)) b1 = Inr (er, q', pw', b')"
      "flushed fd rest b1 q' b'" "\<forall>e \<in> set q'. eb_wf e" "pw' = int32 (int (length (pending q')))"
      using Cons.IH [OF wf(2)] by blast
    have "flushed fd (pos # rest) b rest b1" using flushed_send [OF s] n by simp
    from flushed_trans [OF this ih(2)] show ?thesis using l 3 ih by simp
  qed
qed (simp add: flushed_def, blast)

text \<open>When the kernel takes everything the queue is empty afterwards.\<close>

lemma write_loop_all:
  assumes "\<forall>e \<in> set q. eb_wf e" and "cl_io b = []"
  shows "\<exists>pw' b'. write_loop fd q pw b = Inr (False, [], pw', b') \<and> cl_io b' = []"
  using assms
proof (induction q arbitrary: pw b)
  case (Cons pos rest)
  obtain r b1 where s: "sys_send fd (remaining pos) b = (r, b1)" by fastforce
  then have "io_ret r = int (length (remaining pos))" "cl_io b1 = []"
    using Cons.prems(2) by (auto simp: sys_send_def Let_def)
  then show ?case
    using write_loop_Cons [OF _ s, of rest pw] Cons.IH [of b1] Cons.prems(1) length_remaining [of pos] by simp
qed simp

text \<open>
  Claim C28.  Flushing a client's queue neither loses, repeats nor reorders anything: whatever the calls of \<^verbatim>\<open>send\<close> take
  and whether or not one of them fails, the accepted bytes followed by the queue are the same stream as before, and
  the count of pending bytes stays right.  The exception is \<^verbatim>\<open>EINPROGRESS\<close>, which skips a buffer and sends the next.
\<close>

theorem client_flush_keeps_stream:
  assumes "\<forall>e \<in> set q. eb_wf e" and "\<forall>r \<in> set (cl_io b). 0 \<le> io_ret r \<or> io_errno r \<noteq> EINPROGRESS"
    and "pw = int32 (int (length (pending q)))"
  shows "\<exists>er q' pw' b'. write_loop fd q pw b = Inr (er, q', pw', b')
    \<and> cl_sent b' fd @ pending q' = cl_sent b fd @ pending q \<and> (\<forall>e \<in> set q'. eb_wf e)
    \<and> pw' = int32 (int (length (pending q')))"
  using write_loop_spec [OF assms, of fd] by (fastforce simp: flushed_def)

theorem client_flush_keeps_stream_witness:
  "\<exists>er q' pw' b'. write_loop 5 [\<lparr>eb_buf = ''abc'', eb_len_total = 3, eb_len_sent = 1\<rparr>] 2
       ((proxy_start 0)\<lparr>cl_io := [\<lparr>io_ret = 1, io_errno = 0\<rparr>]\<rparr>) = Inr (er, q', pw', b')
     \<and> cl_sent b' 5 @ pending q' = ''bc''"
proof -
  let ?q = "[\<lparr>eb_buf = ''abc'', eb_len_total = 3, eb_len_sent = 1\<rparr>]" and ?b = "(proxy_start 0)\<lparr>cl_io := [\<lparr>io_ret = 1, io_errno = 0\<rparr>]\<rparr>"
  have q: "pending ?q = ''bc''" "\<forall>e \<in> set ?q. eb_wf e" by (simp_all add: remaining_def eb_wf_def)
  have "2 = int32 (int (length (pending ?q)))" unfolding q(1) by (simp add: int32_def)
  from client_flush_keeps_stream [OF q(2) _ this, of ?b 5] obtain er q' pw' b' where
    "write_loop 5 ?q 2 ?b = Inr (er, q', pw', b')" "cl_sent b' 5 @ pending q' = cl_sent ?b 5 @ pending ?q" by auto
  moreover have "cl_sent ?b 5 = []" by simp
  ultimately show ?thesis unfolding q(1) by auto
qed

text \<open>
  Claim C38.  A client whose response is complete has no relay any more, and the event that flushes what it is still
  owed ends the proxy: \<^verbatim>\<open>client_writecb\<close> resumes reading on the relay without looking whether there is one.
\<close>

theorem client_writecb_no_relay:
  fixes b :: "('s, 'z) cls"
  assumes "client_ok c b" and "h_client b c = Some x" and "cl_file x = Some f" and "cl_relay x = None"
    and "ep_file_get_detect f b = Inr m" and "and m EP_WRITE \<noteq> 0" and "cl_io b = []"
  shows "client_writecb NG c b = Inl Bad_Pointer"
proof -
  have x: "watched b f" "client_rec_ok x" using assms(1-3) by (auto simp: client_ok_def)
  obtain t where t: "ep_file_get_timeout f b = Inr t" using watched_get [OF x(1)] by blast
  have none: "with_relay c g b' = Inl Bad_Pointer" if "h_client b' c = Some y" "cl_relay y = None" for g :: "nat \<Rightarrow> ('s, 'z) cls \<Rightarrow> 'r res" and b' y
    using that by (simp add: with_relay_def sys_of_def deref_def)
  show ?thesis
  proof (cases "cl_list_response_write_buffer x = []")
    case True
    then show ?thesis using assms t none [OF assms(2,4)] by (simp add: client_writecb_def deref_def)
  next
    case False
    let ?q = "cl_list_response_write_buffer x"
    obtain pw' b1 where l: "write_loop (cl_client_fd x) ?q (cl_pending_write x) b = Inr (False, [], pw', b1)"
      "h_client b1 = h_client b" "watched b1 f" "pw' = 0"
      using write_loop_spec [of ?q b "cl_pending_write x" "cl_client_fd x"] write_loop_all [of ?q b "cl_client_fd x" "cl_pending_write x"]
        x assms(7) by (auto simp: client_rec_ok_def int32_def flushed_def)
    let ?x = "x\<lparr>cl_list_response_write_buffer := [], cl_pending_write := pw'\<rparr>"
    let ?b2 = "b1\<lparr>h_client := (h_client b)(c \<mapsto> ?x)\<rparr>"
    obtain b3 where b3: "ep_file_detect f 0 t ?b2 = Inr b3" "ep_base.more b3 = ep_base.more ?b2"
      using watched_detect [of ?b2 f 0 t] l(3) by auto
    have "h_client b3 c = Some ?x" using cl_more [OF b3(2)] by simp
    with none [of b3 ?x] show ?thesis
      using assms t l b3(1) False by (simp add: client_writecb_def deref_def upd_client_def)
  qed
qed

theorem client_writecb_no_relay_witness:
  "\<exists>b f b'. client_handle_fd 5 (proxy_start 0) = Inr b \<and> h_client b 1 = Some (new_client 5 f)
     \<and> ep_file_detect f (or EP_READ EP_WRITE) 30000 b = Inr b' \<and> client_writecb (proxy_library url_zero) 1 b' = Inl Bad_Pointer"
proof -
  obtain b f where b: "client_handle_fd 5 (proxy_start 0) = Inr b" "watched b f" "h_client b 1 = Some (new_client 5 f)" "cl_io b = []"
    using accepted by blast
  have m: "or EP_READ EP_WRITE \<noteq> 0" "and (or EP_READ EP_WRITE) EP_WRITE \<noteq> 0" by simp_all
  obtain b' where b': "ep_file_detect f (or EP_READ EP_WRITE) 30000 b = Inr b'" "watched b' f" "ep_base.more b' = ep_base.more b"
    "ep_file_get_detect f b' = Inr (or EP_READ EP_WRITE)"
    using watched_detect [OF b(2), of "or EP_READ EP_WRITE" 30000] m(1) by blast
  have c: "h_client b' 1 = Some (new_client 5 f)" "cl_io b' = []" using cl_more [OF b'(3)] b by simp_all
  have "client_writecb (proxy_library url_zero) 1 b' = Inl Bad_Pointer"
    by (rule client_writecb_no_relay [OF new_client_ok [OF b'(2) c(1)] c(1) _ _ b'(4) m(2) c(2)]) (simp_all add: new_client_def)
  with b b' show ?thesis by blast
qed

end
