(* ===== verification/Client_Response.thy ===== *)
theory Client_Response
  imports Client_Write
begin

text \<open>
  The response a client receives: the status line and the fields, the body in chunks or as it is, and the end of a
  chunked body, appended to the stream of the client in that order.
\<close>

section \<open>Several writes\<close>

definition io_fine :: "('s, 'z) cls \<Rightarrow> bool" where
  "io_fine b \<longleftrightarrow> (\<forall>r \<in> set (cl_io b). 0 \<le> io_ret r \<or> io_errno r = EINPROGRESS)"

definition put_client :: "nat \<Rightarrow> char list \<Rightarrow> ('s, 'z) cls \<Rightarrow> ('s, 'z) cls res" where
  "put_client c d b = rbind (client_write c d b) (\<lambda>(rc, b1). Inr b1)"

definition sink_ok :: "nat \<Rightarrow> ('s, 'z) cls \<Rightarrow> ('s, 'z) cls \<Rightarrow> bool" where
  "sink_ok c b0 b \<longleftrightarrow> client_ok c b \<and> io_fine b \<and> only_wrote c b0 b"

lemma put_client_ok:
  assumes "sink_ok c b0 b"
  shows "\<exists>b'. client_write c d b = Inr (0, b') \<and> sink_ok c b0 b' \<and> client_out c b' = client_out c b @ d"
proof -
  obtain rc b' where w: "client_write c d b = Inr (rc, b')" "client_ok c b'" "only_wrote c b b'"
    "if rc = 0 then client_out c b' = client_out c b @ d
       else client_out c b' = client_out c b \<and> (\<exists>r \<in> set (cl_io b). io_ret r < 0 \<and> io_errno r \<noteq> EINPROGRESS)"
    using client_write_spec [of c b d] assms by (auto simp: sink_ok_def)
  have "rc = 0" using w(4) assms by (force simp: sink_ok_def io_fine_def split: if_splits)
  moreover have "io_fine b'" using w(3) assms by (auto simp: sink_ok_def io_fine_def only_wrote_def)
  ultimately show ?thesis using w assms only_wrote_trans by (auto simp: sink_ok_def)
qed

interpretation client_sink: byte_sink "\<lambda>_. True" "sink_ok c b0" "client_out c" "put_client c" for c b0
proof unfold_locales
  fix b d assume "sink_ok c b0 b"
  from put_client_ok [OF this, of d] show "\<exists>b'. put_client c d b = Inr b' \<and> sink_ok c b0 b' \<and> client_out c b' = client_out c b @ d"
    by (auto simp: put_client_def)
qed

section \<open>A client with a response under way\<close>

definition responding :: "nat \<Rightarrow> nat \<Rightarrow> http2_relay \<Rightarrow> header \<Rightarrow> ('s, 'z) cls \<Rightarrow> bool" where
  "responding c r y h b \<longleftrightarrow> client_ok c b \<and> io_fine b \<and> h_relay b r = Some y \<and> h_header b (hr_response_header y) = Some h
     \<and> (\<exists>x. h_client b c = Some x \<and> cl_relay_sys x \<and> cl_relay x = Some r)"

lemma responding_sink: "responding c r y h b \<Longrightarrow> sink_ok c b b"
  by (simp add: responding_def sink_ok_def only_wrote_refl)

lemma responding_after:
  assumes "responding c r y h b" and "sink_ok c b b'"
  shows "responding c r y h b'"
  using assms by (auto simp: responding_def sink_ok_def only_wrote_def same_but_queue_def)

lemma responding_relay:
  assumes "responding c r y h b"
  shows "with_relay c f b = f r b"
  using assms by (auto simp: responding_def with_relay_def sys_of_def deref_def)

text \<open>A client on a fresh loop with a relay and a response.\<close>

lemma responding_start:
  "\<exists>b :: stream_lib cl_base. responding 1 5 plain_relay h b \<and> client_out 1 b = [] \<and> h_header b 8 \<noteq> None
     \<and> (\<exists>x. h_client b 1 = Some x \<and> cl_pending_request_header x = None \<and> cl_request_header x = Some 8)"
proof -
  obtain b :: "stream_lib cl_base" and f where b: "watched b f" "h_client b 1 = Some (new_client 5 f)" "cl_sent b = (\<lambda>_. [])" "cl_io b = []"
    using accepted by blast
  let ?x = "(new_client 5 f)\<lparr>cl_relay_sys := True, cl_relay := Some 5, cl_request_header := Some 8\<rparr>"
  let ?b = "b\<lparr>h_client := [1 \<mapsto> ?x], h_relay := [5 \<mapsto> plain_relay], h_header := [8 \<mapsto> header_new, 9 \<mapsto> h]\<rparr>"
  have "watched ?b f" using b(1) by (simp add: watched_def file_at_def)
  then have "client_ok 1 ?b" by (simp add: client_ok_def client_rec_ok_def new_client_def int32_def)
  with b show ?thesis
    by (intro exI [of _ ?b]) (simp add: responding_def io_fine_def plain_relay_def client_out_def new_client_def)
qed

section \<open>The head\<close>

definition response_lines :: "header \<Rightarrow> string list" where
  "response_lines h = (''HTTP/1.1 '' @ get_status_string (hd_status_code h) 0 @ CRLF) # map header_line (hd_list_headers h)"

text \<open>
  Claim C27.  The head of a response: for a status the proxy knows and fields that fit its buffer of 50 pages, the client
  is sent the status line and every field in order, one a line, and an empty line, and nothing else changes; for a
  status it does not know, such as 429, an assertion ends the proxy.
\<close>

theorem client_response_head:
  assumes "responding c r y h b" and "list_all printable (response_lines h)"
    and "length (concat (response_lines h)) + 2 < 50 * 4096"
  shows "if get_status_string (hd_status_code h) 0 = [] then client_handle_relay_hdr_complete c b = Inl Assert_Failed
    else \<exists>b'. client_handle_relay_hdr_complete c b = Inr b' \<and> responding c r y h b'
      \<and> client_out c b' = client_out c b @ concat (response_lines h) @ CRLF"
proof -
  have y: "relay_get_header r b = Inr (hr_response_header y)" "h_header b (hr_response_header y) = Some h"
    using assms(1) by (auto simp: responding_def relay_get_header_def)
  let ?z = "replicate (50 * 4096) NUL"
  obtain buf where buf: "append_lines ?z (50 * 4096) (response_lines h) = Inr buf" "c_str buf = concat (response_lines h)"
    "length buf = 50 * 4096" "NUL \<in> set buf"
    using append_lines_fits [of ?z "response_lines h"] assms(2,3) by auto
  obtain buf' where buf': "strcat buf CRLF = Inr buf'" "c_str buf' = concat (response_lines h) @ CRLF" "NUL \<in> set buf'"
    using strcat_fits [of CRLF buf] buf assms(3) by auto
  from put_client_ok [OF responding_sink [OF assms(1)], of "c_str buf'"] obtain b' where
    w: "client_write c (c_str buf') b = Inr (0, b')" "sink_ok c b b'" "client_out c b' = client_out c b @ c_str buf'" by blast
  have "client_handle_relay_hdr_complete c b = rbind (cassert (get_status_string (hd_status_code h) 0 \<noteq> [])) (\<lambda>_.
      rbind (append_lines ?z (50 * 4096) (response_lines h)) (\<lambda>buf.
      rbind (strcat buf CRLF) (\<lambda>buf. rbind (cstr_at buf) (\<lambda>str. rbind (client_write c str b) (\<lambda>(rc, b1). Inr b1)))))"
    unfolding client_handle_relay_hdr_complete_def responding_relay [OF assms(1)] y(1) rbind_Inr look_Some [where h = "h_header b", OF y(2)]
      Let_def response_lines_def ..
  with w buf(1) buf' responding_after [OF assms(1) w(2)] show ?thesis
    by (simp add: cstr_at_def del: append_lines.simps)
qed

theorem client_response_head_witness:
  "\<exists>b b' :: stream_lib cl_base. client_handle_relay_hdr_complete 1 b = Inr b'
     \<and> client_out 1 b = [] \<and> client_out 1 b' = ''HTTP/1.1 200 OK'' @ CRLF @ CRLF"
proof -
  let ?h = "header_set_status_code header_new 200"
  have l: "response_lines ?h = [''HTTP/1.1 200 OK'' @ CRLF]" by code_simp
  obtain b :: "stream_lib cl_base" where b: "responding 1 5 plain_relay ?h b" "client_out 1 b = []"
    using responding_start [of ?h] by blast
  have "get_status_string (hd_status_code ?h) 0 \<noteq> []" by code_simp
  with client_response_head [OF b(1)] b(2) show ?thesis
    unfolding l by (auto simp: printable_def)
qed

section \<open>The body\<close>

text \<open>What the relay does with a piece of the body: it notes it and calls the client.\<close>

definition deliver :: "('s, 'z) cl_ng \<Rightarrow> http_parser_url \<Rightarrow> nat \<Rightarrow> nat \<Rightarrow> char list \<Rightarrow> ('s, 'z) cls \<Rightarrow> ('s, 'z) cls res" where
  "deliver NG u c r d b =
     rbind (upd_relay r (\<lambda>x. x\<lparr>hr_body_data := Some d, hr_body_len := int (length d)\<rparr>) b)
       (client_relay_cb NG u r RELAY_BODY c)"

text \<open>What stays of the client and the headers while the body is sent.\<close>

definition kept :: "nat \<Rightarrow> ('s, 'z) cls \<Rightarrow> ('s, 'z) cls \<Rightarrow> bool" where
  "kept c b b' \<longleftrightarrow> h_header b' = h_header b
     \<and> (\<forall>x. h_client b c = Some x \<longrightarrow> (\<exists>x'. h_client b' c = Some x' \<and> same_but_queue x x'))"

lemma kept_refl: "kept c b b"
  by (simp add: kept_def same_but_queue_def)

lemma kept_trans: "kept c b b1 \<Longrightarrow> kept c b1 b2 \<Longrightarrow> kept c b b2"
  by (cases "h_client b c"; cases "h_client b1 c") (auto simp: kept_def same_but_queue_def)

lemma only_wrote_kept: "only_wrote c b b' \<Longrightarrow> kept c b b'"
  by (simp add: only_wrote_def kept_def)

lemma relay_update_simps [simp]:
  "client_out c (b\<lparr>h_relay := hr\<rparr>) = client_out c b" "kept c b (b'\<lparr>h_relay := hr\<rparr>) = kept c b b'"
  "kept c (b\<lparr>h_relay := hr\<rparr>) b' = kept c b b'"
  by (simp_all add: client_out_def kept_def split: option.split)

lemma responding_relay_update:
  "responding c r y h b \<Longrightarrow> hr_response_header y' = hr_response_header y \<Longrightarrow> responding c r y' h (b\<lparr>h_relay := (h_relay b)(r \<mapsto> y')\<rparr>)"
  by (auto simp: responding_def client_ok_def watched_def file_at_def io_fine_def)

lemma client_body_ok:
  assumes "responding c r y h b" and "hr_body_data y = Some d" and "hr_body_len y = int (length d)"
    and "int (length d) < 2 ^ 31"
  shows "\<exists>b' y'. client_handle_relay_body c b = Inr b' \<and> responding c r y' h b' \<and> kept c b b'
    \<and> client_out c b' = client_out c b @ (if is_chunked h then chunk d else d)"
proof -
  have y: "relay_get_header r b = Inr (hr_response_header y)" "relay_get_body r b = Inr (Some d, int (length d))"
    "h_header b (hr_response_header y) = Some h"
    using assms(1-3) by (auto simp: responding_def relay_get_header_def relay_get_body_def)
  have n: "nat (int (length d) mod 2 ^ 32) = length d" "mem_read d 0 (int (length d)) = Inr d"
    using assms(4) by (simp_all add: mem_read_def)
  let ?pieces = "if is_chunked h then [fmt_X (length d) @ CRLF, d, CRLF] else [d]"
  obtain b3 where b3: "client_sink.puts c ?pieces b = Inr b3" "sink_ok c b b3" "client_out c b3 = client_out c b @ concat ?pieces"
    using client_sink.puts_ok [OF responding_sink [OF assms(1)]] by (auto simp: list_all_iff)
  have r3: "responding c r y h b3" by (rule responding_after [OF assms(1) b3(2)])
  then obtain x where x: "h_client b3 c = Some x" "h_relay b3 r = Some y" by (auto simp: responding_def)
  have "client_handle_relay_body c b = (if cl_pending_write x > 30000 then relay_suspend_read r b3 else Inr b3)"
    using b3(1) y n x r3
    by (cases "is_chunked h") (auto simp: client_handle_relay_body_def responding_relay [OF assms(1)] responding_relay [OF r3]
        deref_def put_client_def rbind_assoc rbind_eq_Inr split: prod.splits)
  moreover have "relay_suspend_read r b3 = Inr (b3\<lparr>h_relay := (h_relay b3)(r \<mapsto> y\<lparr>hr_is_response_read_suspend := True\<rparr>)\<rparr>)"
    using x by (simp add: relay_suspend_read_def upd_relay_def)
  moreover have "responding c r (y\<lparr>hr_is_response_read_suspend := True\<rparr>) h
      (b3\<lparr>h_relay := (h_relay b3)(r \<mapsto> y\<lparr>hr_is_response_read_suspend := True\<rparr>)\<rparr>)"
    by (rule responding_relay_update [OF r3]) simp
  moreover have "kept c b b3" using b3(2) by (simp add: sink_ok_def only_wrote_kept)
  moreover have "client_out c b3 = client_out c b @ (if is_chunked h then chunk d else d)"
    using b3(3) by (simp add: chunk_def)
  ultimately show ?thesis using r3 by (cases "cl_pending_write x > 30000") fastforce+
qed

fun deliver_all :: "('s, 'z) cl_ng \<Rightarrow> http_parser_url \<Rightarrow> nat \<Rightarrow> nat \<Rightarrow> char list list \<Rightarrow> ('s, 'z) cls \<Rightarrow> ('s, 'z) cls res" where
  "deliver_all NG u c r [] b = Inr b"
| "deliver_all NG u c r (d # ds) b = rbind (deliver NG u c r d b) (deliver_all NG u c r ds)"

lemma deliver_ok:
  assumes "responding c r y h b" and "int (length d) < 2 ^ 31"
  shows "\<exists>b' y'. deliver NG u c r d b = Inr b' \<and> responding c r y' h b' \<and> kept c b b'
    \<and> client_out c b' = client_out c b @ (if is_chunked h then chunk d else d)"
proof -
  let ?y = "y\<lparr>hr_body_data := Some d, hr_body_len := int (length d)\<rparr>"
  let ?b = "b\<lparr>h_relay := (h_relay b)(r \<mapsto> ?y)\<rparr>"
  have "responding c r ?y h ?b" by (rule responding_relay_update [OF assms(1)]) simp
  from client_body_ok [OF this _ _ assms(2)] obtain b' y' where
    "client_handle_relay_body c ?b = Inr b'" "responding c r y' h b'" "kept c ?b b'"
    "client_out c b' = client_out c ?b @ (if is_chunked h then chunk d else d)" by auto
  then show ?thesis
    using assms(1) by (auto simp: deliver_def upd_relay_def client_relay_cb_def responding_def)
qed

lemma deliver_all_ok:
  assumes "responding c r y h b" and "\<forall>d \<in> set ds. int (length d) < 2 ^ 31"
  shows "\<exists>b' y'. deliver_all NG u c r ds b = Inr b' \<and> responding c r y' h b' \<and> kept c b b'
    \<and> client_out c b' = client_out c b @ concat (map (\<lambda>d. if is_chunked h then chunk d else d) ds)"
  using assms
proof (induction ds arbitrary: b y)
  case Nil
  then show ?case using kept_refl by auto
next
  case (Cons d ds)
  obtain b1 y1 where b1: "deliver NG u c r d b = Inr b1" "responding c r y1 h b1" "kept c b b1"
    "client_out c b1 = client_out c b @ (if is_chunked h then chunk d else d)"
    using deliver_ok [OF Cons.prems(1), of d NG u] Cons.prems(2) by auto
  obtain b2 y2 where b2: "deliver_all NG u c r ds b1 = Inr b2" "responding c r y2 h b2" "kept c b1 b2"
    "client_out c b2 = client_out c b1 @ concat (map (\<lambda>d. if is_chunked h then chunk d else d) ds)"
    using Cons.IH [OF b1(2)] Cons.prems(2) by auto
  show ?case
    using b1 b2 kept_trans [OF b1(3) b2(3)] by auto
qed

lemma msg_complete_chunked:
  assumes "responding c r y h b" and "is_chunked h" and "client_write c (''0'' @ CRLF @ CRLF) b = Inr (rc, b1)"
    and "h_client b1 c = Some x" and "cl_pending_request_header x = None" and "cl_request_header x = Some q" and "h_header b1 q = Some hq"
  shows "client_handle_relay_msg_complete NG u c b = Inr (b1\<lparr>h_client := (h_client b1)(c \<mapsto> x\<lparr>cl_relay := None, cl_request_header := None\<rparr>),
      h_header := (h_header b1)(q := None)\<rparr>)"
proof -
  have y: "relay_get_header r b = Inr (hr_response_header y)" "look (h_header b) (hr_response_header y) = Inr h"
    using assms(1) by (auto simp: responding_def relay_get_header_def)
  have "header_value h ''Transfer-Encoding'' \<noteq> None" using assms(2) by (auto simp: is_chunked_def split: option.splits)
  with y assms(2-) show ?thesis
    by (auto simp: client_handle_relay_msg_complete_def responding_relay [OF assms(1)] upd_client_def drop_header_def)
qed

lemma deliver_response_ok:
  assumes "responding c r y h b" and "\<forall>d \<in> set ds. int (length d) < 2 ^ 31" and "is_chunked h"
    and "h_client b c = Some x" and "cl_pending_request_header x = None" and "cl_request_header x = Some q" and "h_header b q \<noteq> None"
  shows "\<exists>b' x'. rbind (deliver_all NG u c r ds b) (client_relay_cb NG u r RELAY_MSG_COMPLETE c) = Inr b'
    \<and> client_out c b' = client_out c b @ concat (map chunk ds) @ ''0'' @ CRLF @ CRLF
    \<and> h_client b' c = Some x' \<and> cl_relay x' = None \<and> cl_request_header x' = None"
proof -
  obtain b1 y1 where b1: "deliver_all NG u c r ds b = Inr b1" "responding c r y1 h b1" "kept c b b1"
    "client_out c b1 = client_out c b @ concat (map chunk ds)"
    using deliver_all_ok [OF assms(1,2), of NG u] assms(3) by auto
  from put_client_ok [OF responding_sink [OF b1(2)], of "''0'' @ CRLF @ CRLF"] obtain b2 where
    b2: "client_write c (''0'' @ CRLF @ CRLF) b1 = Inr (0, b2)" "sink_ok c b1 b2" "client_out c b2 = client_out c b1 @ ''0'' @ CRLF @ CRLF"
    by blast
  have k: "kept c b b2" using kept_trans [OF b1(3) only_wrote_kept] b2(2) by (simp add: sink_ok_def)
  then obtain x2 where x2: "h_client b2 c = Some x2" "cl_pending_request_header x2 = None" "cl_request_header x2 = Some q"
    "h_header b2 q = h_header b q"
    using assms(4-6) by (auto simp: kept_def same_but_queue_def)
  then obtain hq where hq: "h_header b2 q = Some hq" using assms(7) by auto
  show ?thesis
    using b1 b2 msg_complete_chunked [OF b1(2) assms(3) b2(1) x2(1-3) hq] x2(1)
    by (auto simp: client_relay_cb_def client_out_def)
qed

text \<open>
  Claim C5.  The body of a response without a transfer encoding reaches the client byte for byte, in the pieces of the
  tunnel and in their order; with \<^verbatim>\<open>chunked\<close> every piece is framed as a chunk, and the end of the message adds the last
  chunk, after which the client has no relay and no request.
\<close>

theorem client_response_body:
  assumes "responding c r y h b" and "\<forall>d \<in> set ds. int (length d) < 2 ^ 31" and "is_chunked h"
    and "h_client b c = Some x" and "cl_pending_request_header x = None" and "cl_request_header x = Some q" and "h_header b q \<noteq> None"
  shows "\<exists>b' x'. rbind (deliver_all NG u c r ds b) (client_relay_cb NG u r RELAY_MSG_COMPLETE c) = Inr b'
    \<and> client_out c b' = client_out c b @ concat (map chunk ds) @ ''0'' @ CRLF @ CRLF
    \<and> h_client b' c = Some x' \<and> cl_relay x' = None \<and> cl_request_header x' = None"
  using assms by (rule deliver_response_ok)

theorem client_response_body_witness:
  "\<exists>b b' :: stream_lib cl_base. rbind (deliver_all (proxy_library url_zero) url_zero 1 5 [''hello'', ''!''] b)
       (client_relay_cb (proxy_library url_zero) url_zero 5 RELAY_MSG_COMPLETE 1) = Inr b'
     \<and> client_out 1 b = [] \<and> client_out 1 b' = ''5'' @ CRLF @ ''hello'' @ CRLF @ ''1'' @ CRLF @ ''!'' @ CRLF @ ''0'' @ CRLF @ CRLF"
proof -
  let ?h = "header_add_pair header_new ''Transfer-Encoding'' ''chunked''" and ?ds = "[''hello'', ''!'']"
  have h: "is_chunked ?h" by code_simp
  have c: "concat (map chunk ?ds) = ''5'' @ CRLF @ ''hello'' @ CRLF @ ''1'' @ CRLF @ ''!'' @ CRLF" by code_simp
  obtain b :: "stream_lib cl_base" and x where b: "responding 1 5 plain_relay ?h b" "client_out 1 b = []" "h_header b 8 \<noteq> None"
    "h_client b 1 = Some x" "cl_pending_request_header x = None" "cl_request_header x = Some 8"
    using responding_start [of ?h] by blast
  from client_response_body [OF b(1) _ h b(4-6,3), of ?ds "proxy_library url_zero" url_zero] b(2) show ?thesis
    unfolding c by auto
qed

end
