(* ===== verification/Spec2Isabelle.thy ===== *)
theory Spec2Isabelle
  imports Klist Ep_Buffer Http_Types Http_Url Http_Parser Http_Parser_Inv Http_Parser_Safe Http_Parser_Props Http_Parser_Chunks Http_Parser_Data Http_Parser_Run Util Http_Url_Parts Header Ep Ep_Inv Ep_Loop Byte_Sink Ep_Buf_Tcp Http_Downstream Dns_Wire Dns Dns_Props Relay Relay_Http Relay_Http_Props Conn_Tcp Relay_Http2 Relay_Http2_Props Client Client_Inv Client_Write Client_Response
begin

text \<open>
  A verification development for the HTTP/2 client proxy, the C program at the top of \<^verbatim>\<open>src/\<close>.  Browsers speak HTTP/1.1 to
  it; it multiplexes their requests as streams of one HTTP/2 session over one tunnel connection.

  \<^bold>\<open>The parts and how they interact.\<close>  Everything runs on one event loop (\<^verbatim>\<open>ep.c\<close>, over epoll in
  \<^verbatim>\<open>ep_poll_epoll.c\<close>) that owns a table of descriptors and a list of timers and calls back into its users.
  \<^verbatim>\<open>server.c\<close> accepts a client and hands its descriptor to \<^verbatim>\<open>client.c\<close>; a client parses what arrives with the request
  parser of \<^verbatim>\<open>http_parser.c\<close>, whose callbacks fill a header (\<^verbatim>\<open>header.c\<close>), and creates a relay per request.  The
  relay of \<^verbatim>\<open>relay_http2.c\<close> turns header and URL into a request of the nghttp2 library, feeds it the body, and reports the
  response back to the client, which prints it as HTTP/1.1 and queues what the socket does not take.  The tunnel is a
  connection of \<^verbatim>\<open>conn_tcp.c\<close>.  \<^verbatim>\<open>ep_buf_tcp.c\<close> offers buffered connections, on which \<^verbatim>\<open>http_downstream.c\<close> builds a
  second, unfinished listening side.  A relay can also be one of \<^verbatim>\<open>relay_http.c\<close>, which the clients initialise: it asks the
  resolver \<^verbatim>\<open>dns.c\<close> for the address of the origin, connects to it over a buffered connection, speaks HTTP/1.1 with it
  and keeps the connection for later requests.  All of it uses the intrusive lists of \<^verbatim>\<open>list.h\<close>, the buffers of \<^verbatim>\<open>ep_buffer.c\<close> and
  the helpers of \<^verbatim>\<open>util.c\<close>.

  \<^bold>\<open>How the code is modelled.\<close>  \<open>Prelude\<close> has the faults of C (\<open>Bad_Pointer\<close>, \<open>Out_Of_Bounds\<close>,
  \<open>Assert_Failed\<close>) and the result type \<open>'a res\<close>; a C function is a HOL function that returns a result, so every
  null or dangling pointer, every access outside an array and every failed \<^verbatim>\<open>assert\<close> is a value of the model.
  Objects on the heap live in maps from addresses to records, one map per type, in one state record that the
  components extend in the order they build on each other: the event loop (\<open>ep_base\<close>), connections
  (\<open>conn_base\<close>), relays and headers (\<open>h2_base\<close>), clients (\<open>cl_base\<close>); buffered connections, the resolver and the
  HTTP/1.1 relays (\<open>buf_base\<close>, \<open>dns_base\<close>, \<open>hr_base\<close>), and the downstream side (\<open>ds_base\<close>), extend the loop in the same way.  Freeing removes an address, so a later access is a fault.
  Callbacks are data: a file or timer carries a constructor that names its callback, and a record of handlers runs
  it.  What a system call delivers is an argument, or (the answers of \<^verbatim>\<open>send\<close> to a client) a part of the state.
  Machine integers keep their width where it matters: 64-bit words in the parser's lengths, 16-bit words in the URL
  fields, 32-bit wrap-around in the clock and in byte counts.

  \<^item> \<open>Klist\<close>: \<^verbatim>\<open>list.h\<close> on a pointer heap; the list operations implement a queue, and clearing ends and frees.
  \<^item> \<open>Ep_Buffer\<close>, \<open>Util\<close>: \<^verbatim>\<open>ep_buffer.c\<close>, \<^verbatim>\<open>util.c\<close>; what a read delivers, when a formatted append fits.
  \<^item> \<open>Http_Types\<close>, \<open>Http_Url\<close>, \<open>Http_Url_Parts\<close>: the tables and the URL half of \<^verbatim>\<open>http_parser.c\<close>; parsing
    stays inside the URL, and a URL built from parts parses back into them.
  \<^item> \<open>Http_Parser\<close>: the state machine, one definition per \<^verbatim>\<open>case\<close>; \<open>Http_Parser_Inv\<close> and
    \<open>Http_Parser_Safe\<close> prove that it returns on every input for every user that keeps the contract
    \<open>http_callbacks\<close>; \<open>Http_Parser_Props\<close> has the order of the callbacks and lengths;
    \<open>Http_Parser_Chunks\<close> shows that parsing inverts the chunked coding;
    \<open>Http_Parser_Data\<close> and \<open>Http_Parser_Run\<close> carry a user's invariant through a run (\<open>parser_user\<close>).
  \<^item> \<open>Header\<close>: \<^verbatim>\<open>header.c\<close>; the pieces of the parser assemble to the lines, lookups obey \<open>header_table\<close>.
  \<^item> \<open>Ep\<close>, \<open>Ep_Inv\<close>, \<open>Ep_Loop\<close>: the event loop, its invariant \<open>base_wf\<close>, the contract \<open>ep_user\<close> of what runs on
    it, and which timers fire.
  \<^item> \<open>Ep_Buf_Tcp\<close>, \<open>Http_Downstream\<close>: buffered connections and the downstream side, which survives every input.
  \<^item> \<open>Dns_Wire\<close>, \<open>Dns\<close>, \<open>Dns_Props\<close>: the resolver.  The encoder of names equals a reference encoder, decoding inverts
    encoding; the cache refines a map, requests for a host share one query, an answer completes it; what goes wrong when a
    query is lost or a request is cancelled.
  \<^item> \<open>Relay\<close>, \<open>Relay_Http\<close>, \<open>Relay_Http_Props\<close>: the interface of the relays and the HTTP/1.1 relay.  \<open>http_relay_owner\<close> is
    what is asked of an owner of relays; from it follow the contracts of the response parser (\<open>parser_user\<close>), of the resolver
    and of the buffered connections (\<open>buffered_dns\<close>), and so the invariant of the loop with all of them on it.
  \<^item> \<open>Byte_Sink\<close>: the contract of something bytes are written to, interpreted on clients and on relay connections.
  \<^item> \<open>Conn_Tcp\<close>, \<open>Relay_Http2\<close>, \<open>Relay_Http2_Props\<close>: the tunnel and the HTTP/2 relay.  The nghttp2 library is
    a record of functions, a parameter of every definition that calls it; \<open>nghttp2_lib\<close> is what is asked of it, and
    \<open>stream_library\<close> is a small library that behaves as documented, for interpretations and witnesses.
  \<^item> \<open>Client\<close>: \<^verbatim>\<open>client.c\<close> and the accept callback; \<open>Client_Inv\<close> puts the proxy together on the loop,
    \<open>Client_Write\<close> shows that a client's output is one byte stream, \<open>Client_Response\<close> what is written to it.
  \<^item> At the end of this theory: what a client is written, parsed again, is what the tunnel delivered.

  \<^bold>\<open>Loops and fuel.\<close>  Loops over lists are structural.  The parser and its byte loop, the timer check and the
  dispatch loop take fuel and return \<open>None\<close> without it; the parser is proved to return with the fuel its length
  gives, the timer check with the length of the timer list.  \<open>drop_all_clients\<close> takes fuel because the callback of an
  owner could add relays; its exhaustion is the fault \<open>No_Return\<close>, and no theorem rests on it.  \<open>decode_enc_str\<close> takes fuel for the calls that
  follow a pointer, since one that points to itself is followed for ever; one call is enough for answers whose names point at the
  question, and \<open>decode_message_inverts\<close> is stated with it.  \<open>notify_loop\<close> takes fuel because a callback could add requests
  for ever; \<open>dns_answer_completes\<close> is stated with the number of waiting requests.

  \<^bold>\<open>Not modelled.\<close>  The vendored libraries \<^verbatim>\<open>libevent\<close> (not used by the program) and \<^verbatim>\<open>nghttp2\<close> (a
  parameter); the system calls themselves; diagnostics on \<^verbatim>\<open>stderr\<close>.  Of \<^verbatim>\<open>server.c\<close>, \<^verbatim>\<open>server_start\<close> and
  \<^verbatim>\<open>server_do_dispatch\<close>, which call the initialisation of the resolver and of the clients and then the event loop: those parts are
  modelled over two extensions of the state of the loop that do not meet in one record, and the calls have no logic of their own.
\<close>

section \<open>From the tunnel to the browser\<close>

text \<open>
  Claim C3.  A chunked response survives the proxy: when the tunnel delivers the body of a response in non-empty pieces, and
  then its end, the client is sent bytes from which a browser with the parser of the sources reads back exactly these pieces, in
  their order, and the end of the message, with nothing left over.
\<close>

theorem client_body_roundtrip:
  assumes "responding c r y h b" and "\<forall>d \<in> set ds. d \<noteq> [] \<and> int (length d) < 2 ^ 31" and "is_chunked h"
    and "h_client b c = Some x" and "cl_pending_request_header x = None" and "cl_request_header x = Some q" and "h_header b q \<noteq> None"
    and "length (chunked_body ds) < 2 ^ 63"
    and "hp_state ps = s_chunk_size_start" and "F_CHUNKED \<in> hp_flags ps" and "hp_nread ps = 0" and "hp_errno ps = HPE_OK"
  shows "\<exists>b' w ps'. rbind (deliver_all NG u c r ds b) (client_relay_cb NG u r RELAY_MSG_COMPLETE c) = Inr b'
    \<and> client_out c b' = client_out c b @ w
    \<and> http_parser_execute (log_settings quiet) w ps = Some (Inr (ps', int (length w)))
    \<and> hp_errno ps' = HPE_OK \<and> hp_data ps' = hp_data ps @ map Body_Data ds @ [Message_Complete]"
proof -
  obtain b' where "rbind (deliver_all NG u c r ds b) (client_relay_cb NG u r RELAY_MSG_COMPLETE c) = Inr b'"
    "client_out c b' = client_out c b @ chunked_body ds"
    using deliver_response_ok [OF assms(1) _ assms(3-7), of ds NG u] assms(2) by (auto simp: chunked_body_def)
  moreover have "chunk_ready ps" "list_all (\<lambda>d. d \<noteq> []) ds"
    using assms(2,9-12) by (auto simp: chunk_ready_def list_all_iff)
  ultimately show ?thesis using parse_chunked_body [OF _ _ assms(8), of ps] by blast
qed

theorem client_body_roundtrip_witness:
  "\<exists>(b :: stream_lib cl_base) b' w ps'. rbind (deliver_all (proxy_library url_zero) url_zero 1 5 [''hello'', ''!''] b)
       (client_relay_cb (proxy_library url_zero) url_zero 5 RELAY_MSG_COMPLETE 1) = Inr b'
     \<and> client_out 1 b' = w
     \<and> http_parser_execute (log_settings quiet) w
         ((http_parser_init HTTP_RESPONSE [])\<lparr>hp_state := s_chunk_size_start, hp_flags := {F_CHUNKED}\<rparr>) = Some (Inr (ps', int (length w)))
     \<and> hp_data ps' = [Body_Data ''hello'', Body_Data ''!'', Message_Complete]"
proof -
  let ?h = "header_add_pair header_new ''Transfer-Encoding'' ''chunked''" and ?ds = "[''hello'', ''!'']"
    and ?ps = "(http_parser_init HTTP_RESPONSE ([] :: http_event list))\<lparr>hp_state := s_chunk_size_start, hp_flags := {F_CHUNKED}\<rparr>"
  have h: "is_chunked ?h" and n: "length (chunked_body ?ds) = 21" by code_simp+
  obtain b :: "stream_lib cl_base" and x where b: "responding 1 5 plain_relay ?h b" "client_out 1 b = []" "h_header b 8 \<noteq> None"
    "h_client b 1 = Some x" "cl_pending_request_header x = None" "cl_request_header x = Some 8"
    using responding_start [of ?h] by blast
  have "\<exists>b' w ps'. rbind (deliver_all (proxy_library url_zero) url_zero 1 5 ?ds b)
       (client_relay_cb (proxy_library url_zero) url_zero 5 RELAY_MSG_COMPLETE 1) = Inr b'
     \<and> client_out 1 b' = client_out 1 b @ w \<and> http_parser_execute (log_settings quiet) w ?ps = Some (Inr (ps', int (length w)))
     \<and> hp_errno ps' = HPE_OK \<and> hp_data ps' = hp_data ?ps @ map Body_Data ?ds @ [Message_Complete]"
    by (rule client_body_roundtrip [OF b(1) _ h b(4-6,3)]) (simp_all add: n http_parser_init_def)
  then show ?thesis using b(2) by (auto simp: http_parser_init_def simp del: deliver_all.simps)
qed

end
